theory Spec2Isabelle
  imports Main "HOL-Library.Multiset" "HOL-Library.Char_ord" "HOL-Library.List_Lexorder"
begin

section \<open>Values shared by the packages\<close>

text \<open>
  A Go \<open>string\<close> is a sequence of bytes, here a \<open>string\<close> (a \<open>char list\<close>); the
  comparison \<open>x < y\<close> of two Go strings is the lexicographic order of their bytes, which
  is the order of lists over the byte order of \<open>char\<close>.

  A Go \<open>[]byte\<close> is either the nil slice or a slice with contents; \<open>msg == nil\<close> in
  \<open>run\<close> distinguishes the two, so the model keeps them apart: \<open>None\<close> is nil.
\<close>

type_synonym bytes = "string option"

text \<open>
  The dynamic type of the error \<open>cmd.Run\<close> returns, as the type switches of \<open>govet\<close>
  and \<open>gotest\<close> read it: \<open>*exec.Error\<close> (the executable was not found by its name),
  \<open>*exec.ExitError\<close> (it ran and exited unsuccessfully), or any other error type.
\<close>

datatype exec_error = exec_Error | exec_ExitError | other_error

text \<open>\<open>invoke.Error\<close>, the error value of package invoke.\<close>

record invoke_Error =
  Cmd :: string
  Argv :: "string list"
  Stderr :: bytes
  Err :: exec_error

text \<open>
  Error values. \<open>Errorf\<close> is an error made by \<open>fmt.Errorf\<close> or \<open>errors.New\<close> with its
  message, \<open>InvokeError\<close> a \<open>*invoke.Error\<close>, \<open>PathError\<close> the error of a failed
  \<open>os.ReadDir\<close>. \<open>Panic\<close> is not an error value of the program: it stands for a
  run-time panic (an index out of range), which unwinds through every caller; the model
  passes it up the same way an error return is passed up.
\<close>

datatype error =
    Errorf string
  | InvokeError invoke_Error
  | PathError string
  | Panic string

definition HasPrefix :: "string \<Rightarrow> string \<Rightarrow> bool" where
  "HasPrefix s p = (take (length p) s = p)"

section \<open>Package version\<close>

subsection \<open>The standard library functions the package calls\<close>

definition isdigit :: "char \<Rightarrow> bool" where
  "isdigit c = (c \<in> set ''0123456789'')"

definition digit_val :: "char \<Rightarrow> nat" where
  "digit_val c = of_char c - 48"

definition digit_char :: "nat \<Rightarrow> char" where
  "digit_char d = ''0123456789'' ! d"

text \<open>The value of a string of decimal digits, read left to right.\<close>

definition decimal :: "string \<Rightarrow> nat" where
  "decimal ds = foldl (\<lambda>n c. 10 * n + digit_val c) 0 ds"

text \<open>The size of Go's \<open>int\<close> in bits (a 64-bit platform).\<close>

definition intSize :: nat where
  "intSize = 64"

text \<open>
  \<open>strconv.Atoi\<close>: an optional sign, then one or more decimal digits, and the value must
  fit an \<open>int\<close>; \<open>None\<close> is the \<open>*NumError\<close>.
\<close>

definition Atoi :: "string \<Rightarrow> int option" where
  "Atoi s =
     (let neg = (case s of [] \<Rightarrow> False | c # _ \<Rightarrow> c = CHR ''-'');
          ds = (case s of [] \<Rightarrow> [] | c # cs \<Rightarrow> if c = CHR ''-'' \<or> c = CHR ''+'' then cs else s);
          n = int (decimal ds)
      in if ds = [] \<or> \<not> list_all isdigit ds then None
         else if neg then (if n \<le> 2 ^ (intSize - 1) then Some (- n) else None)
         else (if n < 2 ^ (intSize - 1) then Some n else None))"

text \<open>\<open>strconv.Itoa\<close>: the decimal digits of the magnitude, after a minus sign if negative.\<close>

fun digits :: "nat \<Rightarrow> string" where
  "digits n = (if n < 10 then [digit_char n] else digits (n div 10) @ [digit_char (n mod 10)])"

declare digits.simps [simp del]

definition Itoa :: "int \<Rightarrow> string" where
  "Itoa i = (if i < 0 then CHR ''-'' # digits (nat (- i)) else digits (nat i))"

text \<open>
  White space as \<open>unicode.IsSpace\<close> defines it, on the UTF-8 bytes of the text:
  \<open>space_width s\<close> is the number of bytes of the white space character at the head of
  \<open>s\<close> (0 when it starts with none), \<open>space_width_last s\<close> the same for the character
  at the end of \<open>s\<close>. The characters are tab, line feed, vertical tab, form feed,
  carriage return, space, U+0085, U+00A0, U+1680, U+2000 to U+200A, U+2028, U+2029,
  U+202F, U+205F and U+3000.
\<close>

definition asciiSpace :: "char \<Rightarrow> bool" where
  "asciiSpace c = (c \<in> set [CHR 0x09, CHR 0x0A, CHR 0x0B, CHR 0x0C, CHR 0x0D, CHR 0x20])"

definition space2 :: "string \<Rightarrow> bool" where
  "space2 s = (s \<in> set [[CHR 0xC2, CHR 0x85], [CHR 0xC2, CHR 0xA0]])"

definition space3 :: "string \<Rightarrow> bool" where
  "space3 s = (s \<in> set
     ([[CHR 0xE1, CHR 0x9A, CHR 0x80], [CHR 0xE2, CHR 0x81, CHR 0x9F], [CHR 0xE3, CHR 0x80, CHR 0x80]]
      @ map (\<lambda>c. [CHR 0xE2, CHR 0x80, c])
          [CHR 0x80, CHR 0x81, CHR 0x82, CHR 0x83, CHR 0x84, CHR 0x85, CHR 0x86, CHR 0x87,
           CHR 0x88, CHR 0x89, CHR 0x8A, CHR 0xA8, CHR 0xA9, CHR 0xAF]))"

definition space_width :: "string \<Rightarrow> nat" where
  "space_width s =
     (case s of [] \<Rightarrow> 0
      | c # _ \<Rightarrow> if asciiSpace c then 1 else if space2 (take 2 s) then 2
                 else if space3 (take 3 s) then 3 else 0)"

definition space_width_last :: "string \<Rightarrow> nat" where
  "space_width_last s =
     (if s = [] then 0
      else if asciiSpace (last s) then 1
      else if space2 (drop (length s - 2) s) then 2
      else if space3 (drop (length s - 3) s) then 3 else 0)"

text \<open>
  \<open>strings.Fields\<close>: the maximal runs of bytes between white space characters. \<open>skip\<close>
  counts the bytes still to pass of a white space character of several bytes, \<open>cur\<close> is
  the field read so far.
\<close>

fun fields_from :: "nat \<Rightarrow> string \<Rightarrow> string \<Rightarrow> string list" where
  "fields_from skip cur [] = (if cur = [] then [] else [cur])"
| "fields_from skip cur (c # cs) =
     (if skip > 0 then fields_from (skip - 1) cur cs
      else if space_width (c # cs) > 0
        then (if cur = [] then [] else [cur]) @ fields_from (space_width (c # cs) - 1) [] cs
        else fields_from 0 (cur @ [c]) cs)"

definition Fields :: "string \<Rightarrow> string list" where
  "Fields s = fields_from 0 [] s"

subsection \<open>The regular expression\<close>

text \<open>
  \<^verbatim>\<open>^(?P<major>0|[1-9]\d*)\.(?P<minor>0|[1-9]\d*)(?:\.(?P<patch>0|[1-9]\d*))?(?P<prerelease>.*)$\<close>

  \<open>numeral_group\<close> matches the group \<^verbatim>\<open>(0|[1-9]\d*)\<close> at the head of a string and
  returns the text of the group and the rest: the alternative \<^verbatim>\<open>0\<close> comes first, and
  \<^verbatim>\<open>\d*\<close> is greedy (\<^verbatim>\<open>\d\<close> is an ASCII digit).

  \<open>regex_FindStringSubmatch\<close> is the one match \<open>regex.FindAllStringSubmatch(version, -1)\<close>
  can find (the expression is anchored at both ends), as the groups major, minor, patch
  and prerelease, or \<open>None\<close> when the result is nil. A group that did not take part in
  the match is the empty string. The expression is matched with the leftmost-first
  preference of Go's regexp package: each group takes its first alternative and its
  longest repetition, the optional patch group is taken whenever it can match, and
  nothing is given back, because \<^verbatim>\<open>.*$\<close> accepts every rest that holds no line feed
  (\<^verbatim>\<open>.\<close> does not match a line feed, \<^verbatim>\<open>$\<close> only matches at the end of the text) and
  no rest that holds one.
\<close>

fun numeral_group :: "string \<Rightarrow> (string \<times> string) option" where
  "numeral_group [] = None"
| "numeral_group (c # cs) =
     (if c = CHR ''0'' then Some ([c], cs)
      else if isdigit c then Some (c # takeWhile isdigit cs, dropWhile isdigit cs)
      else None)"

definition patch_group :: "string \<Rightarrow> string \<times> string" where
  "patch_group r =
     (case r of [] \<Rightarrow> ([], r)
      | d # r' \<Rightarrow>
          if d = CHR ''.'' then (case numeral_group r' of None \<Rightarrow> ([], r) | Some (p, r'') \<Rightarrow> (p, r''))
          else ([], r))"

definition regex_FindStringSubmatch :: "string \<Rightarrow> (string \<times> string \<times> string \<times> string) option" where
  "regex_FindStringSubmatch s =
     (case numeral_group s of None \<Rightarrow> None
      | Some (major, r1) \<Rightarrow>
          (case r1 of [] \<Rightarrow> None
           | d # r2 \<Rightarrow>
               if d \<noteq> CHR ''.'' then None
               else (case numeral_group r2 of None \<Rightarrow> None
                     | Some (minor, r3) \<Rightarrow>
                         (case patch_group r3 of (patch, prerelease) \<Rightarrow>
                            if CHR 0x0A \<in> set prerelease then None
                            else Some (major, minor, patch, prerelease)))))"

subsection \<open>Version, Parse, ParseLine\<close>

record Version =
  Major :: int
  Minor :: int
  Patch :: int
  PreRelease :: string

definition Parse :: "string \<Rightarrow> error + Version" where
  "Parse version0 =
     (if \<not> HasPrefix version0 ''go''
      then Inl (Errorf ''parse: version does not have the \"go\" prefix'')
      else let version = drop 2 version0 in
        (case regex_FindStringSubmatch version of
           None \<Rightarrow> Inl (Errorf (''parse: unable to parse version '' @ version))
         | Some (m1, m2, m3, m4) \<Rightarrow>
             (case Atoi m1 of
                None \<Rightarrow> Inl (Errorf (''parse: invalid major in version '' @ version))
              | Some major \<Rightarrow>
                  (case Atoi m2 of
                     None \<Rightarrow> Inl (Errorf (''parse: invalid minor in version '' @ version))
                   | Some minor \<Rightarrow>
                       (if m3 \<noteq> []
                        then (case Atoi m3 of
                                None \<Rightarrow> Inl (Errorf (''parse: invalid patch in version '' @ version))
                              | Some patch \<Rightarrow>
                                  Inr \<lparr>Major = major, Minor = minor, Patch = patch, PreRelease = m4\<rparr>)
                        else Inr \<lparr>Major = major, Minor = minor, Patch = 0, PreRelease = m4\<rparr>)))))"

text \<open>
  \<open>ParseLine\<close> indexes \<open>fields[2]\<close>, and \<open>fields[3]\<close> after \<open>devel\<close>, without a check
  of \<open>len(fields)\<close>: a line with too few fields is an index out of range, a panic.
\<close>

definition ParseLine :: "string \<Rightarrow> error + Version" where
  "ParseLine line =
     (let fields = Fields line in
      if length fields \<le> 2 then Inl (Panic ''index out of range [2]'')
      else let version = fields ! 2 in
        if version = ''devel''
        then (if length fields \<le> 3 then Inl (Panic ''index out of range [3]'')
              else Parse (fields ! 3))
        else Parse version)"

subsection \<open>Compare, Less, String\<close>

definition intcmp :: "int \<Rightarrow> int \<Rightarrow> int" where
  "intcmp a b = (if a < b then - 1 else if a > b then 1 else 0)"

definition strcmp :: "string \<Rightarrow> string \<Rightarrow> int" where
  "strcmp x y = (if x < y then - 1 else if x > y then 1 else 0)"

definition precmp :: "string \<Rightarrow> string \<Rightarrow> int" where
  "precmp x y = (if x = y then 0 else if x = [] then 1 else if y = [] then - 1 else strcmp x y)"

definition Compare :: "Version \<Rightarrow> Version \<Rightarrow> int" where
  "Compare v w =
     (if intcmp (Major v) (Major w) \<noteq> 0 then intcmp (Major v) (Major w)
      else if intcmp (Minor v) (Minor w) \<noteq> 0 then intcmp (Minor v) (Minor w)
      else if intcmp (Patch v) (Patch w) \<noteq> 0 then intcmp (Patch v) (Patch w)
      else precmp (PreRelease v) (PreRelease w))"

definition Less :: "Version \<Rightarrow> Version \<Rightarrow> bool" where
  "Less v w = (Compare v w < 0)"

definition String :: "Version \<Rightarrow> string" where
  "String v =
     (let s = Itoa (Major v) @ ''.'' @ Itoa (Minor v);
          s = (if Patch v > 0 then s @ ''.'' @ Itoa (Patch v) else s);
          s = (if PreRelease v \<noteq> [] then s @ PreRelease v else s)
      in s)"

section \<open>Package invoke\<close>

text \<open>
  \<open>bytes.TrimSpace\<close>: the white space characters at both ends are cut off. When nothing
  is left the result is the nil slice, not an empty one (the standard library returns
  nil for an input that is all white space, and an empty buffer's bytes are nil).
\<close>

function TrimLeft :: "string \<Rightarrow> string" where
  "TrimLeft s = (if space_width s = 0 then s else TrimLeft (drop (space_width s) s))"
  by pat_completeness auto
termination
proof (relation "measure length")
  fix s :: string
  assume "space_width s \<noteq> 0"
  then have "s \<noteq> []"
    by (auto simp: space_width_def)
  with \<open>space_width s \<noteq> 0\<close> show "(drop (space_width s) s, s) \<in> measure length"
    by simp
qed simp

declare TrimLeft.simps [simp del]

function TrimRight :: "string \<Rightarrow> string" where
  "TrimRight s =
     (if space_width_last s = 0 then s else TrimRight (take (length s - space_width_last s) s))"
  by pat_completeness auto
termination
proof (relation "measure length")
  fix s :: string
  assume "space_width_last s \<noteq> 0"
  then have "s \<noteq> []"
    by (auto simp: space_width_last_def)
  with \<open>space_width_last s \<noteq> 0\<close>
  show "(take (length s - space_width_last s) s, s) \<in> measure length"
    by simp
qed simp

declare TrimRight.simps [simp del]

definition TrimSpace :: "string \<Rightarrow> bytes" where
  "TrimSpace s = (let t = TrimRight (TrimLeft s) in if t = [] then None else Some t)"

text \<open>
  \<open>exec.Cmd\<close>, as far as the program uses it. \<open>Stdout_set\<close> says whether \<open>cmd.Stdout\<close>
  is not nil. \<open>exec.Command\<close> leaves \<open>Env\<close> and \<open>Stdout\<close> nil.
\<close>

record exec_Cmd =
  Path :: string
  Args :: "string list"
  Env :: "string list"
  Stdout_set :: bool

definition exec_Command :: "string \<Rightarrow> string list \<Rightarrow> exec_Cmd" where
  "exec_Command name arg = \<lparr>Path = name, Args = name # arg, Env = [], Stdout_set = False\<rparr>"

text \<open>
  What running a command gives: the bytes it wrote to its standard output and standard
  error, and the error \<open>cmd.Run\<close> returned (\<open>None\<close> is nil: it exited with status 0).
\<close>

record process =
  stdout_written :: string
  stderr_written :: string
  run_result :: "exec_error option"

record DirEntry =
  Name :: string
  IsDir :: bool

record release =
  goroot :: string
  version :: Version

text \<open>
  Everything the program reads from outside itself: the package variable \<open>gosdk\<close>
  (set by \<open>init\<close> from the environment), the directory listing \<open>os.ReadDir\<close> gives,
  \<open>filepath.Join\<close>, \<open>os.Environ\<close>, the outcome of running a command, and
  \<open>sort.Slice\<close>, whose result for elements that compare equal the standard library
  leaves open (see \<open>sort_Slice_contract\<close>; \<open>Slice\<close> is the function of the library).
\<close>

record world =
  gosdk :: string
  ReadDir :: "string \<Rightarrow> error + DirEntry list"
  Join :: "string list \<Rightarrow> string"
  Environ :: "string list"
  cmd_Run :: "exec_Cmd \<Rightarrow> process"
  sort_Slice :: "(release \<Rightarrow> release \<Rightarrow> bool) \<Rightarrow> release list \<Rightarrow> release list"

definition normalize :: "string \<Rightarrow> bytes" where
  "normalize b = TrimSpace b"

text \<open>\<open>invoke.Run\<close>; the result is the error it returns, \<open>None\<close> for nil.\<close>

definition Run :: "world \<Rightarrow> exec_Cmd \<Rightarrow> error option" where
  "Run w cmd =
     (let p = cmd_Run w cmd in
      case run_result p of
        None \<Rightarrow> None
      | Some err \<Rightarrow>
          (case Args cmd of
             [] \<Rightarrow> Some (Panic ''slice bounds out of range [1:0]'')
           | _ # argv \<Rightarrow>
               Some (InvokeError \<lparr>Cmd = Path cmd, Argv = argv,
                                  Stderr = normalize (stderr_written p), Err = err\<rparr>)))"

text \<open>\<open>invoke.Output\<close>: the pair of the bytes and the error it returns.\<close>

definition Output :: "world \<Rightarrow> exec_Cmd \<Rightarrow> bytes \<times> error option" where
  "Output w cmd =
     (if Stdout_set cmd then (None, Some (Errorf ''invoke: Stdout already set''))
      else let p = cmd_Run w (cmd\<lparr>Stdout_set := True\<rparr>) in
        case run_result p of
          None \<Rightarrow> (normalize (stdout_written p), None)
        | Some err \<Rightarrow>
            (case Args cmd of
               [] \<Rightarrow> (None, Some (Panic ''slice bounds out of range [1:0]''))
             | _ # argv \<Rightarrow>
                 (normalize (stdout_written p),
                  Some (InvokeError \<lparr>Cmd = Path cmd, Argv = argv,
                                      Stderr = normalize (stderr_written p), Err = err\<rparr>))))"

section \<open>The command: main.go\<close>

definition nl :: string where
  "nl = [CHR 0x0A]"

text \<open>\<open>string(b)\<close> for a byte slice: nil gives the empty string.\<close>

definition string_of :: "bytes \<Rightarrow> string" where
  "string_of b = (case b of None \<Rightarrow> [] | Some s \<Rightarrow> s)"

definition goversion :: "world \<Rightarrow> string \<Rightarrow> error + string" where
  "goversion w goroot' =
     (let gocmd = Join w [goroot', ''bin'', ''go''];
          cmd = (exec_Command gocmd [''version''])\<lparr>Env := Environ w @ [''GOROOT='' @ goroot']\<rparr>
      in case Output w cmd of
           (stdout, Some err) \<Rightarrow> Inl err
         | (stdout, None) \<Rightarrow> Inr (string_of stdout))"

text \<open>
  The loop of \<open>gosdklist\<close> over the directory entries; \<open>list\<close> is the slice built so
  far. An error return (and a panic of \<open>ParseLine\<close>) ends it.
\<close>

fun gosdklist_loop :: "world \<Rightarrow> Version \<Rightarrow> DirEntry list \<Rightarrow> release list \<Rightarrow> error + release list" where
  "gosdklist_loop w since [] list = Inr list"
| "gosdklist_loop w since (file # files) list =
     (let name = Name file in
      if IsDir file \<and> HasPrefix name ''go''
      then let goroot' = Join w [gosdk w, name] in
        (case goversion w goroot' of
           Inl err \<Rightarrow> Inl err
         | Inr line \<Rightarrow>
             (case ParseLine line of
                Inl err \<Rightarrow> Inl err
              | Inr version' \<Rightarrow>
                  if Less version' since then gosdklist_loop w since files list
                  else gosdklist_loop w since files
                         (list @ [\<lparr>goroot = goroot', version = version'\<rparr>])))
      else gosdklist_loop w since files list)"

text \<open>The \<open>less\<close> function \<open>gosdklist\<close> hands to \<open>sort.Slice\<close>, on the elements.\<close>

definition by_version :: "release \<Rightarrow> release \<Rightarrow> bool" where
  "by_version a b = Less (version a) (version b)"

definition gosdklist :: "world \<Rightarrow> Version \<Rightarrow> error + release list" where
  "gosdklist w since =
     (case ReadDir w (gosdk w) of
        Inl err \<Rightarrow> Inl err
      | Inr files \<Rightarrow>
          (case gosdklist_loop w since files [] of
             Inl err \<Rightarrow> Inl err
           | Inr list \<Rightarrow>
               if length list = 0 then Inl (Errorf (''no go releases found in '' @ gosdk w))
               else Inr (sort_Slice w by_version list)))"

text \<open>
  \<open>govet\<close> and \<open>gotest\<close> return the pair of the diagnostic message and the error. The
  type assertion \<open>err.(*invoke.Error)\<close> holds for every error \<open>invoke.Run\<close> returns;
  a panic of \<open>invoke.Run\<close> passes through.
\<close>

definition govet :: "world \<Rightarrow> release \<Rightarrow> string list \<Rightarrow> bytes \<times> error option" where
  "govet w rel patterns =
     (let gocmd = Join w [goroot rel, ''bin'', ''go''];
          args = [''vet''] @ patterns;
          cmd = (exec_Command gocmd args)\<lparr>Env := Environ w @ [''GOROOT='' @ goroot rel]\<rparr>
      in case Run w cmd of
           Some err \<Rightarrow>
             (case err of
                InvokeError cmderr \<Rightarrow>
                  (case Err cmderr of
                     exec_Error \<Rightarrow> (None, Some err)
                   | exec_ExitError \<Rightarrow> (Stderr cmderr, None)
                   | other_error \<Rightarrow> (None, Some err))
              | Panic m \<Rightarrow> (None, Some (Panic m))
              | _ \<Rightarrow> (None, Some (Panic ''interface conversion: error is not *invoke.Error'')))
         | None \<Rightarrow> (None, None))"

definition gotest :: "world \<Rightarrow> release \<Rightarrow> string list \<Rightarrow> bytes \<times> error option" where
  "gotest w rel patterns =
     (let gocmd = Join w [goroot rel, ''bin'', ''go''];
          args = [''test''] @ patterns;
          cmd = (exec_Command gocmd args)\<lparr>Env := Environ w @ [''GOROOT='' @ goroot rel]\<rparr>
      in case Run w cmd of
           Some err \<Rightarrow>
             (case err of
                InvokeError cmderr \<Rightarrow>
                  (case Err cmderr of
                     exec_Error \<Rightarrow> (None, Some err)
                   | exec_ExitError \<Rightarrow> (Stderr cmderr, None)
                   | other_error \<Rightarrow> (None, Some err))
              | Panic m \<Rightarrow> (None, Some (Panic m))
              | _ \<Rightarrow> (None, Some (Panic ''interface conversion: error is not *invoke.Error'')))
         | None \<Rightarrow> (None, None))"

text \<open>
  The loop of \<open>run\<close>. \<open>index\<close> is the counter of failed releases, \<open>out\<close> the bytes
  written to \<open>os.Stderr\<close> so far; the result is the bytes written and the error
  returned (\<open>None\<close> for nil).
\<close>

fun run_loop :: "(release \<Rightarrow> string list \<Rightarrow> bytes \<times> error option) \<Rightarrow> string list \<Rightarrow>
    release list \<Rightarrow> nat \<Rightarrow> string \<Rightarrow> string \<times> error option" where
  "run_loop tool patterns [] index out = (out, None)"
| "run_loop tool patterns (rel # rels) index out =
     (case tool rel patterns of
        (msg, Some err) \<Rightarrow> (out, Some err)
      | (None, None) \<Rightarrow> run_loop tool patterns rels index out
      | (Some msg, None) \<Rightarrow>
          (let out = (if index > 0 then out @ nl else out);
               out = out @ ''using go'' @ String (version rel) @ nl;
               out = out @ msg;
               out = out @ nl
           in run_loop tool patterns rels (index + 1) out))"

definition run :: "world \<Rightarrow> release list \<Rightarrow> string list \<Rightarrow> bool \<Rightarrow> string \<times> error option" where
  "run w releases patterns test =
     (let tool = (if test then gotest w else govet w)
      in run_loop tool patterns releases 0 [])"

section \<open>The command: the variant with isFatal\<close>

text \<open>
  The second main file of the repository has no \<open>-test\<close> and no \<open>-since\<close> flag, and
  its \<open>govet\<close> asks \<open>isFatal\<close> about an exit error. \<open>isFatal\<close> indexes
  \<open>err.Stderr[0]\<close> without a check of the length. Its \<open>govet\<close> has no return after the
  type switch, so an error of another type falls through to \<open>return nil, nil\<close>.
\<close>

definition bytes_HasPrefix :: "bytes \<Rightarrow> string \<Rightarrow> bool" where
  "bytes_HasPrefix b p = HasPrefix (string_of b) p"

definition isFatal :: "invoke_Error \<Rightarrow> error + bool" where
  "isFatal err =
     (if bytes_HasPrefix (Stderr err) ''package'' then Inr False
      else (case string_of (Stderr err) of
              [] \<Rightarrow> Inl (Panic ''index out of range [0] with length 0'')
            | c # _ \<Rightarrow> if c = CHR ''#'' then Inr False else Inr False))"

definition alt_govet :: "world \<Rightarrow> release \<Rightarrow> string list \<Rightarrow> bytes \<times> error option" where
  "alt_govet w rel patterns =
     (let gocmd = Join w [goroot rel, ''bin'', ''go''];
          args = [''vet''] @ patterns;
          cmd = (exec_Command gocmd args)\<lparr>Env := Environ w @ [''GOROOT='' @ goroot rel]\<rparr>
      in case Run w cmd of
           Some err \<Rightarrow>
             (case err of
                InvokeError cmderr \<Rightarrow>
                  (case Err cmderr of
                     exec_Error \<Rightarrow> (None, Some err)
                   | exec_ExitError \<Rightarrow>
                       (case isFatal cmderr of
                          Inl p \<Rightarrow> (None, Some p)
                        | Inr fatal \<Rightarrow> if fatal then (None, Some err) else (Stderr cmderr, None))
                   | other_error \<Rightarrow> (None, None))
              | Panic m \<Rightarrow> (None, Some (Panic m))
              | _ \<Rightarrow> (None, Some (Panic ''interface conversion: error is not *invoke.Error'')))
         | None \<Rightarrow> (None, None))"

definition alt_run :: "world \<Rightarrow> release list \<Rightarrow> string list \<Rightarrow> string \<times> error option" where
  "alt_run w releases patterns = run_loop (alt_govet w) patterns releases 0 []"

section \<open>The standard library: sort.Slice\<close>

text \<open>
  \<open>gosdklist\<close> sorts with \<open>sort.Slice\<close>. This section has the function as
  package sort has it, since Go 1.19 a pattern-defeating quicksort (\<open>pdqsort_func\<close>),
  on the slice as a list. The library's \<open>data.Less(i, j)\<close> is the \<open>less\<close> function
  of the caller on the elements at \<open>i\<close> and \<open>j\<close>, and \<open>data.Swap(i, j)\<close>
  exchanges them. An index is an \<open>int\<close>: a loop that counts down stops below its
  lower bound, which may be \<open>-1\<close>.
\<close>

unbundle bit_operations_syntax

definition data_Less :: "('a \<Rightarrow> 'a \<Rightarrow> bool) \<Rightarrow> 'a list \<Rightarrow> int \<Rightarrow> int \<Rightarrow> bool" where
  "data_Less lt data i j = lt (data ! nat i) (data ! nat j)"

definition data_Swap :: "'a list \<Rightarrow> int \<Rightarrow> int \<Rightarrow> 'a list" where
  "data_Swap data i j = data[nat i := data ! nat j, nat j := data ! nat i]"

text \<open>
  \<open>insertionSort_func\<close> sorts \<open>data[a:b]\<close>; \<open>insertion_loop\<close> is its inner loop,
  which moves the element at \<open>j\<close> down while it is less than the one before it.
\<close>

function insertion_loop :: "('a \<Rightarrow> 'a \<Rightarrow> bool) \<Rightarrow> 'a list \<Rightarrow> int \<Rightarrow> int \<Rightarrow> 'a list" where
  "insertion_loop lt data a j =
     (if j > a \<and> data_Less lt data j (j - 1)
      then insertion_loop lt (data_Swap data j (j - 1)) a (j - 1)
      else data)"
  by pat_completeness auto
termination
  by (relation "measure (\<lambda>(lt, data, a, j). nat (j - a))") auto

declare insertion_loop.simps [simp del]

definition insertionSort_func :: "('a \<Rightarrow> 'a \<Rightarrow> bool) \<Rightarrow> 'a list \<Rightarrow> int \<Rightarrow> int \<Rightarrow> 'a list" where
  "insertionSort_func lt data a b = fold (\<lambda>i data. insertion_loop lt data a i) [a + 1..b - 1] data"

text \<open>
  \<open>siftDown_func\<close> and \<open>heapSort_func\<close>, the heap sort the library falls back to
  when \<open>limit\<close> has run out. \<open>lo\<close>, \<open>hi\<close> and \<open>first\<close> are never negative.
\<close>

function siftDown_func :: "('a \<Rightarrow> 'a \<Rightarrow> bool) \<Rightarrow> 'a list \<Rightarrow> nat \<Rightarrow> nat \<Rightarrow> nat \<Rightarrow> 'a list" where
  "siftDown_func lt data lo hi first =
     (let root = lo; child = 2 * root + 1 in
      if child \<ge> hi then data
      else
        let child = (if child + 1 < hi \<and> lt (data ! (first + child)) (data ! (first + child + 1))
                     then child + 1 else child)
        in if \<not> lt (data ! (first + root)) (data ! (first + child)) then data
           else siftDown_func lt (data[first + root := data ! (first + child),
                                       first + child := data ! (first + root)]) child hi first)"
  by pat_completeness auto
termination
  by (relation "measure (\<lambda>(lt, data, lo, hi, first). hi - lo)") (auto simp: Let_def)

declare siftDown_func.simps [simp del]

definition heapSort_func :: "('a \<Rightarrow> 'a \<Rightarrow> bool) \<Rightarrow> 'a list \<Rightarrow> int \<Rightarrow> int \<Rightarrow> 'a list" where
  "heapSort_func lt data a b =
     (let first = nat a; lo = 0; hi = nat (b - a);
          data = fold (\<lambda>i data. siftDown_func lt data i hi first) (rev [0..<(hi - 1) div 2 + 1]) data
      in fold (\<lambda>i data. siftDown_func lt (data[first := data ! (first + i), first + i := data ! first])
                          lo i first)
           (rev [0..<hi]) data)"

text \<open>
  \<open>partition_func\<close> puts the pivot first, moves the elements less than the pivot
  before the others and the pivot between them; it returns the pivot's new index and
  whether the range was already partitioned. \<open>partition_up\<close> and \<open>partition_down\<close>
  are its two scans, \<open>partition_loop\<close> is its \<open>for\<close> loop.
\<close>

function partition_up :: "('a \<Rightarrow> 'a \<Rightarrow> bool) \<Rightarrow> 'a list \<Rightarrow> int \<Rightarrow> int \<Rightarrow> int \<Rightarrow> int" where
  "partition_up lt data a i j =
     (if i \<le> j \<and> data_Less lt data i a then partition_up lt data a (i + 1) j else i)"
  by pat_completeness auto
termination
  by (relation "measure (\<lambda>(lt, data, a, i, j). nat (j + 1 - i))") auto

declare partition_up.simps [simp del]

function partition_down :: "('a \<Rightarrow> 'a \<Rightarrow> bool) \<Rightarrow> 'a list \<Rightarrow> int \<Rightarrow> int \<Rightarrow> int \<Rightarrow> int" where
  "partition_down lt data a i j =
     (if i \<le> j \<and> \<not> data_Less lt data j a then partition_down lt data a i (j - 1) else j)"
  by pat_completeness auto
termination
  by (relation "measure (\<lambda>(lt, data, a, i, j). nat (j + 1 - i))") auto

declare partition_down.simps [simp del]

function partition_loop :: "('a \<Rightarrow> 'a \<Rightarrow> bool) \<Rightarrow> 'a list \<Rightarrow> int \<Rightarrow> int \<Rightarrow> int \<Rightarrow> 'a list \<times> int" where
  "partition_loop lt data a i j =
     (let i = partition_up lt data a i j;
          j = partition_down lt data a i j
      in if i > j then (data, j)
         else partition_loop lt (data_Swap data i j) a (i + 1) (j - 1))"
  by pat_completeness auto
termination
proof (relation "measure (\<lambda>(lt, data, a, i, j). nat (j + 2 - i))")
  show "wf (measure (\<lambda>(lt, data, a, i, j). nat (j + 2 - i)))"
    by simp
next
  fix lt :: "'a \<Rightarrow> 'a \<Rightarrow> bool" and data :: "'a list" and a i j x xa :: int
  assume x: "x = partition_up lt data a i j" and xa: "xa = partition_down lt data a x j"
    and le: "\<not> xa < x"
  have up: "i \<le> partition_up lt data a i j"
    by (induction lt data a i j rule: partition_up.induct) (subst partition_up.simps, auto)
  have down: "partition_down lt data a x j \<le> j"
    by (induction lt data a x j rule: partition_down.induct) (subst partition_down.simps, auto)
  from up down x xa le
  show "((lt, data_Swap data x xa, a, x + 1, xa - 1), lt, data, a, i, j)
      \<in> measure (\<lambda>(lt, data, a, i, j). nat (j + 2 - i))"
    by simp
qed

declare partition_loop.simps [simp del]

definition partition_func :: "('a \<Rightarrow> 'a \<Rightarrow> bool) \<Rightarrow> 'a list \<Rightarrow> int \<Rightarrow> int \<Rightarrow> int \<Rightarrow> 'a list \<times> int \<times> bool" where
  "partition_func lt data a b pivot =
     (let data = data_Swap data a pivot;
          i = a + 1; j = b - 1;
          i = partition_up lt data a i j;
          j = partition_down lt data a i j
      in if i > j then (data_Swap data j a, j, True)
         else
           let data = data_Swap data i j;
               i = i + 1; j = j - 1;
               (data, j) = partition_loop lt data a i j
           in (data_Swap data j a, j, False))"

text \<open>
  \<open>partitionEqual_func\<close> moves the elements equal to the pivot before the greater
  ones, for a range that holds no element less than the pivot.
\<close>

function partitionEqual_up :: "('a \<Rightarrow> 'a \<Rightarrow> bool) \<Rightarrow> 'a list \<Rightarrow> int \<Rightarrow> int \<Rightarrow> int \<Rightarrow> int" where
  "partitionEqual_up lt data a i j =
     (if i \<le> j \<and> \<not> data_Less lt data a i then partitionEqual_up lt data a (i + 1) j else i)"
  by pat_completeness auto
termination
  by (relation "measure (\<lambda>(lt, data, a, i, j). nat (j + 1 - i))") auto

declare partitionEqual_up.simps [simp del]

function partitionEqual_down :: "('a \<Rightarrow> 'a \<Rightarrow> bool) \<Rightarrow> 'a list \<Rightarrow> int \<Rightarrow> int \<Rightarrow> int \<Rightarrow> int" where
  "partitionEqual_down lt data a i j =
     (if i \<le> j \<and> data_Less lt data a j then partitionEqual_down lt data a i (j - 1) else j)"
  by pat_completeness auto
termination
  by (relation "measure (\<lambda>(lt, data, a, i, j). nat (j + 1 - i))") auto

declare partitionEqual_down.simps [simp del]

function partitionEqual_loop :: "('a \<Rightarrow> 'a \<Rightarrow> bool) \<Rightarrow> 'a list \<Rightarrow> int \<Rightarrow> int \<Rightarrow> int \<Rightarrow> 'a list \<times> int" where
  "partitionEqual_loop lt data a i j =
     (let i = partitionEqual_up lt data a i j;
          j = partitionEqual_down lt data a i j
      in if i > j then (data, i)
         else partitionEqual_loop lt (data_Swap data i j) a (i + 1) (j - 1))"
  by pat_completeness auto
termination
proof (relation "measure (\<lambda>(lt, data, a, i, j). nat (j + 2 - i))")
  show "wf (measure (\<lambda>(lt, data, a, i, j). nat (j + 2 - i)))"
    by simp
next
  fix lt :: "'a \<Rightarrow> 'a \<Rightarrow> bool" and data :: "'a list" and a i j x xa :: int
  assume x: "x = partitionEqual_up lt data a i j" and xa: "xa = partitionEqual_down lt data a x j"
    and le: "\<not> xa < x"
  have up: "i \<le> partitionEqual_up lt data a i j"
    by (induction lt data a i j rule: partitionEqual_up.induct) (subst partitionEqual_up.simps, auto)
  have down: "partitionEqual_down lt data a x j \<le> j"
    by (induction lt data a x j rule: partitionEqual_down.induct)
      (subst partitionEqual_down.simps, auto)
  from up down x xa le
  show "((lt, data_Swap data x xa, a, x + 1, xa - 1), lt, data, a, i, j)
      \<in> measure (\<lambda>(lt, data, a, i, j). nat (j + 2 - i))"
    by simp
qed

declare partitionEqual_loop.simps [simp del]

definition partitionEqual_func :: "('a \<Rightarrow> 'a \<Rightarrow> bool) \<Rightarrow> 'a list \<Rightarrow> int \<Rightarrow> int \<Rightarrow> int \<Rightarrow> 'a list \<times> int" where
  "partitionEqual_func lt data a b pivot =
     (let data = data_Swap data a pivot;
          i = a + 1; j = b - 1
      in partitionEqual_loop lt data a i j)"

text \<open>
  \<open>partialInsertionSort_func\<close> looks for elements out of order; on a range shorter
  than 50 it moves none and returns whether the range is sorted. \<open>partial_steps\<close> is
  its loop, with the number of steps left (\<open>maxSteps\<close> is 5).
\<close>

function partial_up :: "('a \<Rightarrow> 'a \<Rightarrow> bool) \<Rightarrow> 'a list \<Rightarrow> int \<Rightarrow> int \<Rightarrow> int" where
  "partial_up lt data i b =
     (if i < b \<and> \<not> data_Less lt data i (i - 1) then partial_up lt data (i + 1) b else i)"
  by pat_completeness auto
termination
  by (relation "measure (\<lambda>(lt, data, i, b). nat (b - i))") auto

declare partial_up.simps [simp del]

function shift_left :: "('a \<Rightarrow> 'a \<Rightarrow> bool) \<Rightarrow> 'a list \<Rightarrow> int \<Rightarrow> 'a list" where
  "shift_left lt data j =
     (if j \<ge> 1 then
        (if \<not> data_Less lt data j (j - 1) then data
         else shift_left lt (data_Swap data j (j - 1)) (j - 1))
      else data)"
  by pat_completeness auto
termination
  by (relation "measure (\<lambda>(lt, data, j). nat j)") auto

declare shift_left.simps [simp del]

function shift_right :: "('a \<Rightarrow> 'a \<Rightarrow> bool) \<Rightarrow> 'a list \<Rightarrow> int \<Rightarrow> int \<Rightarrow> 'a list" where
  "shift_right lt data j b =
     (if j < b then
        (if \<not> data_Less lt data j (j - 1) then data
         else shift_right lt (data_Swap data j (j - 1)) (j + 1) b)
      else data)"
  by pat_completeness auto
termination
  by (relation "measure (\<lambda>(lt, data, j, b). nat (b - j))") auto

declare shift_right.simps [simp del]

fun partial_steps :: "nat \<Rightarrow> ('a \<Rightarrow> 'a \<Rightarrow> bool) \<Rightarrow> 'a list \<Rightarrow> int \<Rightarrow> int \<Rightarrow> int \<Rightarrow> 'a list \<times> bool" where
  "partial_steps 0 lt data a b i = (data, False)"
| "partial_steps (Suc steps) lt data a b i =
     (let i = partial_up lt data i b in
      if i = b then (data, True)
      else if b - a < 50 then (data, False)
      else
        let data = data_Swap data i (i - 1);
            data = (if i - a \<ge> 2 then shift_left lt data (i - 1) else data);
            data = (if b - i \<ge> 2 then shift_right lt data (i + 1) b else data)
        in partial_steps steps lt data a b i)"

definition partialInsertionSort_func :: "('a \<Rightarrow> 'a \<Rightarrow> bool) \<Rightarrow> 'a list \<Rightarrow> int \<Rightarrow> int \<Rightarrow> 'a list \<times> bool" where
  "partialInsertionSort_func lt data a b = partial_steps 5 lt data a b (a + 1)"

text \<open>
  \<open>bits.Len\<close>, and \<open>breakPatterns_func\<close> with its pseudo-random numbers; the state
  of \<open>xorshift\<close> is a \<open>uint64\<close>, here an \<open>int\<close> cut to 64 bits after a shift to the
  left.
\<close>

fun bits_Len :: "nat \<Rightarrow> nat" where
  "bits_Len n = (if n = 0 then 0 else Suc (bits_Len (n div 2)))"

declare bits_Len.simps [simp del]

definition xorshift_Next :: "int \<Rightarrow> int" where
  "xorshift_Next r =
     (let r = r XOR take_bit 64 (push_bit 13 r);
          r = r XOR drop_bit 7 r;
          r = r XOR take_bit 64 (push_bit 17 r)
      in r)"

definition nextPowerOfTwo :: "int \<Rightarrow> int" where
  "nextPowerOfTwo length' = take_bit 64 (push_bit (bits_Len (nat length')) 1)"

definition breakPatterns_func :: "'a list \<Rightarrow> int \<Rightarrow> int \<Rightarrow> 'a list" where
  "breakPatterns_func data a b =
     (let length' = b - a in
      if length' \<ge> 8 then
        let random = length';
            modulus = nextPowerOfTwo length';
            idx = a + (length' div 4) * 2 - 1
        in fst (fold (\<lambda>i (data, random).
                   let random = xorshift_Next random;
                       other = random AND (modulus - 1);
                       other = (if other \<ge> length' then other - length' else other)
                   in (data_Swap data (idx - 1 + i) (a + other), random))
                 [0..2] (data, random))
      else data)"

text \<open>
  \<open>choosePivot_func\<close> takes the median of three elements (of three medians of
  adjacent elements from 50 elements on) and counts the exchanges it needed.
\<close>

datatype sortedHint = unknownHint | increasingHint | decreasingHint

definition order2_func :: "('a \<Rightarrow> 'a \<Rightarrow> bool) \<Rightarrow> 'a list \<Rightarrow> int \<Rightarrow> int \<Rightarrow> nat \<Rightarrow> int \<times> int \<times> nat" where
  "order2_func lt data a b swaps =
     (if data_Less lt data b a then (b, a, swaps + 1) else (a, b, swaps))"

definition median_func :: "('a \<Rightarrow> 'a \<Rightarrow> bool) \<Rightarrow> 'a list \<Rightarrow> int \<Rightarrow> int \<Rightarrow> int \<Rightarrow> nat \<Rightarrow> int \<times> nat" where
  "median_func lt data a b c swaps =
     (let (a, b, swaps) = order2_func lt data a b swaps;
          (b, c, swaps) = order2_func lt data b c swaps;
          (a, b, swaps) = order2_func lt data a b swaps
      in (b, swaps))"

definition medianAdjacent_func :: "('a \<Rightarrow> 'a \<Rightarrow> bool) \<Rightarrow> 'a list \<Rightarrow> int \<Rightarrow> nat \<Rightarrow> int \<times> nat" where
  "medianAdjacent_func lt data a swaps = median_func lt data (a - 1) a (a + 1) swaps"

definition choosePivot_func :: "('a \<Rightarrow> 'a \<Rightarrow> bool) \<Rightarrow> 'a list \<Rightarrow> int \<Rightarrow> int \<Rightarrow> int \<times> sortedHint" where
  "choosePivot_func lt data a b =
     (let l = b - a;
          swaps = 0;
          i = a + l div 4 * 1;
          j = a + l div 4 * 2;
          k = a + l div 4 * 3;
          (j, swaps) =
            (if l \<ge> 8 then
               (let (i, j, k, swaps) =
                  (if l \<ge> 50 then
                     (let (i, swaps) = medianAdjacent_func lt data i swaps;
                          (j, swaps) = medianAdjacent_func lt data j swaps;
                          (k, swaps) = medianAdjacent_func lt data k swaps
                      in (i, j, k, swaps))
                   else (i, j, k, swaps))
                in median_func lt data i j k swaps)
             else (j, swaps))
      in if swaps = 0 then (j, increasingHint)
         else if swaps = 4 * 3 then (j, decreasingHint)
         else (j, unknownHint))"

function reverse_loop :: "'a list \<Rightarrow> int \<Rightarrow> int \<Rightarrow> 'a list" where
  "reverse_loop data i j =
     (if i < j then reverse_loop (data_Swap data i j) (i + 1) (j - 1) else data)"
  by pat_completeness auto
termination
  by (relation "measure (\<lambda>(data, i, j). nat (j - i))") auto

declare reverse_loop.simps [simp del]

definition reverseRange_func :: "'a list \<Rightarrow> int \<Rightarrow> int \<Rightarrow> 'a list" where
  "reverseRange_func data a b = reverse_loop data a (b - 1)"

text \<open>
  \<open>pdqsort_func\<close> sorts \<open>data[a:b]\<close>. Its \<open>for\<close> loop is the recursion with the
  new values of \<open>a\<close>, \<open>b\<close>, \<open>limit\<close>, \<open>wasBalanced\<close> and \<open>wasPartitioned\<close>; the
  call on the shorter side starts with both flags true. A range of at most 12 elements
  is sorted by insertion.
\<close>

function pdqsort_func :: "('a \<Rightarrow> 'a \<Rightarrow> bool) \<Rightarrow> 'a list \<Rightarrow> int \<Rightarrow> int \<Rightarrow> nat \<Rightarrow> bool \<Rightarrow> bool \<Rightarrow> 'a list" where
  "pdqsort_func lt data a b limit wasBalanced wasPartitioned =
     (let length' = b - a in
      if length' \<le> 12 then insertionSort_func lt data a b
      else if limit = 0 then heapSort_func lt data a b
      else
        let (data, limit) =
              (if \<not> wasBalanced then (breakPatterns_func data a b, limit - 1) else (data, limit));
            (pivot, hint) = choosePivot_func lt data a b;
            (data, pivot, hint) =
              (if hint = decreasingHint
               then (reverseRange_func data a b, (b - 1) - (pivot - a), increasingHint)
               else (data, pivot, hint));
            (data, sorted) =
              (if wasBalanced \<and> wasPartitioned \<and> hint = increasingHint
               then partialInsertionSort_func lt data a b else (data, False))
        in if sorted then data
           else if a > 0 \<and> \<not> data_Less lt data (a - 1) pivot then
             (let (data, mid) = partitionEqual_func lt data a b pivot
              in pdqsort_func lt data mid b limit wasBalanced wasPartitioned)
           else
             (let (data, mid, alreadyPartitioned) = partition_func lt data a b pivot;
                  leftLen = mid - a; rightLen = b - mid;
                  balanceThreshold = length' div 8
              in if leftLen < rightLen
                 then pdqsort_func lt (pdqsort_func lt data a mid limit True True) (mid + 1) b limit
                        (leftLen \<ge> balanceThreshold) alreadyPartitioned
                 else pdqsort_func lt (pdqsort_func lt data (mid + 1) b limit True True) a mid limit
                        (rightLen \<ge> balanceThreshold) alreadyPartitioned))"
  by pat_completeness auto
termination
proof -
  have up: "i \<le> partition_up lt data a i j
      \<and> (i \<le> j + 1 \<longrightarrow> partition_up lt data a i j \<le> j + 1)
      \<and> (j < i \<longrightarrow> partition_up lt data a i j = i)"
    for lt :: "'a \<Rightarrow> 'a \<Rightarrow> bool" and data a i j
    by (induction lt data a i j rule: partition_up.induct) (subst (1 2 3) partition_up.simps, auto)
  have down: "partition_down lt data a i j \<le> j
      \<and> (i \<le> j + 1 \<longrightarrow> i - 1 \<le> partition_down lt data a i j)
      \<and> (j < i \<longrightarrow> partition_down lt data a i j = j)"
    for lt :: "'a \<Rightarrow> 'a \<Rightarrow> bool" and data a i j
    by (induction lt data a i j rule: partition_down.induct) (subst (1 2 3) partition_down.simps, auto)
  have loop: "snd (partition_loop lt data a i j) \<le> j
      \<and> (i \<le> j + 2 \<longrightarrow> i - 2 \<le> snd (partition_loop lt data a i j))"
    for lt :: "'a \<Rightarrow> 'a \<Rightarrow> bool" and data a i j
  proof (induction lt data a i j rule: partition_loop.induct)
    case (1 lt data a i j)
    let ?i = "partition_up lt data a i j"
    let ?j = "partition_down lt data a ?i j"
    show ?case
    proof (cases "?j < ?i")
      case True
      then have "snd (partition_loop lt data a i j) = ?j"
        by (subst partition_loop.simps) (simp add: Let_def)
      with up [of i lt data a j] down [of lt data a ?i j] True show ?thesis
        by auto
    next
      case False
      then have "snd (partition_loop lt data a i j)
          = snd (partition_loop lt (data_Swap data ?i ?j) a (?i + 1) (?j - 1))"
        by (subst partition_loop.simps) (simp add: Let_def)
      with "1.IH" [OF refl refl False] up [of i lt data a j] down [of lt data a ?i j] False
      show ?thesis
        by auto
    qed
  qed
  have part: "a \<le> fst (snd (partition_func lt data a b pivot))
      \<and> fst (snd (partition_func lt data a b pivot)) < b"
    if "a < b" for lt :: "'a \<Rightarrow> 'a \<Rightarrow> bool" and data a b pivot
  proof -
    let ?d = "data_Swap data a pivot"
    let ?i = "partition_up lt ?d a (a + 1) (b - 1)"
    let ?j = "partition_down lt ?d a ?i (b - 1)"
    let ?l = "partition_loop lt (data_Swap ?d ?i ?j) a (?i + 1) (?j - 1)"
    have m: "fst (snd (partition_func lt data a b pivot)) = (if ?i > ?j then ?j else snd ?l)"
      by (simp add: partition_func_def Let_def split: prod.splits)
    from up [of "a + 1" lt ?d a "b - 1"] down [of lt ?d a ?i "b - 1"]
      loop [of lt "data_Swap ?d ?i ?j" a "?i + 1" "?j - 1"] that
    show ?thesis
      unfolding m by auto
  qed
  have eq_up: "i \<le> partitionEqual_up lt data a i j"
    for lt :: "'a \<Rightarrow> 'a \<Rightarrow> bool" and data a i j
    by (induction lt data a i j rule: partitionEqual_up.induct)
      (subst partitionEqual_up.simps, auto)
  have eq_loop: "i \<le> snd (partitionEqual_loop lt data a i j)"
    for lt :: "'a \<Rightarrow> 'a \<Rightarrow> bool" and data a i j
  proof (induction lt data a i j rule: partitionEqual_loop.induct)
    case (1 lt data a i j)
    let ?i = "partitionEqual_up lt data a i j"
    let ?j = "partitionEqual_down lt data a ?i j"
    show ?case
    proof (cases "?j < ?i")
      case True
      then have "snd (partitionEqual_loop lt data a i j) = ?i"
        by (subst partitionEqual_loop.simps) (simp add: Let_def)
      with eq_up [of i lt data a j] show ?thesis
        by simp
    next
      case False
      then have "snd (partitionEqual_loop lt data a i j)
          = snd (partitionEqual_loop lt (data_Swap data ?i ?j) a (?i + 1) (?j - 1))"
        by (subst partitionEqual_loop.simps) (simp add: Let_def)
      with "1.IH" [OF refl refl False] eq_up [of i lt data a j] show ?thesis
        by simp
    qed
  qed
  have peq: "a < snd (partitionEqual_func lt data a b pivot)"
    for lt :: "'a \<Rightarrow> 'a \<Rightarrow> bool" and data a b pivot
    using eq_loop [of "a + 1" lt "data_Swap data a pivot" a "b - 1"]
    by (simp add: partitionEqual_func_def Let_def)
  have mid: "a \<le> mid \<and> mid < b"
    if "\<not> b - a \<le> 12" "(d, r) = partition_func lt data a b pivot" "(mid, ap) = r"
    for lt :: "'a \<Rightarrow> 'a \<Rightarrow> bool" and data a b pivot d r mid ap
  proof -
    from that(2,3) have "fst (snd (partition_func lt data a b pivot)) = mid"
      by (metis fst_conv snd_conv)
    with part [of a b lt data pivot] that(1) show ?thesis
      by simp
  qed
  have mid_eq: "a < mid"
    if "(d, mid) = partitionEqual_func lt data a b pivot"
    for lt :: "'a \<Rightarrow> 'a \<Rightarrow> bool" and data a b pivot d mid
    using peq [of a lt data b pivot] that by (metis snd_conv)
  show ?thesis
    apply (relation "measure (\<lambda>(lt, data, a, b, limit, wasBalanced, wasPartitioned). nat (b - a))")
    subgoal by simp
    subgoal premises p for lt data a b limit wasBalanced wasPartitioned x xa xb y xaa xab ya
      xac xad yaa xae yab xaf xag yac xc xd yad
    proof -
      from p have "(xd, yad) = partitionEqual_func lt xag a b xae"
        by simp
      from mid_eq [OF this] p(1,2) show ?thesis
        by simp
    qed
    subgoal premises p for lt data a b limit wasBalanced wasPartitioned x xa xb y xaa xab ya
      xac xad yaa xae yab xaf xag yac xah xai yad xaj yae xak xal xam
    proof -
      from p have "\<not> b - a \<le> 12" "(xai, yad) = partition_func lt xag a b xae" "(xaj, yae) = yad"
        by simp_all
      from mid [OF this] show ?thesis
        by simp
    qed
    subgoal premises p for lt data a b limit wasBalanced wasPartitioned x xa xb y xaa xab ya
      xac xad yaa xae yab xaf xag yac xah xai yad xaj yae xak xal xam
    proof -
      from p have "\<not> b - a \<le> 12" "(xai, yad) = partition_func lt xag a b xae" "(xaj, yae) = yad"
        by simp_all
      from mid [OF this] show ?thesis
        by simp
    qed
    subgoal premises p for lt data a b limit wasBalanced wasPartitioned x xa xb y xaa xab ya
      xac xad yaa xae yab xaf xag yac xah xai yad xaj yae xak xal xam
    proof -
      from p have "\<not> b - a \<le> 12" "(xai, yad) = partition_func lt xag a b xae" "(xaj, yae) = yad"
        by simp_all
      from mid [OF this] show ?thesis
        by simp
    qed
    subgoal premises p for lt data a b limit wasBalanced wasPartitioned x xa xb y xaa xab ya
      xac xad yaa xae yab xaf xag yac xah xai yad xaj yae xak xal xam
    proof -
      from p have "\<not> b - a \<le> 12" "(xai, yad) = partition_func lt xag a b xae" "(xaj, yae) = yad"
        by simp_all
      from mid [OF this] show ?thesis
        by simp
    qed
    done
qed

declare pdqsort_func.simps [simp del]

text \<open>\<open>sort.Slice\<close>.\<close>

definition Slice :: "('a \<Rightarrow> 'a \<Rightarrow> bool) \<Rightarrow> 'a list \<Rightarrow> 'a list" where
  "Slice lt x =
     (let length' = length x;
          limit = bits_Len length'
      in pdqsort_func lt x 0 (int length') limit True True)"

section \<open>The specification's notions\<close>

text \<open>
  The grammar of a version as the specification words it: major, a period, minor, an
  optional period and patch, and a pre-release that is any trailing text. The numbers
  are \<open>0\<close> or a string of digits that does not start with \<open>0\<close>. \<open>line_grammar\<close> is
  the same grammar with a pre-release that holds no line feed.
\<close>

definition numeral :: "string \<Rightarrow> bool" where
  "numeral s = (s = ''0'' \<or> (s \<noteq> [] \<and> list_all isdigit s \<and> hd s \<noteq> CHR ''0''))"

definition spec_grammar :: "string \<Rightarrow> bool" where
  "spec_grammar t =
     (\<exists>major minor patch prerelease.
        numeral major \<and> numeral minor \<and> (patch = [] \<or> numeral patch) \<and>
        t = major @ ''.'' @ minor @ (if patch = [] then [] else ''.'' @ patch) @ prerelease)"

definition line_grammar :: "string \<Rightarrow> bool" where
  "line_grammar t =
     (\<exists>major minor patch prerelease.
        numeral major \<and> numeral minor \<and> (patch = [] \<or> numeral patch) \<and>
        CHR 0x0A \<notin> set prerelease \<and>
        t = major @ ''.'' @ minor @ (if patch = [] then [] else ''.'' @ patch) @ prerelease)"

text \<open>
  A pre-release suffix that the numeric groups leave alone: text with no line feed that
  starts neither with a digit nor with a period and a digit.
\<close>

definition suffix_text :: "string \<Rightarrow> bool" where
  "suffix_text s =
     (CHR 0x0A \<notin> set s \<and>
      (case s of [] \<Rightarrow> True
       | c # r \<Rightarrow> \<not> isdigit c \<and> \<not> (c = CHR ''.'' \<and> r \<noteq> [] \<and> isdigit (hd r))))"

section \<open>Discovery: the specification's notions and example worlds\<close>

text \<open>
  What \<open>gosdklist\<close> reads for one directory entry: the release made of the root
  directory and the version its \<open>go version\<close> reports, or the error.
\<close>

definition candidate :: "world \<Rightarrow> DirEntry \<Rightarrow> error + release" where
  "candidate w file =
     (let goroot' = Join w [gosdk w, Name file] in
      case goversion w goroot' of
        Inl err \<Rightarrow> Inl err
      | Inr line \<Rightarrow>
          (case ParseLine line of
             Inl err \<Rightarrow> Inl err
           | Inr version' \<Rightarrow> Inr \<lparr>goroot = goroot', version = version'\<rparr>))"

text \<open>
  The candidates of a directory listing, in the order of the listing: the releases of
  the entries that are directories and whose name starts with \<open>go\<close>; the first error
  ends it.
\<close>

fun candidates :: "world \<Rightarrow> DirEntry list \<Rightarrow> error + release list" where
  "candidates w [] = Inr []"
| "candidates w (file # files) =
     (if IsDir file \<and> HasPrefix (Name file) ''go''
      then (case candidate w file of
              Inl err \<Rightarrow> Inl err
            | Inr r \<Rightarrow>
                (case candidates w files of
                   Inl err \<Rightarrow> Inl err
                 | Inr rs \<Rightarrow> Inr (r # rs)))
      else candidates w files)"

text \<open>
  What the documentation of \<open>sort.Slice\<close> promises of the call in \<open>gosdklist\<close>: the
  slice holds the same elements afterwards, and no element is less than one before it.
  It says that the sort is not guaranteed to be stable: equal elements may be reversed
  from their original order.
\<close>

definition sort_Slice_contract :: "world \<Rightarrow> bool" where
  "sort_Slice_contract w =
     (\<forall>xs. mset (sort_Slice w by_version xs) = mset xs \<and>
           sorted_wrt (\<lambda>a b. \<not> by_version b a) (sort_Slice w by_version xs))"

text \<open>An insertion sort by a given order; it is stable and keeps the contract.\<close>

fun insert_sorted :: "('a \<Rightarrow> 'a \<Rightarrow> bool) \<Rightarrow> 'a \<Rightarrow> 'a list \<Rightarrow> 'a list" where
  "insert_sorted lt x [] = [x]"
| "insert_sorted lt x (y # ys) =
     (if lt y x then y # insert_sorted lt x ys else x # y # ys)"

definition stable_sort :: "('a \<Rightarrow> 'a \<Rightarrow> bool) \<Rightarrow> 'a list \<Rightarrow> 'a list" where
  "stable_sort lt xs = foldr (insert_sorted lt) xs []"

text \<open>
  \<open>filepath.Join\<close> on a Unix system, for elements that are clean and not empty: the
  elements with a slash between them.
\<close>

definition unix_Join :: "string list \<Rightarrow> string" where
  "unix_Join elems = (case elems of [] \<Rightarrow> [] | e # es \<Rightarrow> foldl (\<lambda>p q. p @ ''/'' @ q) e es)"

text \<open>
  A directory \<open>sdk\<close> with the releases 1.14, 1.15 and 1.16, a file and a directory of
  another name. The package under test calls \<open>os.ReadFile\<close>, which came with Go 1.16:
  \<open>go vet\<close> fails under 1.14 and 1.15 and passes under 1.16. Any other directory
  has no \<open>bin/go\<close>: the command cannot be started, and the error of \<open>cmd.Run\<close> is
  a \<open>*fs.PathError\<close>, neither an \<open>*exec.Error\<close> nor an \<open>*exec.ExitError\<close>.
\<close>

definition three_go :: "exec_Cmd \<Rightarrow> process" where
  "three_go cmd =
     (if Path cmd = ''sdk/go1.14/bin/go'' then
        (if tl (Args cmd) = [''version'']
         then \<lparr>stdout_written = ''go version go1.14 linux/amd64'' @ [CHR 0x0A], stderr_written = [],
               run_result = None\<rparr>
         else \<lparr>stdout_written = [],
               stderr_written = ''# m'' @ [CHR 0x0A] @ ''./m.go:7:9: undefined: os.ReadFile'' @ [CHR 0x0A],
               run_result = Some exec_ExitError\<rparr>)
      else if Path cmd = ''sdk/go1.15/bin/go'' then
        (if tl (Args cmd) = [''version'']
         then \<lparr>stdout_written = ''go version go1.15 linux/amd64'' @ [CHR 0x0A], stderr_written = [],
               run_result = None\<rparr>
         else \<lparr>stdout_written = [],
               stderr_written = ''# m'' @ [CHR 0x0A] @ ''./m.go:7:9: undefined: os.ReadFile'' @ [CHR 0x0A],
               run_result = Some exec_ExitError\<rparr>)
      else if Path cmd = ''sdk/go1.16/bin/go'' then
        (if tl (Args cmd) = [''version'']
         then \<lparr>stdout_written = ''go version go1.16 linux/amd64'' @ [CHR 0x0A], stderr_written = [],
               run_result = None\<rparr>
         else \<lparr>stdout_written = [], stderr_written = [], run_result = None\<rparr>)
      else \<lparr>stdout_written = [], stderr_written = [], run_result = Some other_error\<rparr>)"

definition three_world :: world where
  "three_world =
     \<lparr>gosdk = ''sdk'',
      ReadDir = (\<lambda>dir. if dir = ''sdk''
                       then Inr [\<lparr>Name = ''README'', IsDir = False\<rparr>,
                                 \<lparr>Name = ''go1.14'', IsDir = True\<rparr>,
                                 \<lparr>Name = ''go1.15'', IsDir = True\<rparr>,
                                 \<lparr>Name = ''go1.16'', IsDir = True\<rparr>,
                                 \<lparr>Name = ''tmp'', IsDir = True\<rparr>]
                       else Inl (PathError dir)),
      Join = unix_Join,
      Environ = [],
      cmd_Run = three_go,
      sort_Slice = stable_sort\<rparr>"

text \<open>
  The insertion sort of the library as a function on lists: each element in turn, from
  the second on, is moved back past the elements before it that are greater.
\<close>

definition insert_back :: "('a \<Rightarrow> 'a \<Rightarrow> bool) \<Rightarrow> 'a \<Rightarrow> 'a list \<Rightarrow> 'a list" where
  "insert_back lt x ys = rev (dropWhile (lt x) (rev ys)) @ x # rev (takeWhile (lt x) (rev ys))"

definition insertion_sort :: "('a \<Rightarrow> 'a \<Rightarrow> bool) \<Rightarrow> 'a list \<Rightarrow> 'a list" where
  "insertion_sort lt xs = foldl (\<lambda>acc x. insert_back lt x acc) [] xs"

text \<open>
  A directory with thirteen releases, listed by name: 1.12, a copy of 1.12 in
  \<open>go1.12.bak\<close>, 1.13 to 1.22, and 1.9, which its name puts last. \<open>thirteen_world\<close>
  sorts with the library's \<open>sort.Slice\<close>, \<open>thirteen_stable\<close> is the same directory
  with a stable sort. \<open>release_1 dir minor\<close> is the release 1.\<open>minor\<close> in the
  directory \<open>dir\<close>.
\<close>

definition thirteen_go :: "exec_Cmd \<Rightarrow> process" where
  "thirteen_go cmd =
     (case map_of
        [(''sdk/go1.12/bin/go'', ''go version go1.12 linux/amd64''),
         (''sdk/go1.12.bak/bin/go'', ''go version go1.12 linux/amd64''),
         (''sdk/go1.13/bin/go'', ''go version go1.13 linux/amd64''),
         (''sdk/go1.14/bin/go'', ''go version go1.14 linux/amd64''),
         (''sdk/go1.15/bin/go'', ''go version go1.15 linux/amd64''),
         (''sdk/go1.16/bin/go'', ''go version go1.16 linux/amd64''),
         (''sdk/go1.17/bin/go'', ''go version go1.17 linux/amd64''),
         (''sdk/go1.18/bin/go'', ''go version go1.18 linux/amd64''),
         (''sdk/go1.19/bin/go'', ''go version go1.19 linux/amd64''),
         (''sdk/go1.20/bin/go'', ''go version go1.20 linux/amd64''),
         (''sdk/go1.21/bin/go'', ''go version go1.21 linux/amd64''),
         (''sdk/go1.22/bin/go'', ''go version go1.22 linux/amd64''),
         (''sdk/go1.9/bin/go'', ''go version go1.9 linux/amd64'')] (Path cmd) of
        Some line \<Rightarrow> \<lparr>stdout_written = line @ [CHR 0x0A], stderr_written = [], run_result = None\<rparr>
      | None \<Rightarrow> \<lparr>stdout_written = [], stderr_written = [], run_result = Some other_error\<rparr>)"

definition thirteen_world :: world where
  "thirteen_world =
     \<lparr>gosdk = ''sdk'',
      ReadDir = (\<lambda>dir. if dir = ''sdk''
                       then Inr (map (\<lambda>name. \<lparr>Name = name, IsDir = True\<rparr>)
                              [''go1.12'', ''go1.12.bak'', ''go1.13'', ''go1.14'', ''go1.15'',
                               ''go1.16'', ''go1.17'', ''go1.18'', ''go1.19'', ''go1.20'',
                               ''go1.21'', ''go1.22'', ''go1.9''])
                       else Inl (PathError dir)),
      Join = unix_Join,
      Environ = [],
      cmd_Run = thirteen_go,
      sort_Slice = Slice\<rparr>"

definition thirteen_stable :: world where
  "thirteen_stable = thirteen_world\<lparr>sort_Slice := stable_sort\<rparr>"

definition release_1 :: "string \<Rightarrow> int \<Rightarrow> release" where
  "release_1 dir minor =
     \<lparr>goroot = ''sdk/'' @ dir,
      version = \<lparr>Major = 1, Minor = minor, Patch = 0, PreRelease = []\<rparr>\<rparr>"

text \<open>
  A directory with seven releases, listed by name: 1.12, a copy of 1.12 in
  \<open>go1.12.bak\<close>, 1.13 to 1.16, and the bootstrap release 1.4, which its name puts
  last, in a world that sorts with the library's \<open>sort.Slice\<close>.
\<close>

definition seven_go :: "exec_Cmd \<Rightarrow> process" where
  "seven_go cmd =
     (case map_of
        [(''sdk/go1.12/bin/go'', ''go version go1.12 linux/amd64''),
         (''sdk/go1.12.bak/bin/go'', ''go version go1.12 linux/amd64''),
         (''sdk/go1.13/bin/go'', ''go version go1.13 linux/amd64''),
         (''sdk/go1.14/bin/go'', ''go version go1.14 linux/amd64''),
         (''sdk/go1.15/bin/go'', ''go version go1.15 linux/amd64''),
         (''sdk/go1.16/bin/go'', ''go version go1.16 linux/amd64''),
         (''sdk/go1.4/bin/go'', ''go version go1.4 linux/amd64'')] (Path cmd) of
        Some line \<Rightarrow> \<lparr>stdout_written = line @ [CHR 0x0A], stderr_written = [], run_result = None\<rparr>
      | None \<Rightarrow> \<lparr>stdout_written = [], stderr_written = [], run_result = Some other_error\<rparr>)"

definition seven_world :: world where
  "seven_world =
     \<lparr>gosdk = ''sdk'',
      ReadDir = (\<lambda>dir. if dir = ''sdk''
                       then Inr (map (\<lambda>name. \<lparr>Name = name, IsDir = True\<rparr>)
                              [''go1.12'', ''go1.12.bak'', ''go1.13'', ''go1.14'', ''go1.15'',
                               ''go1.16'', ''go1.4''])
                       else Inl (PathError dir)),
      Join = unix_Join,
      Environ = [],
      cmd_Run = seven_go,
      sort_Slice = Slice\<rparr>"

text \<open>A directory with a release that reports the version 0.0beta1.\<close>

definition zero_go :: "exec_Cmd \<Rightarrow> process" where
  "zero_go cmd =
     (if Path cmd = ''sdk/go0.0beta1/bin/go''
      then \<lparr>stdout_written = ''go version go0.0beta1 linux/amd64'' @ [CHR 0x0A], stderr_written = [],
            run_result = None\<rparr>
      else if Path cmd = ''sdk/go1.16/bin/go''
      then \<lparr>stdout_written = ''go version go1.16 linux/amd64'' @ [CHR 0x0A], stderr_written = [],
            run_result = None\<rparr>
      else \<lparr>stdout_written = [], stderr_written = [], run_result = Some other_error\<rparr>)"

definition zero_world :: world where
  "zero_world =
     \<lparr>gosdk = ''sdk'',
      ReadDir = (\<lambda>dir. if dir = ''sdk''
                       then Inr [\<lparr>Name = ''go0.0beta1'', IsDir = True\<rparr>,
                                 \<lparr>Name = ''go1.16'', IsDir = True\<rparr>]
                       else Inl (PathError dir)),
      Join = unix_Join,
      Environ = [],
      cmd_Run = zero_go,
      sort_Slice = stable_sort\<rparr>"

definition v1_14 :: Version where
  "v1_14 = \<lparr>Major = 1, Minor = 14, Patch = 0, PreRelease = []\<rparr>"

definition v1_15 :: Version where
  "v1_15 = \<lparr>Major = 1, Minor = 15, Patch = 0, PreRelease = []\<rparr>"

definition v1_16 :: Version where
  "v1_16 = \<lparr>Major = 1, Minor = 16, Patch = 0, PreRelease = []\<rparr>"

text \<open>The zero value of \<open>Version\<close>: the value of the flag \<open>since\<close> when it is not set.\<close>

definition zero_Version :: Version where
  "zero_Version = \<lparr>Major = 0, Minor = 0, Patch = 0, PreRelease = []\<rparr>"

section \<open>The run: the specification's notions and example worlds\<close>

text \<open>
  The command \<open>govet\<close> (\<open>sub\<close> = vet) and \<open>gotest\<close> (\<open>sub\<close> = test) run for a
  release.
\<close>

definition tool_cmd :: "world \<Rightarrow> string \<Rightarrow> release \<Rightarrow> string list \<Rightarrow> exec_Cmd" where
  "tool_cmd w sub rel patterns =
     (exec_Command (Join w [goroot rel, ''bin'', ''go'']) (sub # patterns))
       \<lparr>Env := Environ w @ [''GOROOT='' @ goroot rel]\<rparr>"

text \<open>
  What \<open>run\<close> writes for one diagnostic: the header that names the release, the
  message and a line feed.
\<close>

definition block :: "release \<Rightarrow> string \<Rightarrow> string" where
  "block rel msg = ''using go'' @ String (version rel) @ [CHR 0x0A] @ msg @ [CHR 0x0A]"

text \<open>
  The diagnostics of a run, in order: the releases for which the tool returns a message
  and no error, with the message, up to the first release for which it returns an error.
\<close>

fun diagnostics :: "(release \<Rightarrow> string list \<Rightarrow> bytes \<times> error option) \<Rightarrow> string list \<Rightarrow>
    release list \<Rightarrow> (release \<times> string) list" where
  "diagnostics tool patterns [] = []"
| "diagnostics tool patterns (rel # rels) =
     (case tool rel patterns of
        (msg, Some err) \<Rightarrow> []
      | (None, None) \<Rightarrow> diagnostics tool patterns rels
      | (Some msg, None) \<Rightarrow> (rel, msg) # diagnostics tool patterns rels)"

text \<open>
  A release whose \<open>go test\<close> exits with a non-zero status and writes to its standard
  output only, as a run of failing tests does.
\<close>

definition silent_go :: "exec_Cmd \<Rightarrow> process" where
  "silent_go cmd =
     \<lparr>stdout_written = ''--- FAIL: TestRead (0.00s)'' @ [CHR 0x0A] @ ''FAIL'' @ [CHR 0x0A],
      stderr_written = [],
      run_result = Some exec_ExitError\<rparr>"

definition silent_world :: world where
  "silent_world =
     \<lparr>gosdk = ''sdk'',
      ReadDir = (\<lambda>dir. Inl (PathError dir)),
      Join = unix_Join,
      Environ = [],
      cmd_Run = silent_go,
      sort_Slice = stable_sort\<rparr>"

text \<open>
  A release whose command exits with a non-zero status and writes nothing at all, as a
  command does that is killed before it reports anything.
\<close>

definition mute_world :: world where
  "mute_world =
     \<lparr>gosdk = ''sdk'',
      ReadDir = (\<lambda>dir. Inl (PathError dir)),
      Join = unix_Join,
      Environ = [],
      cmd_Run = (\<lambda>cmd. \<lparr>stdout_written = [], stderr_written = [],
                            run_result = Some exec_ExitError\<rparr>),
      sort_Slice = stable_sort\<rparr>"

text \<open>A directory whose \<open>go version\<close> succeeds and prints nothing.\<close>

definition blank_world :: world where
  "blank_world =
     \<lparr>gosdk = ''sdk'',
      ReadDir = (\<lambda>dir. Inr [\<lparr>Name = ''gotip'', IsDir = True\<rparr>]),
      Join = unix_Join,
      Environ = [],
      cmd_Run = (\<lambda>cmd. \<lparr>stdout_written = [], stderr_written = [], run_result = None\<rparr>),
      sort_Slice = stable_sort\<rparr>"

text \<open>
  The script of the tests of package invoke: it writes \<open>hello stdout\<close> and
  \<open>hello stderr\<close>, each after a tab and before a line feed, and exits with status 1.
\<close>

definition script_world :: world where
  "script_world =
     \<lparr>gosdk = [],
      ReadDir = (\<lambda>dir. Inl (PathError dir)),
      Join = unix_Join,
      Environ = [],
      cmd_Run = (\<lambda>cmd. \<lparr>stdout_written = [CHR 0x09] @ ''hello stdout'' @ [CHR 0x0A],
                            stderr_written = [CHR 0x09] @ ''hello stderr'' @ [CHR 0x0A],
                            run_result = Some exec_ExitError\<rparr>),
      sort_Slice = stable_sort\<rparr>"

section \<open>The order of versions\<close>

lemma precmp_less_iff: "(precmp x y < 0) = (x \<noteq> [] \<and> (y = [] \<or> x < y))"
  by (auto simp: precmp_def strcmp_def)

lemma Less_iff:
  "Less v w =
     (Major v < Major w \<or> (Major v = Major w \<and>
       (Minor v < Minor w \<or> (Minor v = Minor w \<and>
         (Patch v < Patch w \<or> (Patch v = Patch w \<and>
            PreRelease v \<noteq> [] \<and> (PreRelease w = [] \<or> PreRelease v < PreRelease w)))))))"
  unfolding Less_def Compare_def using precmp_less_iff [of "PreRelease v" "PreRelease w"]
  by (auto simp: intcmp_def)

lemma Less_irrefl: "\<not> Less v v"
  by (simp add: Less_iff)

lemma Less_trans: "Less u v \<Longrightarrow> Less v w \<Longrightarrow> Less u w"
  unfolding Less_iff by (elim disjE conjE) auto

lemma Compare_eq_0_iff: "(Compare v w = 0) = (v = (w::Version))"
  by (cases v; cases w) (auto simp: Compare_def intcmp_def precmp_def strcmp_def split: if_splits)

lemma Compare_flip: "Compare w v = - Compare v w"
  by (auto simp: Compare_def intcmp_def precmp_def strcmp_def)

lemma Compare_range: "Compare v w = - 1 \<or> Compare v w = 0 \<or> Compare v w = 1"
  by (auto simp: Compare_def intcmp_def precmp_def strcmp_def)

lemma Less_total: "v \<noteq> (w::Version) \<Longrightarrow> Less v w \<or> Less w v"
  using Compare_eq_0_iff [of v w] Compare_flip [of v w] Compare_range [of v w]
  by (auto simp: Less_def)

text \<open>
  C2. \<open>Compare\<close> gives a strict total order on versions: its value is -1, 0 or 1, it is 0
  exactly for equal versions, swapping the arguments negates it, and \<open>Less\<close> is
  irreflexive, transitive and total. Versions are ordered by major, then minor, then
  patch, as numbers; with the three equal, a version whose \<open>PreRelease\<close> is empty is
  greater than one whose \<open>PreRelease\<close> is not; and two distinct non-empty suffixes are
  ordered as strings, byte by byte. So 1.16 > 1.16beta1 > 1.6.
\<close>

theorem Compare_strict_total_order:
  fixes u v w :: Version
  shows "(Compare v w = - 1 \<or> Compare v w = 0 \<or> Compare v w = 1)
    \<and> (Compare v w = 0) = (v = w)
    \<and> Compare w v = - Compare v w
    \<and> Less v w = (Compare v w = - 1)
    \<and> \<not> Less v v
    \<and> (Less u v \<and> Less v w \<longrightarrow> Less u w)
    \<and> (v \<noteq> w \<longrightarrow> Less v w \<or> Less w v)
    \<and> (Major v \<noteq> Major w \<longrightarrow> Less v w = (Major v < Major w))
    \<and> (Major v = Major w \<and> Minor v \<noteq> Minor w \<longrightarrow> Less v w = (Minor v < Minor w))
    \<and> (Major v = Major w \<and> Minor v = Minor w \<and> Patch v \<noteq> Patch w \<longrightarrow>
          Less v w = (Patch v < Patch w))
    \<and> (Major v = Major w \<and> Minor v = Minor w \<and> Patch v = Patch w \<and>
          PreRelease v = [] \<and> PreRelease w \<noteq> [] \<longrightarrow> Compare v w = 1 \<and> Less w v)
    \<and> (Major v = Major w \<and> Minor v = Minor w \<and> Patch v = Patch w \<and>
          PreRelease v \<noteq> [] \<and> PreRelease w \<noteq> [] \<and> PreRelease v \<noteq> PreRelease w \<longrightarrow>
          Less v w = (PreRelease v < PreRelease w))
    \<and> Less \<lparr>Major = 1, Minor = 6, Patch = 0, PreRelease = []\<rparr>
            \<lparr>Major = 1, Minor = 16, Patch = 0, PreRelease = ''beta1''\<rparr>
    \<and> Less \<lparr>Major = 1, Minor = 16, Patch = 0, PreRelease = ''beta1''\<rparr>
            \<lparr>Major = 1, Minor = 16, Patch = 0, PreRelease = []\<rparr>"
proof -
  have range: "Compare v w = - 1 \<or> Compare v w = 0 \<or> Compare v w = 1"
    by (rule Compare_range)
  have neg: "Less v w = (Compare v w = - 1)"
    using range by (auto simp: Less_def)
  have trans: "Less u v \<and> Less v w \<longrightarrow> Less u w"
    using Less_trans by blast
  have total: "v \<noteq> w \<longrightarrow> Less v w \<or> Less w v"
    using Less_total by blast
  have final: "Major v = Major w \<and> Minor v = Minor w \<and> Patch v = Patch w \<and>
      PreRelease v = [] \<and> PreRelease w \<noteq> [] \<longrightarrow> Compare v w = 1 \<and> Less w v"
    by (auto simp: Less_iff Compare_def intcmp_def precmp_def)
  have lex: "Major v = Major w \<and> Minor v = Minor w \<and> Patch v = Patch w \<and>
      PreRelease v \<noteq> [] \<and> PreRelease w \<noteq> [] \<and> PreRelease v \<noteq> PreRelease w \<longrightarrow>
      Less v w = (PreRelease v < PreRelease w)"
    by (auto simp: Less_iff)
  have ex1: "Less \<lparr>Major = 1, Minor = 6, Patch = 0, PreRelease = []\<rparr>
      \<lparr>Major = 1, Minor = 16, Patch = 0, PreRelease = ''beta1''\<rparr>"
    by (simp add: Less_iff)
  have ex2: "Less \<lparr>Major = 1, Minor = 16, Patch = 0, PreRelease = ''beta1''\<rparr>
      \<lparr>Major = 1, Minor = 16, Patch = 0, PreRelease = []\<rparr>"
    by (simp add: Less_iff)
  have major: "Major v \<noteq> Major w \<longrightarrow> Less v w = (Major v < Major w)"
    by (auto simp: Less_iff)
  have minor: "Major v = Major w \<and> Minor v \<noteq> Minor w \<longrightarrow> Less v w = (Minor v < Minor w)"
    by (auto simp: Less_iff)
  have patch: "Major v = Major w \<and> Minor v = Minor w \<and> Patch v \<noteq> Patch w \<longrightarrow>
      Less v w = (Patch v < Patch w)"
    by (auto simp: Less_iff)
  have zero: "(Compare v w = 0) = (v = w)"
    by (rule Compare_eq_0_iff)
  have flip: "Compare w v = - Compare v w"
    by (rule Compare_flip)
  have irrefl: "\<not> Less v v"
    by (rule Less_irrefl)
  show ?thesis
    by (intro conjI; fact)
qed

theorem Compare_strict_total_order_witness:
  "Less \<lparr>Major = 1, Minor = 6, Patch = 0, PreRelease = []\<rparr>
        \<lparr>Major = 1, Minor = 16, Patch = 0, PreRelease = ''beta1''\<rparr>
   \<and> Less \<lparr>Major = 1, Minor = 16, Patch = 0, PreRelease = ''beta1''\<rparr>
          \<lparr>Major = 1, Minor = 16, Patch = 0, PreRelease = []\<rparr>
   \<and> Less \<lparr>Major = 1, Minor = 6, Patch = 0, PreRelease = []\<rparr>
          \<lparr>Major = 1, Minor = 16, Patch = 0, PreRelease = []\<rparr>
   \<and> Compare \<lparr>Major = 1, Minor = 16, Patch = 0, PreRelease = []\<rparr>
          \<lparr>Major = 1, Minor = 16, Patch = 0, PreRelease = ''beta1''\<rparr> = 1
   \<and> Less \<lparr>Major = 1, Minor = 16, Patch = 0, PreRelease = ''beta1''\<rparr>
          \<lparr>Major = 1, Minor = 16, Patch = 0, PreRelease = ''rc1''\<rparr>
   \<and> Less \<lparr>Major = 1, Minor = 16, Patch = 1, PreRelease = []\<rparr>
          \<lparr>Major = 1, Minor = 16, Patch = 2, PreRelease = []\<rparr>
   \<and> Less \<lparr>Major = 1, Minor = 16, Patch = 0, PreRelease = []\<rparr>
          \<lparr>Major = 2, Minor = 0, Patch = 0, PreRelease = []\<rparr>"
proof -
  let ?v6 = "\<lparr>Major = 1, Minor = 6, Patch = 0, PreRelease = []\<rparr>"
  let ?b = "\<lparr>Major = 1, Minor = 16, Patch = 0, PreRelease = ''beta1''\<rparr>"
  let ?rc = "\<lparr>Major = 1, Minor = 16, Patch = 0, PreRelease = ''rc1''\<rparr>"
  let ?v16 = "\<lparr>Major = 1, Minor = 16, Patch = 0, PreRelease = []\<rparr>"
  let ?p1 = "\<lparr>Major = 1, Minor = 16, Patch = 1, PreRelease = []\<rparr>"
  let ?p2 = "\<lparr>Major = 1, Minor = 16, Patch = 2, PreRelease = []\<rparr>"
  let ?v2 = "\<lparr>Major = 2, Minor = 0, Patch = 0, PreRelease = []\<rparr>"
  have ex: "Less ?v6 ?b" "Less ?b ?v16"
    using Compare_strict_total_order [where u = ?v6 and v = ?b and w = ?v16] by blast+
  then have trans: "Less ?v6 ?v16"
    using Compare_strict_total_order [where u = ?v6 and v = ?b and w = ?v16] by blast
  have "Major ?v16 = Major ?b \<and> Minor ?v16 = Minor ?b \<and> Patch ?v16 = Patch ?b \<and>
      PreRelease ?v16 = [] \<and> PreRelease ?b \<noteq> []"
    by simp
  then have final: "Compare ?v16 ?b = 1"
    using Compare_strict_total_order [where u = ?v6 and v = ?v16 and w = ?b] by blast
  have "Major ?b = Major ?rc \<and> Minor ?b = Minor ?rc \<and> Patch ?b = Patch ?rc \<and>
      PreRelease ?b \<noteq> [] \<and> PreRelease ?rc \<noteq> [] \<and> PreRelease ?b \<noteq> PreRelease ?rc"
    and "PreRelease ?b < PreRelease ?rc"
    by simp_all
  then have lex: "Less ?b ?rc"
    using Compare_strict_total_order [where u = ?v6 and v = ?b and w = ?rc] by blast
  have "Major ?p1 = Major ?p2 \<and> Minor ?p1 = Minor ?p2 \<and> Patch ?p1 \<noteq> Patch ?p2"
    and "Patch ?p1 < Patch ?p2"
    by simp_all
  then have patch: "Less ?p1 ?p2"
    using Compare_strict_total_order [where u = ?v6 and v = ?p1 and w = ?p2] by blast
  have "Major ?v16 \<noteq> Major ?v2" and "Major ?v16 < Major ?v2"
    by simp_all
  then have major: "Less ?v16 ?v2"
    using Compare_strict_total_order [where u = ?v6 and v = ?v16 and w = ?v2] by blast
  show ?thesis
    using ex trans final lex patch major by (intro conjI)
qed

section \<open>Decimal numerals\<close>

lemma digit_cases: "d < 10 \<Longrightarrow> d \<in> {0, 1, 2, 3, 4, 5, 6, 7, 8, 9::nat}"
  by auto

lemma digit_char_props:
  assumes "d < 10"
  shows "isdigit (digit_char d)" "digit_val (digit_char d) = d"
    "(digit_char d = CHR ''0'') = (d = 0)" "digit_char d \<noteq> CHR ''-''" "digit_char d \<noteq> CHR ''+''"
    "digit_char d \<noteq> CHR ''.''"
  using digit_cases [OF assms]
  by (auto simp: isdigit_def digit_char_def digit_val_def)

lemma digits_all: "list_all isdigit (digits n)"
  by (induction n rule: digits.induct) (subst digits.simps, simp add: digit_char_props)

lemma digits_ne: "digits n \<noteq> []"
  by (subst digits.simps) simp

lemma decimal_snoc: "decimal (ds @ [c]) = 10 * decimal ds + digit_val c"
  by (simp add: decimal_def)

lemma decimal_digits: "decimal (digits n) = n"
proof (induction n rule: digits.induct)
  case (1 n)
  show ?case
  proof (cases "n < 10")
    case True
    then show ?thesis
      by (subst digits.simps) (simp add: decimal_def digit_char_props)
  next
    case False
    with 1 show ?thesis
      by (subst digits.simps) (simp add: decimal_snoc digit_char_props)
  qed
qed

lemma hd_digits: "(hd (digits n) = CHR ''0'') = (n = 0)"
proof (induction n rule: digits.induct)
  case (1 n)
  show ?case
  proof (cases "n < 10")
    case True
    then show ?thesis
      by (subst digits.simps) (simp add: digit_char_props)
  next
    case False
    then have "n div 10 \<noteq> 0" by simp
    with 1 False show ?thesis
      by (subst digits.simps) (simp add: digits_ne)
  qed
qed

lemma hd_digits_isdigit: "isdigit (hd (digits n))"
  using digits_all [of n] digits_ne [of n] by (cases "digits n") auto

lemma isdigit_not_sign: "isdigit c \<Longrightarrow> c \<noteq> CHR ''-'' \<and> c \<noteq> CHR ''+'' \<and> c \<noteq> CHR ''.'' \<and> c \<noteq> CHR 0x0A"
  by (auto simp: isdigit_def)

lemma Atoi_unsigned:
  assumes "ds \<noteq> []" "list_all isdigit ds"
  shows "Atoi ds = (if int (decimal ds) < 2 ^ 63 then Some (int (decimal ds)) else None)"
proof -
  obtain c cs where ds: "ds = c # cs"
    using assms(1) by (cases ds) auto
  with assms(2) have "isdigit c" by simp
  then have "c \<noteq> CHR ''-''" "c \<noteq> CHR ''+''"
    using isdigit_not_sign by blast+
  with assms show ?thesis
    by (simp add: Atoi_def ds intSize_def Let_def)
qed

lemma Atoi_digits: "int n < 2 ^ 63 \<Longrightarrow> Atoi (digits n) = Some (int n)"
  by (simp add: Atoi_unsigned digits_ne digits_all decimal_digits)

lemma numeral_group_digits:
  assumes "r = [] \<or> \<not> isdigit (hd r)"
  shows "numeral_group (digits n @ r) = Some (digits n, r)"
proof -
  obtain d ds where ds: "digits n = d # ds"
    using digits_ne [of n] by (cases "digits n") auto
  have all: "isdigit d" "list_all isdigit ds"
    using digits_all [of n] by (simp_all add: ds)
  show ?thesis
  proof (cases "n = 0")
    case True
    then show ?thesis
      by (subst digits.simps, subst digits.simps) (simp add: digit_char_def)
  next
    case False
    then have "d \<noteq> CHR ''0''"
      using hd_digits [of n] by (simp add: ds)
    moreover have "takeWhile isdigit (ds @ r) = ds" "dropWhile isdigit (ds @ r) = r"
      using all(2) assms by (cases r; simp add: list_all_iff takeWhile_append2 dropWhile_append2)+
    ultimately show ?thesis
      using all(1) by (simp add: ds)
  qed
qed

section \<open>The regular expression and the grammar\<close>

lemma numeral_digits: "numeral s \<Longrightarrow> s \<noteq> [] \<and> list_all isdigit s"
  by (auto simp: numeral_def isdigit_def)

lemma numeral_group_sound:
  assumes "numeral_group s = Some (g, r)"
  shows "numeral g \<and> s = g @ r"
proof (cases s)
  case Nil
  with assms show ?thesis by simp
next
  case (Cons c cs)
  with assms show ?thesis
    by (auto simp: numeral_def list_all_iff split: if_splits dest: set_takeWhileD)
qed

lemma numeral_group_exact:
  assumes "numeral g" "r = [] \<or> \<not> isdigit (hd r)"
  shows "numeral_group (g @ r) = Some (g, r)"
proof -
  obtain d ds where g: "g = d # ds"
    using assms(1) by (cases g) (auto simp: numeral_def)
  show ?thesis
  proof (cases "d = CHR ''0''")
    case True
    with assms(1) g have "ds = []" by (auto simp: numeral_def)
    with True g show ?thesis by simp
  next
    case False
    have all: "isdigit d" "list_all isdigit ds"
      using assms(1) g by (auto simp: numeral_def isdigit_def)
    have "takeWhile isdigit (ds @ r) = ds" "dropWhile isdigit (ds @ r) = r"
      using all(2) assms(2) by (cases r; simp add: list_all_iff takeWhile_append2 dropWhile_append2)+
    with False all(1) show ?thesis
      by (simp add: g)
  qed
qed

lemma numeral_group_complete:
  assumes "numeral g"
  shows "\<exists>g' r'. numeral_group (g @ r) = Some (g', r') \<and> set r' \<subseteq> set r"
proof -
  obtain d ds where g: "g = d # ds"
    using assms by (cases g) (auto simp: numeral_def)
  show ?thesis
  proof (cases "d = CHR ''0''")
    case True
    with assms g have "ds = []" by (auto simp: numeral_def)
    with True g show ?thesis by simp
  next
    case False
    have all: "isdigit d" "list_all isdigit ds"
      using assms g by (auto simp: numeral_def isdigit_def)
    have "dropWhile isdigit (ds @ r) = dropWhile isdigit r"
      using all(2) by (simp add: list_all_iff dropWhile_append2)
    moreover have "set (dropWhile isdigit r) \<subseteq> set r"
      by (auto dest: set_dropWhileD)
    ultimately show ?thesis
      using False all(1) by (simp add: g)
  qed
qed

lemma patch_group_sound:
  assumes "patch_group r = (p, pre)"
  shows "(p = [] \<or> numeral p) \<and> r = (if p = [] then [] else ''.'' @ p) @ pre"
proof (cases r)
  case Nil
  with assms show ?thesis by (simp add: patch_group_def)
next
  case (Cons d r')
  show ?thesis
  proof (cases "d = CHR ''.''")
    case False
    with assms Cons show ?thesis by (auto simp: patch_group_def)
  next
    case True
    show ?thesis
    proof (cases "numeral_group r'")
      case None
      with assms Cons True show ?thesis by (auto simp: patch_group_def)
    next
      case (Some a)
      then obtain g r'' where a: "numeral_group r' = Some (g, r'')" by (cases a) auto
      from numeral_group_sound [OF a] have "numeral g" "r' = g @ r''" by auto
      moreover from this have "g \<noteq> []" by (auto simp: numeral_def)
      ultimately show ?thesis
        using assms Cons True a by (auto simp: patch_group_def)
    qed
  qed
qed

lemma patch_group_rest: "patch_group r = (p, pre) \<Longrightarrow> set pre \<subseteq> set r"
  using patch_group_sound [of r p pre] by (cases "p = []") auto

lemma regex_sound:
  assumes "regex_FindStringSubmatch t = Some (major, minor, patch, prerelease)"
  shows "numeral major \<and> numeral minor \<and> (patch = [] \<or> numeral patch) \<and>
    CHR 0x0A \<notin> set prerelease \<and>
    t = major @ ''.'' @ minor @ (if patch = [] then [] else ''.'' @ patch) @ prerelease"
proof -
  from assms obtain r1 r2 r3 where g1: "numeral_group t = Some (major, r1)"
    and r1: "r1 = CHR ''.'' # r2" and g2: "numeral_group r2 = Some (minor, r3)"
    and pg: "patch_group r3 = (patch, prerelease)" and nl: "CHR 0x0A \<notin> set prerelease"
    by (auto simp: regex_FindStringSubmatch_def
        split: option.splits list.splits if_splits prod.splits)
  from numeral_group_sound [OF g1] numeral_group_sound [OF g2] patch_group_sound [OF pg] r1 nl
  show ?thesis by auto
qed

lemma regex_complete:
  assumes "line_grammar t"
  shows "regex_FindStringSubmatch t \<noteq> None"
proof -
  from assms obtain major minor patch prerelease where
    num: "numeral major" "numeral minor" "patch = [] \<or> numeral patch"
    and nl: "CHR 0x0A \<notin> set prerelease"
    and t: "t = major @ ''.'' @ minor @ (if patch = [] then [] else ''.'' @ patch) @ prerelease"
    unfolding line_grammar_def by blast
  define rest where "rest = (if patch = [] then [] else ''.'' @ patch) @ prerelease"
  have "CHR 0x0A \<notin> set patch"
    using num(3) numeral_digits [of patch] isdigit_not_sign by (auto simp: list_all_iff)
  with nl have rest_nl: "CHR 0x0A \<notin> set rest"
    by (auto simp: rest_def)
  have g1: "numeral_group t = Some (major, ''.'' @ minor @ rest)"
    unfolding t rest_def [symmetric]
    using numeral_group_exact [OF num(1), of "''.'' @ minor @ rest"] by (simp add: isdigit_def)
  obtain g' r' where g2: "numeral_group (minor @ rest) = Some (g', r')" and sub: "set r' \<subseteq> set rest"
    using numeral_group_complete [OF num(2), of rest] by blast
  obtain p pre where pg: "patch_group r' = (p, pre)"
    by (cases "patch_group r'") auto
  with sub rest_nl have "CHR 0x0A \<notin> set pre"
    using patch_group_rest [OF pg] by auto
  with g1 g2 pg show ?thesis
    by (simp add: regex_FindStringSubmatch_def)
qed

lemma regex_iff_grammar: "(regex_FindStringSubmatch t \<noteq> None) = line_grammar t"
proof
  assume "regex_FindStringSubmatch t \<noteq> None"
  then obtain a b c d where "regex_FindStringSubmatch t = Some (a, b, c, d)"
    by (cases "regex_FindStringSubmatch t") auto
  from regex_sound [OF this] show "line_grammar t"
    unfolding line_grammar_def by blast
qed (rule regex_complete)

section \<open>Parse and String\<close>

lemma numeral_group_no_digit: "r = [] \<or> \<not> isdigit (hd r) \<Longrightarrow> numeral_group r = None"
  by (cases r) (auto simp: isdigit_def)

lemma patch_group_suffix: "suffix_text s \<Longrightarrow> patch_group s = ([], s)"
  by (cases s) (auto simp: suffix_text_def patch_group_def numeral_group_no_digit)

lemma regex_canonical:
  assumes "suffix_text s"
  shows "regex_FindStringSubmatch (digits m @ ''.'' @ digits n @ s) = Some (digits m, digits n, [], s)"
proof -
  have 1: "numeral_group (digits m @ ''.'' @ digits n @ s) = Some (digits m, ''.'' @ digits n @ s)"
    by (rule numeral_group_digits) (simp add: isdigit_def)
  have "s = [] \<or> \<not> isdigit (hd s)"
    using assms by (cases s) (auto simp: suffix_text_def)
  then have 2: "numeral_group (digits n @ s) = Some (digits n, s)"
    by (rule numeral_group_digits)
  from assms have "CHR 0x0A \<notin> set s"
    by (simp add: suffix_text_def)
  with 1 2 patch_group_suffix [OF assms] show ?thesis
    by (simp add: regex_FindStringSubmatch_def)
qed

lemma regex_canonical_patch:
  assumes "suffix_text s"
  shows "regex_FindStringSubmatch (digits m @ ''.'' @ digits n @ ''.'' @ digits p @ s)
    = Some (digits m, digits n, digits p, s)"
proof -
  have 1: "numeral_group (digits m @ ''.'' @ digits n @ ''.'' @ digits p @ s)
      = Some (digits m, ''.'' @ digits n @ ''.'' @ digits p @ s)"
    by (rule numeral_group_digits) (simp add: isdigit_def)
  have 2: "numeral_group (digits n @ ''.'' @ digits p @ s) = Some (digits n, ''.'' @ digits p @ s)"
    by (rule numeral_group_digits) (simp add: isdigit_def)
  have "s = [] \<or> \<not> isdigit (hd s)"
    using assms by (cases s) (auto simp: suffix_text_def)
  then have 3: "numeral_group (digits p @ s) = Some (digits p, s)"
    by (rule numeral_group_digits)
  from assms have "CHR 0x0A \<notin> set s"
    by (simp add: suffix_text_def)
  with 1 2 3 show ?thesis
    by (simp add: regex_FindStringSubmatch_def patch_group_def)
qed

lemma HasPrefix_go: "HasPrefix (''go'' @ t) ''go''"
  by (simp add: HasPrefix_def)

lemma Parse_canonical:
  assumes "suffix_text s" "int m < 2 ^ 63" "int n < 2 ^ 63"
  shows "Parse (''go'' @ digits m @ ''.'' @ digits n @ s)
    = Inr \<lparr>Major = int m, Minor = int n, Patch = 0, PreRelease = s\<rparr>"
  using regex_canonical [OF assms(1), of m n] Atoi_digits [OF assms(2)] Atoi_digits [OF assms(3)]
    HasPrefix_go [of "digits m @ ''.'' @ digits n @ s"]
  by (simp add: Parse_def)

lemma Parse_canonical_patch:
  assumes "suffix_text s" "int m < 2 ^ 63" "int n < 2 ^ 63" "int p < 2 ^ 63"
  shows "Parse (''go'' @ digits m @ ''.'' @ digits n @ ''.'' @ digits p @ s)
    = Inr \<lparr>Major = int m, Minor = int n, Patch = int p, PreRelease = s\<rparr>"
  using regex_canonical_patch [OF assms(1), of m n p] Atoi_digits [OF assms(2)]
    Atoi_digits [OF assms(3)] Atoi_digits [OF assms(4)]
    HasPrefix_go [of "digits m @ ''.'' @ digits n @ ''.'' @ digits p @ s"]
  by (simp add: Parse_def digits_ne)

lemma Itoa_nonneg: "0 \<le> i \<Longrightarrow> Itoa i = digits (nat i)"
  by (simp add: Itoa_def)

lemma String_eq:
  "String v = Itoa (Major v) @ ''.'' @ Itoa (Minor v)
     @ (if Patch v > 0 then ''.'' @ Itoa (Patch v) else []) @ PreRelease v"
  by (simp add: String_def Let_def)

text \<open>
  C6. For numbers M, N and P that fit an \<open>int\<close>, written in decimal, and a pre-release
  suffix, \<open>Parse\<close> of \<open>go<M>.<N>\<close>, of \<open>go<M>.<N>.<P>\<close> and of \<open>go<M>.<N><suffix>\<close>
  succeeds with the fields M, N, P (0 when the text has no patch) and the suffix, and
  \<open>String\<close> of the result is \<open><M>.<N>\<close>, then \<open>.<P>\<close> only when P > 0, then the
  suffix as it was.
\<close>

theorem Parse_String_roundtrip:
  assumes "0 \<le> M" "M < 2 ^ 63" "0 \<le> N" "N < 2 ^ 63" "0 \<le> P" "P < 2 ^ 63" "suffix_text suffix"
  shows "Parse (''go'' @ Itoa M @ ''.'' @ Itoa N)
        = Inr \<lparr>Major = M, Minor = N, Patch = 0, PreRelease = []\<rparr>
    \<and> String \<lparr>Major = M, Minor = N, Patch = 0, PreRelease = []\<rparr> = Itoa M @ ''.'' @ Itoa N
    \<and> Parse (''go'' @ Itoa M @ ''.'' @ Itoa N @ ''.'' @ Itoa P)
        = Inr \<lparr>Major = M, Minor = N, Patch = P, PreRelease = []\<rparr>
    \<and> String \<lparr>Major = M, Minor = N, Patch = P, PreRelease = []\<rparr>
        = Itoa M @ ''.'' @ Itoa N @ (if P > 0 then ''.'' @ Itoa P else [])
    \<and> Parse (''go'' @ Itoa M @ ''.'' @ Itoa N @ suffix)
        = Inr \<lparr>Major = M, Minor = N, Patch = 0, PreRelease = suffix\<rparr>
    \<and> String \<lparr>Major = M, Minor = N, Patch = 0, PreRelease = suffix\<rparr>
        = Itoa M @ ''.'' @ Itoa N @ suffix
    \<and> Parse (''go'' @ Itoa M @ ''.'' @ Itoa N @ ''.'' @ Itoa P @ suffix)
        = Inr \<lparr>Major = M, Minor = N, Patch = P, PreRelease = suffix\<rparr>
    \<and> String \<lparr>Major = M, Minor = N, Patch = P, PreRelease = suffix\<rparr>
        = Itoa M @ ''.'' @ Itoa N @ (if P > 0 then ''.'' @ Itoa P else []) @ suffix"
proof -
  have I: "Itoa M = digits (nat M)" "Itoa N = digits (nat N)" "Itoa P = digits (nat P)"
    using assms by (simp_all add: Itoa_nonneg)
  have b: "int (nat M) < 2 ^ 63" "int (nat N) < 2 ^ 63" "int (nat P) < 2 ^ 63"
    using assms by simp_all
  have e: "suffix_text []"
    by (simp add: suffix_text_def)
  have p1: "Parse (''go'' @ Itoa M @ ''.'' @ Itoa N)
      = Inr \<lparr>Major = M, Minor = N, Patch = 0, PreRelease = []\<rparr>"
    using Parse_canonical [OF e b(1) b(2)] assms by (simp add: I)
  have p2: "Parse (''go'' @ Itoa M @ ''.'' @ Itoa N @ ''.'' @ Itoa P)
      = Inr \<lparr>Major = M, Minor = N, Patch = P, PreRelease = []\<rparr>"
    using Parse_canonical_patch [OF e b] assms by (simp add: I)
  have p3: "Parse (''go'' @ Itoa M @ ''.'' @ Itoa N @ suffix)
      = Inr \<lparr>Major = M, Minor = N, Patch = 0, PreRelease = suffix\<rparr>"
    using Parse_canonical [OF assms(7) b(1) b(2)] assms by (simp add: I)
  have p4: "Parse (''go'' @ Itoa M @ ''.'' @ Itoa N @ ''.'' @ Itoa P @ suffix)
      = Inr \<lparr>Major = M, Minor = N, Patch = P, PreRelease = suffix\<rparr>"
    using Parse_canonical_patch [OF assms(7) b] assms by (simp add: I)
  show ?thesis
    using p1 p2 p3 p4 by (simp add: String_eq)
qed

theorem Parse_String_roundtrip_witness:
  "Parse ''go1.16'' = Inr \<lparr>Major = 1, Minor = 16, Patch = 0, PreRelease = []\<rparr>
   \<and> String \<lparr>Major = 1, Minor = 16, Patch = 0, PreRelease = []\<rparr> = ''1.16''
   \<and> Parse ''go1.16.1'' = Inr \<lparr>Major = 1, Minor = 16, Patch = 1, PreRelease = []\<rparr>
   \<and> String \<lparr>Major = 1, Minor = 16, Patch = 1, PreRelease = []\<rparr> = ''1.16.1''
   \<and> Parse ''go1.6beta1'' = Inr \<lparr>Major = 1, Minor = 6, Patch = 0, PreRelease = ''beta1''\<rparr>
   \<and> String \<lparr>Major = 1, Minor = 6, Patch = 0, PreRelease = ''beta1''\<rparr> = ''1.6beta1''
   \<and> Parse ''go1.17-3f4977bd58''
       = Inr \<lparr>Major = 1, Minor = 17, Patch = 0, PreRelease = ''-3f4977bd58''\<rparr>
   \<and> String \<lparr>Major = 1, Minor = 17, Patch = 0, PreRelease = ''-3f4977bd58''\<rparr> = ''1.17-3f4977bd58''"
proof -
  have I: "Itoa 1 = ''1''" "Itoa 16 = ''16''" "Itoa 6 = ''6''" "Itoa 17 = ''17''"
    by (simp_all add: Itoa_def digits.simps digit_char_def)
  have s: "suffix_text ''beta1''" "suffix_text ''-3f4977bd58''"
    by (simp_all add: suffix_text_def isdigit_def)
  have b: "(0::int) \<le> 1" "(1::int) < 2 ^ 63" "(0::int) \<le> 16" "(16::int) < 2 ^ 63"
    "(0::int) \<le> 6" "(6::int) < 2 ^ 63" "(0::int) \<le> 17" "(17::int) < 2 ^ 63"
    by simp_all
  from Parse_String_roundtrip [OF b(1) b(2) b(3) b(4) b(1) b(2) s(1)]
  have a: "Parse ''go1.16'' = Inr \<lparr>Major = 1, Minor = 16, Patch = 0, PreRelease = []\<rparr>"
    "String \<lparr>Major = 1, Minor = 16, Patch = 0, PreRelease = []\<rparr> = ''1.16''"
    "Parse ''go1.16.1'' = Inr \<lparr>Major = 1, Minor = 16, Patch = 1, PreRelease = []\<rparr>"
    "String \<lparr>Major = 1, Minor = 16, Patch = 1, PreRelease = []\<rparr> = ''1.16.1''"
    by (simp_all add: I)
  from Parse_String_roundtrip [OF b(1) b(2) b(5) b(6) b(1) b(2) s(1)]
  have c: "Parse ''go1.6beta1'' = Inr \<lparr>Major = 1, Minor = 6, Patch = 0, PreRelease = ''beta1''\<rparr>"
    "String \<lparr>Major = 1, Minor = 6, Patch = 0, PreRelease = ''beta1''\<rparr> = ''1.6beta1''"
    by (simp_all add: I)
  from Parse_String_roundtrip [OF b(1) b(2) b(7) b(8) b(1) b(2) s(2)]
  have d: "Parse ''go1.17-3f4977bd58''
      = Inr \<lparr>Major = 1, Minor = 17, Patch = 0, PreRelease = ''-3f4977bd58''\<rparr>"
    "String \<lparr>Major = 1, Minor = 17, Patch = 0, PreRelease = ''-3f4977bd58''\<rparr> = ''1.17-3f4977bd58''"
    by (simp_all add: I)
  show ?thesis
    using a c d by (intro conjI)
qed

lemma Atoi_numeral: "numeral g \<Longrightarrow> (Atoi g = None) = (2 ^ 63 \<le> int (decimal g))"
  using numeral_digits [of g] by (auto simp: Atoi_unsigned)

lemma Parse_match:
  assumes "HasPrefix s ''go''"
    and "regex_FindStringSubmatch (drop 2 s) = Some (major, minor, patch, prerelease)"
  shows "isl (Parse s) = (Atoi major = None \<or> Atoi minor = None \<or> (patch \<noteq> [] \<and> Atoi patch = None))"
  using assms
  by (cases "Atoi major"; cases "Atoi minor"; cases "Atoi patch"; cases "patch = []")
    (simp_all add: Parse_def Let_def)

lemma Parse_no_match:
  "\<not> HasPrefix s ''go'' \<or> regex_FindStringSubmatch (drop 2 s) = None \<Longrightarrow> isl (Parse s)"
  by (auto simp: Parse_def Let_def)

text \<open>
  C7, as amended. \<open>Parse\<close> fails exactly when the \<open>go\<close> prefix is missing, or the rest
  does not match the grammar major, period, minor, optional period and patch, and a
  pre-release that is any trailing text without a line feed, or one of the numeric
  groups the regular expression matched does not convert; a numeric group does not
  convert exactly when its value is 2^63 or more. On success \<open>Patch\<close> is 0 when the
  patch group is absent.
\<close>

theorem Parse_error_iff:
  "isl (Parse s) =
     (\<not> HasPrefix s ''go'' \<or> \<not> line_grammar (drop 2 s) \<or>
      (\<exists>major minor patch prerelease.
         regex_FindStringSubmatch (drop 2 s) = Some (major, minor, patch, prerelease) \<and>
         (Atoi major = None \<or> Atoi minor = None \<or> (patch \<noteq> [] \<and> Atoi patch = None))))
   \<and> (numeral g \<longrightarrow> (Atoi g = None) = (2 ^ 63 \<le> int (decimal g)))
   \<and> (Parse s = Inr v \<and>
        regex_FindStringSubmatch (drop 2 s) = Some (major', minor', [], prerelease') \<longrightarrow>
        Patch v = 0)"
proof (intro conjI)
  show "isl (Parse s) =
     (\<not> HasPrefix s ''go'' \<or> \<not> line_grammar (drop 2 s) \<or>
      (\<exists>major minor patch prerelease.
         regex_FindStringSubmatch (drop 2 s) = Some (major, minor, patch, prerelease) \<and>
         (Atoi major = None \<or> Atoi minor = None \<or> (patch \<noteq> [] \<and> Atoi patch = None))))"
  proof (cases "HasPrefix s ''go'' \<and> line_grammar (drop 2 s)")
    case False
    then have "\<not> HasPrefix s ''go'' \<or> regex_FindStringSubmatch (drop 2 s) = None"
      using regex_iff_grammar [of "drop 2 s"] by blast
    from Parse_no_match [OF this] False show ?thesis
      by auto
  next
    case True
    then obtain major minor patch prerelease
      where m: "regex_FindStringSubmatch (drop 2 s) = Some (major, minor, patch, prerelease)"
      using regex_iff_grammar [of "drop 2 s"] by (cases "regex_FindStringSubmatch (drop 2 s)") auto
    from True have "HasPrefix s ''go''" by simp
    from Parse_match [OF this m] True m show ?thesis
      by auto
  qed
  show "numeral g \<longrightarrow> (Atoi g = None) = (2 ^ 63 \<le> int (decimal g))"
    using Atoi_numeral by blast
  show "Parse s = Inr v \<and>
      regex_FindStringSubmatch (drop 2 s) = Some (major', minor', [], prerelease') \<longrightarrow>
      Patch v = 0"
    by (auto simp: Parse_def Let_def split: if_splits option.splits)
qed

theorem Parse_error_iff_witness:
  "\<not> HasPrefix ''1.16'' ''go'' \<and> isl (Parse ''1.16'')
   \<and> \<not> line_grammar (drop 2 ''go1.x'') \<and> isl (Parse ''go1.x'')
   \<and> regex_FindStringSubmatch (drop 2 ''go1.9223372036854775808'')
        = Some (''1'', ''9223372036854775808'', [], [])
   \<and> Atoi ''9223372036854775808'' = None \<and> isl (Parse ''go1.9223372036854775808'')
   \<and> numeral ''9223372036854775807'' \<and> Atoi ''9223372036854775807'' \<noteq> None
   \<and> Parse ''go1.16'' = Inr \<lparr>Major = 1, Minor = 16, Patch = 0, PreRelease = []\<rparr>
   \<and> regex_FindStringSubmatch (drop 2 ''go1.16'') = Some (''1'', ''16'', [], [])
   \<and> Patch \<lparr>Major = 1, Minor = 16, Patch = 0, PreRelease = []\<rparr> = 0"
proof -
  have 1: "\<not> HasPrefix ''1.16'' ''go''"
    by (simp add: HasPrefix_def)
  then have 2: "isl (Parse ''1.16'')"
    using Parse_error_iff [of "''1.16''"] by blast
  have "regex_FindStringSubmatch (drop 2 ''go1.x'') = None"
    by (simp add: regex_FindStringSubmatch_def isdigit_def)
  then have 3: "\<not> line_grammar (drop 2 ''go1.x'')"
    using regex_iff_grammar [of "drop 2 ''go1.x''"] by simp
  then have 4: "isl (Parse ''go1.x'')"
    using Parse_error_iff [of "''go1.x''"] by blast
  have 5: "regex_FindStringSubmatch (drop 2 ''go1.9223372036854775808'')
      = Some (''1'', ''9223372036854775808'', [], [])"
    by (simp add: regex_FindStringSubmatch_def patch_group_def isdigit_def)
  have 6: "numeral ''9223372036854775808''" "2 ^ 63 \<le> int (decimal ''9223372036854775808'')"
    by (simp_all add: numeral_def isdigit_def decimal_def digit_val_def)
  then have 7: "Atoi ''9223372036854775808'' = None"
    using Parse_error_iff [where g = "''9223372036854775808''"] by blast
  with 5 have 8: "isl (Parse ''go1.9223372036854775808'')"
    using Parse_error_iff [of "''go1.9223372036854775808''"] by blast
  have 9: "numeral ''9223372036854775807''" "\<not> 2 ^ 63 \<le> int (decimal ''9223372036854775807'')"
    by (simp_all add: numeral_def isdigit_def decimal_def digit_val_def)
  then have 10: "Atoi ''9223372036854775807'' \<noteq> None"
    using Parse_error_iff [where g = "''9223372036854775807''"] by blast
  have 11: "Parse ''go1.16'' = Inr \<lparr>Major = 1, Minor = 16, Patch = 0, PreRelease = []\<rparr>"
    by (simp add: Parse_def HasPrefix_def regex_FindStringSubmatch_def patch_group_def isdigit_def
        Atoi_def decimal_def digit_val_def intSize_def)
  have 12: "regex_FindStringSubmatch (drop 2 ''go1.16'') = Some (''1'', ''16'', [], [])"
    by (simp add: regex_FindStringSubmatch_def patch_group_def isdigit_def)
  with 11 have 13: "Patch \<lparr>Major = 1, Minor = 16, Patch = 0, PreRelease = []\<rparr> = 0"
    using Parse_error_iff [of "''go1.16''" _ "\<lparr>Major = 1, Minor = 16, Patch = 0, PreRelease = []\<rparr>"]
    by blast
  show ?thesis
    using 1 2 3 4 5 7 8 9(1) 10 11 12 13 by (intro conjI)
qed

text \<open>
  C7 as the specification words it fails on \<open>go1.16\<close> followed by a line feed: the
  prefix is there, the rest matches the grammar with the line feed as pre-release, both
  numbers convert, and \<open>Parse\<close> returns an error.
\<close>

theorem Parse_line_feed_counterexample:
  "HasPrefix (''go1.16'' @ [CHR 0x0A]) ''go''
   \<and> spec_grammar (drop 2 (''go1.16'' @ [CHR 0x0A]))
   \<and> Atoi ''1'' = Some 1 \<and> Atoi ''16'' = Some 16
   \<and> Parse (''go1.16'' @ [CHR 0x0A])
       = Inl (Errorf (''parse: unable to parse version 1.16'' @ [CHR 0x0A]))"
proof -
  have "numeral ''1''" "numeral ''16''"
    by (simp_all add: numeral_def isdigit_def)
  then have "spec_grammar (drop 2 (''go1.16'' @ [CHR 0x0A]))"
    unfolding spec_grammar_def
    by (intro exI [of _ "''1''"] exI [of _ "''16''"] exI [of _ "[]"] exI [of _ "[CHR 0x0A]"]) simp
  moreover have "Atoi ''1'' = Some 1" "Atoi ''16'' = Some 16"
    by (simp_all add: Atoi_def isdigit_def decimal_def digit_val_def intSize_def)
  moreover have "Parse (''go1.16'' @ [CHR 0x0A])
      = Inl (Errorf (''parse: unable to parse version 1.16'' @ [CHR 0x0A]))"
    by (simp add: Parse_def HasPrefix_def regex_FindStringSubmatch_def patch_group_def isdigit_def)
  ultimately show ?thesis
    by (simp add: HasPrefix_def)
qed

section \<open>Discovery\<close>

lemma gosdklist_loop_candidates:
  "gosdklist_loop w since files list =
     (case candidates w files of
        Inl err \<Rightarrow> Inl err
      | Inr cs \<Rightarrow> Inr (list @ filter (\<lambda>r. \<not> Less (version r) since) cs))"
proof (induction files arbitrary: list)
  case Nil
  show ?case by simp
next
  case (Cons f fs)
  show ?case
  proof (cases "IsDir f \<and> HasPrefix (Name f) ''go''")
    case False
    then show ?thesis
      using Cons.IH by (auto simp: Let_def)
  next
    case True
    show ?thesis
    proof (cases "candidate w f")
      case (Inl err)
      with True show ?thesis
        by (auto simp: candidate_def Let_def split: sum.splits)
    next
      case (Inr r)
      with True show ?thesis
        using Cons.IH
        by (auto simp: candidate_def Let_def split: sum.splits)
    qed
  qed
qed

lemma gosdklist_eq:
  assumes "ReadDir w (gosdk w) = Inr files" "candidates w files = Inr cs"
  shows "gosdklist w since =
     (if filter (\<lambda>r. \<not> Less (version r) since) cs = []
      then Inl (Errorf (''no go releases found in '' @ gosdk w))
      else Inr (sort_Slice w by_version (filter (\<lambda>r. \<not> Less (version r) since) cs)))"
  using assms by (simp add: gosdklist_def gosdklist_loop_candidates)

lemma gosdklist_Inr:
  assumes "gosdklist w since = Inr rs"
  obtains files cs where "ReadDir w (gosdk w) = Inr files" "candidates w files = Inr cs"
    "filter (\<lambda>r. \<not> Less (version r) since) cs \<noteq> []"
    "rs = sort_Slice w by_version (filter (\<lambda>r. \<not> Less (version r) since) cs)"
  using assms
  by (auto simp: gosdklist_def gosdklist_loop_candidates split: sum.splits if_splits)

lemma by_version_asym: "by_version a b \<Longrightarrow> \<not> by_version b a"
  using Less_trans [of "version a" "version b" "version a"] Less_irrefl by (auto simp: by_version_def)

lemma by_version_negtrans:
  assumes "\<not> by_version b a" "\<not> by_version c b"
  shows "\<not> by_version c a"
proof
  assume ca: "by_version c a"
  have "version a = version b \<or> Less (version a) (version b)"
    using assms(1) Less_total [of "version a" "version b"] by (auto simp: by_version_def)
  moreover have "version b = version c \<or> Less (version b) (version c)"
    using assms(2) Less_total [of "version b" "version c"] by (auto simp: by_version_def)
  ultimately have "version a = version c \<or> Less (version a) (version c)"
    using Less_trans by metis
  with ca show False
    using Less_trans [of "version c" "version a" "version c"] Less_irrefl
    by (auto simp: by_version_def)
qed

lemma mset_insert_sorted: "mset (insert_sorted lt x xs) = add_mset x (mset xs)"
  by (induction xs) auto

lemma set_insert_sorted: "set (insert_sorted lt x xs) = insert x (set xs)"
  using mset_insert_sorted [of lt x xs] by (metis set_mset_add_mset_insert set_mset_mset)

lemma sorted_insert_sorted:
  assumes "sorted_wrt (\<lambda>a b. \<not> by_version b a) xs"
  shows "sorted_wrt (\<lambda>a b. \<not> by_version b a) (insert_sorted by_version x xs)"
  using assms
proof (induction xs)
  case Nil
  show ?case by simp
next
  case (Cons y ys)
  show ?case
  proof (cases "by_version y x")
    case True
    with Cons show ?thesis
      by (auto simp: set_insert_sorted dest: by_version_asym)
  next
    case False
    with Cons.prems show ?thesis
      by (auto dest: by_version_negtrans)
  qed
qed

lemma mset_stable_sort: "mset (stable_sort lt xs) = mset xs"
  by (induction xs) (auto simp: stable_sort_def mset_insert_sorted)

lemma sorted_stable_sort: "sorted_wrt (\<lambda>a b. \<not> by_version b a) (stable_sort by_version xs)"
  by (induction xs) (auto simp: stable_sort_def intro: sorted_insert_sorted)

lemma contract_stable_sort: "sort_Slice w = stable_sort \<Longrightarrow> sort_Slice_contract w"
  by (simp add: sort_Slice_contract_def mset_stable_sort sorted_stable_sort)

lemma Parse_nonneg:
  assumes "Parse s = Inr v"
  shows "0 \<le> Major v \<and> 0 \<le> Minor v \<and> 0 \<le> Patch v"
proof -
  from assms obtain m1 m2 m3 m4
    where m: "regex_FindStringSubmatch (drop 2 s) = Some (m1, m2, m3, m4)"
    by (cases "regex_FindStringSubmatch (drop 2 s)")
      (auto simp: Parse_def Let_def split: if_splits)
  from regex_sound [OF m] have n: "numeral m1" "numeral m2" "m3 = [] \<or> numeral m3"
    by auto
  have a: "Atoi g = Some i \<Longrightarrow> numeral g \<Longrightarrow> 0 \<le> i" for g i
    using numeral_digits [of g] by (auto simp: Atoi_unsigned split: if_splits)
  from assms m n show ?thesis
    by (auto simp: Parse_def Let_def split: if_splits option.splits dest: a)
qed

lemma ParseLine_nonneg: "ParseLine line = Inr v \<Longrightarrow> 0 \<le> Major v \<and> 0 \<le> Minor v \<and> 0 \<le> Patch v"
  by (auto simp: ParseLine_def Let_def split: if_splits dest: Parse_nonneg)

lemma candidate_nonneg:
  "candidate w f = Inr r \<Longrightarrow>
     0 \<le> Major (version r) \<and> 0 \<le> Minor (version r) \<and> 0 \<le> Patch (version r)"
  by (auto simp: candidate_def Let_def split: sum.splits dest: ParseLine_nonneg)

lemma candidates_nonneg:
  "candidates w files = Inr cs \<Longrightarrow> r \<in> set cs \<Longrightarrow>
     0 \<le> Major (version r) \<and> 0 \<le> Minor (version r) \<and> 0 \<le> Patch (version r)"
proof (induction files arbitrary: cs)
  case Nil
  then show ?case by simp
next
  case (Cons f fs)
  then show ?case
    by (auto split: if_splits sum.splits dest: candidate_nonneg)
qed

lemma Less_zero_iff:
  assumes "0 \<le> Major v" "0 \<le> Minor v" "0 \<le> Patch v"
  shows "Less v zero_Version = (Major v = 0 \<and> Minor v = 0 \<and> Patch v = 0 \<and> PreRelease v \<noteq> [])"
  using assms by (auto simp: Less_iff zero_Version_def)

lemma sorted_pair:
  assumes "mset xs = {#a, b#}" "sorted_wrt R xs" "\<not> R b a"
  shows "xs = [a, b]"
proof -
  from assms(1) have "length xs = 2"
    using mset_eq_length [of xs "[a, b]"] by simp
  then obtain x y where xs: "xs = [x, y]"
    by (cases xs; cases "tl xs") auto
  with assms(1) have "(x = a \<and> y = b) \<or> (x = b \<and> y = a)"
    by (auto simp: add_eq_conv_ex)
  with assms(2,3) xs show ?thesis
    by auto
qed

lemma contract_mset: "sort_Slice_contract w \<Longrightarrow> mset (sort_Slice w by_version xs) = mset xs"
  by (simp add: sort_Slice_contract_def)

lemma contract_sorted:
  "sort_Slice_contract w \<Longrightarrow>
     sorted_wrt (\<lambda>a b. \<not> Less (version b) (version a)) (sort_Slice w by_version xs)"
  by (simp add: sort_Slice_contract_def by_version_def)

lemma by_version_irrefl: "\<not> by_version a a"
  using Less_irrefl by (simp add: by_version_def)

lemma by_version_trans: "by_version a b \<Longrightarrow> by_version b c \<Longrightarrow> by_version a c"
  using Less_trans by (auto simp: by_version_def)

text \<open>
  A slice of at most 12 elements is sorted by insertion alone. That sort moves an
  element only past elements that are greater, so it sorts, keeps the elements, and
  keeps the elements of one version in their order.
\<close>

lemma Slice_short:
  "length x \<le> 12 \<Longrightarrow> Slice lt x = insertionSort_func lt x 0 (int (length x))"
  unfolding Slice_def Let_def by (subst pdqsort_func.simps) simp

lemma insert_back_Nil: "insert_back lt x [] = [x]"
  by (simp add: insert_back_def)

lemma insert_back_snoc:
  "insert_back lt x (ys @ [y]) = (if lt x y then insert_back lt x ys @ [y] else ys @ [y, x])"
  by (simp add: insert_back_def)

lemma length_insert_back: "length (insert_back lt x ys) = Suc (length ys)"
  by (induction ys rule: rev_induct) (simp_all add: insert_back_Nil insert_back_snoc)

lemma data_Swap_adjacent:
  "data_Swap (pre @ y # x # post) (int (length pre) + 1) (int (length pre)) = pre @ x # y # post"
  by (simp add: data_Swap_def nat_add_distrib nth_append list_update_append)

lemma insertion_loop_insert_back:
  "insertion_loop lt (pre @ x # post) 0 (int (length pre)) = insert_back lt x pre @ post"
proof (induction pre arbitrary: post rule: rev_induct)
  case Nil
  show ?case
    by (subst insertion_loop.simps) (simp add: insert_back_Nil)
next
  case (snoc y pre)
  have l: "data_Less lt ((pre @ [y]) @ x # post) (int (length (pre @ [y])))
      (int (length (pre @ [y])) - 1) = lt x y"
    by (simp add: data_Less_def nth_append nat_add_distrib)
  show ?case
  proof (cases "lt x y")
    case True
    have "insertion_loop lt ((pre @ [y]) @ x # post) 0 (int (length (pre @ [y])))
        = insertion_loop lt (data_Swap (pre @ y # x # post) (int (length pre) + 1) (int (length pre)))
            0 (int (length pre))"
      using True l by (subst insertion_loop.simps) (simp add: add.commute)
    also have "\<dots> = insert_back lt x pre @ y # post"
      unfolding data_Swap_adjacent by (rule snoc.IH)
    finally show ?thesis
      using True by (simp add: insert_back_snoc)
  next
    case False
    then show ?thesis
      using l by (subst insertion_loop.simps) (simp add: insert_back_snoc)
  qed
qed

lemma fold_insertion_loop:
  "fold (\<lambda>i data. insertion_loop lt data 0 i)
       [int (length acc)..int (length acc + length rest) - 1] (acc @ rest)
     = foldl (\<lambda>acc x. insert_back lt x acc) acc rest"
proof (induction rest arbitrary: acc)
  case Nil
  show ?case by simp
next
  case (Cons x rest)
  have r: "[int (length acc)..int (length acc + length (x # rest)) - 1]
      = int (length acc) # [int (length (insert_back lt x acc))
            ..int (length (insert_back lt x acc) + length rest) - 1]"
    by (subst upto_rec1) (simp_all add: length_insert_back add.commute)
  show ?case
    unfolding r using Cons.IH [of "insert_back lt x acc"]
    by (simp add: insertion_loop_insert_back)
qed

lemma insertionSort_func_eq:
  "insertionSort_func lt xs 0 (int (length xs)) = insertion_sort lt xs"
proof (cases xs)
  case Nil
  then show ?thesis
    by (simp add: insertionSort_func_def insertion_sort_def)
next
  case (Cons x rest)
  with fold_insertion_loop [of lt "[x]" rest] show ?thesis
    by (simp add: insertionSort_func_def insertion_sort_def insert_back_Nil)
qed

lemma mset_insert_back: "mset (insert_back lt x ys) = add_mset x (mset ys)"
  by (induction ys rule: rev_induct) (simp_all add: insert_back_Nil insert_back_snoc)

lemma mset_foldl_insert_back:
  "mset (foldl (\<lambda>acc x. insert_back lt x acc) acc xs) = mset acc + mset xs"
  by (induction xs arbitrary: acc) (simp_all add: mset_insert_back)

lemma mset_insertion_sort: "mset (insertion_sort lt xs) = mset xs"
  by (simp add: insertion_sort_def mset_foldl_insert_back)

lemma set_insert_back: "set (insert_back lt x ys) = insert x (set ys)"
  using mset_insert_back [of lt x ys] by (metis set_mset_add_mset_insert set_mset_mset)

lemma sorted_insert_back:
  assumes "sorted_wrt (\<lambda>a b. \<not> by_version b a) ys"
  shows "sorted_wrt (\<lambda>a b. \<not> by_version b a) (insert_back by_version x ys)"
  using assms
proof (induction ys rule: rev_induct)
  case Nil
  show ?case by (simp add: insert_back_Nil)
next
  case (snoc y ys)
  from snoc.prems have s: "sorted_wrt (\<lambda>a b. \<not> by_version b a) ys"
    and le: "\<forall>e \<in> set ys. \<not> by_version y e"
    by (simp_all add: sorted_wrt_append)
  show ?case
  proof (cases "by_version x y")
    case True
    with snoc.IH [OF s] le show ?thesis
      by (auto simp: insert_back_snoc sorted_wrt_append set_insert_back dest: by_version_asym)
  next
    case False
    have "\<forall>e \<in> set ys. \<not> by_version x e"
      using le False by_version_negtrans by blast
    with snoc.prems False show ?thesis
      by (auto simp: insert_back_snoc sorted_wrt_append)
  qed
qed

lemma sorted_foldl_insert_back:
  "sorted_wrt (\<lambda>a b. \<not> by_version b a) acc \<Longrightarrow>
     sorted_wrt (\<lambda>a b. \<not> by_version b a) (foldl (\<lambda>acc x. insert_back by_version x acc) acc xs)"
  by (induction xs arbitrary: acc) (simp_all add: sorted_insert_back)

lemma sorted_insertion_sort:
  "sorted_wrt (\<lambda>a b. \<not> by_version b a) (insertion_sort by_version xs)"
  by (simp add: insertion_sort_def sorted_foldl_insert_back)

lemma filter_insert_back:
  assumes "\<And>b. P x \<Longrightarrow> P b \<Longrightarrow> \<not> lt x b"
  shows "filter P (insert_back lt x ys) = filter P (ys @ [x])"
proof (induction ys rule: rev_induct)
  case Nil
  show ?case by (simp add: insert_back_Nil)
next
  case (snoc y ys)
  then show ?case
    using assms by (auto simp: insert_back_snoc)
qed

lemma filter_foldl_insert_back:
  assumes "\<And>a b. P a \<Longrightarrow> P b \<Longrightarrow> \<not> lt a b"
  shows "filter P (foldl (\<lambda>acc x. insert_back lt x acc) acc xs) = filter P (acc @ xs)"
proof (induction xs arbitrary: acc)
  case Nil
  show ?case by simp
next
  case (Cons x xs)
  have "filter P (insert_back lt x acc) = filter P (acc @ [x])"
    by (rule filter_insert_back) (rule assms)
  with Cons [of "insert_back lt x acc"] show ?case
    by simp
qed

lemma filter_insertion_sort:
  assumes "\<And>a b. P a \<Longrightarrow> P b \<Longrightarrow> \<not> lt a b"
  shows "filter P (insertion_sort lt xs) = filter P xs"
  using filter_foldl_insert_back [of P lt "[]" xs] assms by (simp add: insertion_sort_def)

lemma Slice_insertion_sort: "length x \<le> 12 \<Longrightarrow> Slice lt x = insertion_sort lt x"
  by (simp add: Slice_short insertionSort_func_eq)

lemma Slice_short_stable:
  assumes "length xs \<le> 12"
  shows "sorted_wrt (\<lambda>a b. \<not> Less (version b) (version a)) (Slice by_version xs)
    \<and> mset (Slice by_version xs) = mset xs
    \<and> (\<forall>v. filter (\<lambda>r. version r = v) (Slice by_version xs) = filter (\<lambda>r. version r = v) xs)"
proof -
  have "filter (\<lambda>r. version r = v) (insertion_sort by_version xs) = filter (\<lambda>r. version r = v) xs"
    for v
    by (rule filter_insertion_sort) (simp add: by_version_def Less_irrefl)
  with sorted_insertion_sort [of xs] mset_insertion_sort [of by_version xs] show ?thesis
    unfolding Slice_insertion_sort [OF assms] by (simp add: by_version_def)
qed

text \<open>
  C3, as amended. A successful \<open>gosdklist\<close> returns what \<open>sort.Slice\<close> makes of the
  kept candidates (the candidates of the directory listing whose version is not less
  than \<open>since\<close>) in the order of the listing, with the order of their versions as the
  \<open>less\<close> function. That function is what \<open>sort.Slice\<close> asks for, a strict weak
  order: it is irreflexive and transitive, and not being less is transitive too. So
  when \<open>sort.Slice\<close> keeps its contract the result is sorted ascending by version (no
  release is followed by one of a lesser version) and is a permutation of the kept
  candidates. The order of releases with equal versions is the one \<open>sort.Slice\<close>
  leaves, which need not be that of the listing. With the \<open>sort.Slice\<close> of the
  library and at most 12 kept candidates the result is sorted, a permutation, and the
  releases of one version do keep the order of the listing.
\<close>

theorem gosdklist_sorted:
  assumes "gosdklist w since = Inr rs"
  shows "(\<exists>files cs.
        ReadDir w (gosdk w) = Inr files \<and> candidates w files = Inr cs
        \<and> rs = sort_Slice w by_version (filter (\<lambda>r. \<not> Less (version r) since) cs)
        \<and> (sort_Slice_contract w \<longrightarrow>
              sorted_wrt (\<lambda>a b. \<not> Less (version b) (version a)) rs
              \<and> mset rs = mset (filter (\<lambda>r. \<not> Less (version r) since) cs))
        \<and> (sort_Slice w = Slice \<and> length (filter (\<lambda>r. \<not> Less (version r) since) cs) \<le> 12 \<longrightarrow>
              sorted_wrt (\<lambda>a b. \<not> Less (version b) (version a)) rs
              \<and> mset rs = mset (filter (\<lambda>r. \<not> Less (version r) since) cs)
              \<and> (\<forall>v. filter (\<lambda>r. version r = v) rs
                     = filter (\<lambda>r. version r = v) (filter (\<lambda>r. \<not> Less (version r) since) cs))))
    \<and> \<not> by_version a a
    \<and> (by_version a b \<and> by_version b c \<longrightarrow> by_version a c)
    \<and> (\<not> by_version b a \<and> \<not> by_version c b \<longrightarrow> \<not> by_version c a)"
proof (intro conjI)
  let ?kept = "\<lambda>cs. filter (\<lambda>r. \<not> Less (version r) since) cs"
  from assms obtain files cs where f: "ReadDir w (gosdk w) = Inr files"
    and c: "candidates w files = Inr cs"
    and r: "rs = sort_Slice w by_version (?kept cs)"
    by (rule gosdklist_Inr)
  have 1: "sort_Slice_contract w \<longrightarrow>
      sorted_wrt (\<lambda>a b. \<not> Less (version b) (version a)) rs \<and> mset rs = mset (?kept cs)"
    unfolding r using contract_sorted contract_mset by blast
  have 2: "sort_Slice w = Slice \<and> length (?kept cs) \<le> 12 \<longrightarrow>
      sorted_wrt (\<lambda>a b. \<not> Less (version b) (version a)) rs
      \<and> mset rs = mset (?kept cs)
      \<and> (\<forall>v. filter (\<lambda>r. version r = v) rs = filter (\<lambda>r. version r = v) (?kept cs))"
    unfolding r using Slice_short_stable [of "?kept cs"] by simp
  from f c r 1 2 show "\<exists>files cs.
      ReadDir w (gosdk w) = Inr files \<and> candidates w files = Inr cs
      \<and> rs = sort_Slice w by_version (?kept cs)
      \<and> (sort_Slice_contract w \<longrightarrow>
            sorted_wrt (\<lambda>a b. \<not> Less (version b) (version a)) rs \<and> mset rs = mset (?kept cs))
      \<and> (sort_Slice w = Slice \<and> length (?kept cs) \<le> 12 \<longrightarrow>
            sorted_wrt (\<lambda>a b. \<not> Less (version b) (version a)) rs
            \<and> mset rs = mset (?kept cs)
            \<and> (\<forall>v. filter (\<lambda>r. version r = v) rs = filter (\<lambda>r. version r = v) (?kept cs)))"
    by blast
  show "\<not> by_version a a"
    by (rule by_version_irrefl)
  show "by_version a b \<and> by_version b c \<longrightarrow> by_version a c"
    using by_version_trans by blast
  show "\<not> by_version b a \<and> \<not> by_version c b \<longrightarrow> \<not> by_version c a"
    using by_version_negtrans by blast
qed

lemma three_contract: "sort_Slice_contract three_world"
  by (rule contract_stable_sort) (simp add: three_world_def)

lemma three_gosdklist:
  "gosdklist three_world v1_15
     = Inr [\<lparr>goroot = ''sdk/go1.15'', version = v1_15\<rparr>, \<lparr>goroot = ''sdk/go1.16'', version = v1_16\<rparr>]"
  by code_simp

lemma thirteen_ReadDir:
  "ReadDir thirteen_stable (gosdk thirteen_stable)
     = Inr (map (\<lambda>name. \<lparr>Name = name, IsDir = True\<rparr>)
         [''go1.12'', ''go1.12.bak'', ''go1.13'', ''go1.14'', ''go1.15'', ''go1.16'', ''go1.17'',
          ''go1.18'', ''go1.19'', ''go1.20'', ''go1.21'', ''go1.22'', ''go1.9''])"
  by (simp add: thirteen_stable_def thirteen_world_def)

lemma thirteen_candidates:
  "candidates thirteen_stable
       (map (\<lambda>name. \<lparr>Name = name, IsDir = True\<rparr>)
         [''go1.12'', ''go1.12.bak'', ''go1.13'', ''go1.14'', ''go1.15'', ''go1.16'', ''go1.17'',
          ''go1.18'', ''go1.19'', ''go1.20'', ''go1.21'', ''go1.22'', ''go1.9''])
     = Inr [release_1 ''go1.12'' 12, release_1 ''go1.12.bak'' 12, release_1 ''go1.13'' 13,
            release_1 ''go1.14'' 14, release_1 ''go1.15'' 15, release_1 ''go1.16'' 16,
            release_1 ''go1.17'' 17, release_1 ''go1.18'' 18, release_1 ''go1.19'' 19,
            release_1 ''go1.20'' 20, release_1 ''go1.21'' 21, release_1 ''go1.22'' 22,
            release_1 ''go1.9'' 9]"
  by code_simp

lemma thirteen_gosdklist:
  "gosdklist thirteen_stable zero_Version
     = Inr [release_1 ''go1.9'' 9, release_1 ''go1.12'' 12, release_1 ''go1.12.bak'' 12,
            release_1 ''go1.13'' 13, release_1 ''go1.14'' 14, release_1 ''go1.15'' 15,
            release_1 ''go1.16'' 16, release_1 ''go1.17'' 17, release_1 ''go1.18'' 18,
            release_1 ''go1.19'' 19, release_1 ''go1.20'' 20, release_1 ''go1.21'' 21,
            release_1 ''go1.22'' 22]"
  by code_simp

lemma thirteen_kept:
  "filter (\<lambda>r. \<not> Less (version r) zero_Version)
       [release_1 ''go1.12'' 12, release_1 ''go1.12.bak'' 12, release_1 ''go1.13'' 13,
        release_1 ''go1.14'' 14, release_1 ''go1.15'' 15, release_1 ''go1.16'' 16,
        release_1 ''go1.17'' 17, release_1 ''go1.18'' 18, release_1 ''go1.19'' 19,
        release_1 ''go1.20'' 20, release_1 ''go1.21'' 21, release_1 ''go1.22'' 22,
        release_1 ''go1.9'' 9]
     = [release_1 ''go1.12'' 12, release_1 ''go1.12.bak'' 12, release_1 ''go1.13'' 13,
        release_1 ''go1.14'' 14, release_1 ''go1.15'' 15, release_1 ''go1.16'' 16,
        release_1 ''go1.17'' 17, release_1 ''go1.18'' 18, release_1 ''go1.19'' 19,
        release_1 ''go1.20'' 20, release_1 ''go1.21'' 21, release_1 ''go1.22'' 22,
        release_1 ''go1.9'' 9]"
  by code_simp

lemma seven_ReadDir:
  "ReadDir seven_world (gosdk seven_world)
     = Inr (map (\<lambda>name. \<lparr>Name = name, IsDir = True\<rparr>)
         [''go1.12'', ''go1.12.bak'', ''go1.13'', ''go1.14'', ''go1.15'', ''go1.16'', ''go1.4''])"
  by (simp add: seven_world_def)

lemma seven_candidates:
  "candidates seven_world
       (map (\<lambda>name. \<lparr>Name = name, IsDir = True\<rparr>)
         [''go1.12'', ''go1.12.bak'', ''go1.13'', ''go1.14'', ''go1.15'', ''go1.16'', ''go1.4''])
     = Inr [release_1 ''go1.12'' 12, release_1 ''go1.12.bak'' 12, release_1 ''go1.13'' 13,
            release_1 ''go1.14'' 14, release_1 ''go1.15'' 15, release_1 ''go1.16'' 16,
            release_1 ''go1.4'' 4]"
  by code_simp

lemma seven_gosdklist:
  "gosdklist seven_world zero_Version
     = Inr [release_1 ''go1.4'' 4, release_1 ''go1.12'' 12, release_1 ''go1.12.bak'' 12,
            release_1 ''go1.13'' 13, release_1 ''go1.14'' 14, release_1 ''go1.15'' 15,
            release_1 ''go1.16'' 16]"
  by code_simp

lemma seven_kept:
  "filter (\<lambda>r. \<not> Less (version r) zero_Version)
       [release_1 ''go1.12'' 12, release_1 ''go1.12.bak'' 12, release_1 ''go1.13'' 13,
        release_1 ''go1.14'' 14, release_1 ''go1.15'' 15, release_1 ''go1.16'' 16,
        release_1 ''go1.4'' 4]
     = [release_1 ''go1.12'' 12, release_1 ''go1.12.bak'' 12, release_1 ''go1.13'' 13,
        release_1 ''go1.14'' 14, release_1 ''go1.15'' 15, release_1 ''go1.16'' 16,
        release_1 ''go1.4'' 4]"
  by code_simp

lemma seven_ties:
  "filter (\<lambda>r. version r = version (release_1 ''go1.12'' 12))
       [release_1 ''go1.12'' 12, release_1 ''go1.12.bak'' 12, release_1 ''go1.13'' 13,
        release_1 ''go1.14'' 14, release_1 ''go1.15'' 15, release_1 ''go1.16'' 16,
        release_1 ''go1.4'' 4]
     = [release_1 ''go1.12'' 12, release_1 ''go1.12.bak'' 12]"
  by code_simp

text \<open>
  The theorem at two directories whose listing is not ascending: the seven releases
  with the \<open>sort.Slice\<close> of the library, and the thirteen releases with a stable sort,
  which keeps the contract.
\<close>

theorem gosdklist_sorted_witness:
  "sort_Slice seven_world = Slice
   \<and> candidates seven_world
       (map (\<lambda>name. \<lparr>Name = name, IsDir = True\<rparr>)
         [''go1.12'', ''go1.12.bak'', ''go1.13'', ''go1.14'', ''go1.15'', ''go1.16'', ''go1.4''])
     = Inr [release_1 ''go1.12'' 12, release_1 ''go1.12.bak'' 12, release_1 ''go1.13'' 13,
            release_1 ''go1.14'' 14, release_1 ''go1.15'' 15, release_1 ''go1.16'' 16,
            release_1 ''go1.4'' 4]
   \<and> gosdklist seven_world zero_Version
     = Inr [release_1 ''go1.4'' 4, release_1 ''go1.12'' 12, release_1 ''go1.12.bak'' 12,
            release_1 ''go1.13'' 13, release_1 ''go1.14'' 14, release_1 ''go1.15'' 15,
            release_1 ''go1.16'' 16]
   \<and> sorted_wrt (\<lambda>a b. \<not> Less (version b) (version a))
       [release_1 ''go1.4'' 4, release_1 ''go1.12'' 12, release_1 ''go1.12.bak'' 12,
        release_1 ''go1.13'' 13, release_1 ''go1.14'' 14, release_1 ''go1.15'' 15,
        release_1 ''go1.16'' 16]
   \<and> filter (\<lambda>r. version r = version (release_1 ''go1.12'' 12))
       [release_1 ''go1.4'' 4, release_1 ''go1.12'' 12, release_1 ''go1.12.bak'' 12,
        release_1 ''go1.13'' 13, release_1 ''go1.14'' 14, release_1 ''go1.15'' 15,
        release_1 ''go1.16'' 16]
     = [release_1 ''go1.12'' 12, release_1 ''go1.12.bak'' 12]
   \<and> sort_Slice_contract thirteen_stable
   \<and> candidates thirteen_stable
       (map (\<lambda>name. \<lparr>Name = name, IsDir = True\<rparr>)
         [''go1.12'', ''go1.12.bak'', ''go1.13'', ''go1.14'', ''go1.15'', ''go1.16'', ''go1.17'',
          ''go1.18'', ''go1.19'', ''go1.20'', ''go1.21'', ''go1.22'', ''go1.9''])
     = Inr [release_1 ''go1.12'' 12, release_1 ''go1.12.bak'' 12, release_1 ''go1.13'' 13,
            release_1 ''go1.14'' 14, release_1 ''go1.15'' 15, release_1 ''go1.16'' 16,
            release_1 ''go1.17'' 17, release_1 ''go1.18'' 18, release_1 ''go1.19'' 19,
            release_1 ''go1.20'' 20, release_1 ''go1.21'' 21, release_1 ''go1.22'' 22,
            release_1 ''go1.9'' 9]
   \<and> gosdklist thirteen_stable zero_Version
     = Inr [release_1 ''go1.9'' 9, release_1 ''go1.12'' 12, release_1 ''go1.12.bak'' 12,
            release_1 ''go1.13'' 13, release_1 ''go1.14'' 14, release_1 ''go1.15'' 15,
            release_1 ''go1.16'' 16, release_1 ''go1.17'' 17, release_1 ''go1.18'' 18,
            release_1 ''go1.19'' 19, release_1 ''go1.20'' 20, release_1 ''go1.21'' 21,
            release_1 ''go1.22'' 22]
   \<and> sorted_wrt (\<lambda>a b. \<not> Less (version b) (version a))
       [release_1 ''go1.9'' 9, release_1 ''go1.12'' 12, release_1 ''go1.12.bak'' 12,
        release_1 ''go1.13'' 13, release_1 ''go1.14'' 14, release_1 ''go1.15'' 15,
        release_1 ''go1.16'' 16, release_1 ''go1.17'' 17, release_1 ''go1.18'' 18,
        release_1 ''go1.19'' 19, release_1 ''go1.20'' 20, release_1 ''go1.21'' 21,
        release_1 ''go1.22'' 22]
   \<and> mset [release_1 ''go1.9'' 9, release_1 ''go1.12'' 12, release_1 ''go1.12.bak'' 12,
        release_1 ''go1.13'' 13, release_1 ''go1.14'' 14, release_1 ''go1.15'' 15,
        release_1 ''go1.16'' 16, release_1 ''go1.17'' 17, release_1 ''go1.18'' 18,
        release_1 ''go1.19'' 19, release_1 ''go1.20'' 20, release_1 ''go1.21'' 21,
        release_1 ''go1.22'' 22]
     = mset [release_1 ''go1.12'' 12, release_1 ''go1.12.bak'' 12, release_1 ''go1.13'' 13,
        release_1 ''go1.14'' 14, release_1 ''go1.15'' 15, release_1 ''go1.16'' 16,
        release_1 ''go1.17'' 17, release_1 ''go1.18'' 18, release_1 ''go1.19'' 19,
        release_1 ''go1.20'' 20, release_1 ''go1.21'' 21, release_1 ''go1.22'' 22,
        release_1 ''go1.9'' 9]
   \<and> by_version (release_1 ''go1.9'' 9) (release_1 ''go1.12'' 12)
   \<and> by_version (release_1 ''go1.12'' 12) (release_1 ''go1.13'' 13)
   \<and> by_version (release_1 ''go1.9'' 9) (release_1 ''go1.13'' 13)
   \<and> \<not> by_version (release_1 ''go1.12'' 12) (release_1 ''go1.9'' 9)
   \<and> \<not> by_version (release_1 ''go1.13'' 13) (release_1 ''go1.12'' 12)
   \<and> \<not> by_version (release_1 ''go1.13'' 13) (release_1 ''go1.9'' 9)"
proof -
  let ?listing7 = "[release_1 ''go1.12'' 12, release_1 ''go1.12.bak'' 12, release_1 ''go1.13'' 13,
        release_1 ''go1.14'' 14, release_1 ''go1.15'' 15, release_1 ''go1.16'' 16,
        release_1 ''go1.4'' 4]"
  let ?sorted7 = "[release_1 ''go1.4'' 4, release_1 ''go1.12'' 12, release_1 ''go1.12.bak'' 12,
        release_1 ''go1.13'' 13, release_1 ''go1.14'' 14, release_1 ''go1.15'' 15,
        release_1 ''go1.16'' 16]"
  let ?listing = "[release_1 ''go1.12'' 12, release_1 ''go1.12.bak'' 12, release_1 ''go1.13'' 13,
        release_1 ''go1.14'' 14, release_1 ''go1.15'' 15, release_1 ''go1.16'' 16,
        release_1 ''go1.17'' 17, release_1 ''go1.18'' 18, release_1 ''go1.19'' 19,
        release_1 ''go1.20'' 20, release_1 ''go1.21'' 21, release_1 ''go1.22'' 22,
        release_1 ''go1.9'' 9]"
  let ?sorted = "[release_1 ''go1.9'' 9, release_1 ''go1.12'' 12, release_1 ''go1.12.bak'' 12,
        release_1 ''go1.13'' 13, release_1 ''go1.14'' 14, release_1 ''go1.15'' 15,
        release_1 ''go1.16'' 16, release_1 ''go1.17'' 17, release_1 ''go1.18'' 18,
        release_1 ''go1.19'' 19, release_1 ''go1.20'' 20, release_1 ''go1.21'' 21,
        release_1 ''go1.22'' 22]"
  have l7: "sort_Slice seven_world = Slice"
    by (simp add: seven_world_def)
  from gosdklist_sorted [OF seven_gosdklist]
  obtain files7 cs7 where f7: "ReadDir seven_world (gosdk seven_world) = Inr files7"
    and c7: "candidates seven_world files7 = Inr cs7"
    and s7: "sort_Slice seven_world = Slice
        \<and> length (filter (\<lambda>r. \<not> Less (version r) zero_Version) cs7) \<le> 12 \<longrightarrow>
      sorted_wrt (\<lambda>a b. \<not> Less (version b) (version a)) ?sorted7
      \<and> mset ?sorted7 = mset (filter (\<lambda>r. \<not> Less (version r) zero_Version) cs7)
      \<and> (\<forall>v. filter (\<lambda>r. version r = v) ?sorted7
             = filter (\<lambda>r. version r = v) (filter (\<lambda>r. \<not> Less (version r) zero_Version) cs7))"
    by blast
  from f7 c7 have e7: "cs7 = ?listing7"
    unfolding seven_ReadDir using seven_candidates by simp
  have "length (filter (\<lambda>r. \<not> Less (version r) zero_Version) cs7) \<le> 12"
    by (simp only: e7 seven_kept) simp
  with s7 l7 have o7: "sorted_wrt (\<lambda>a b. \<not> Less (version b) (version a)) ?sorted7"
    and t7: "\<forall>v. filter (\<lambda>r. version r = v) ?sorted7
      = filter (\<lambda>r. version r = v) (filter (\<lambda>r. \<not> Less (version r) zero_Version) cs7)"
    by blast+
  from t7 have "filter (\<lambda>r. version r = version (release_1 ''go1.12'' 12)) ?sorted7
      = filter (\<lambda>r. version r = version (release_1 ''go1.12'' 12))
          (filter (\<lambda>r. \<not> Less (version r) zero_Version) cs7)"
    by (rule spec)
  then have q7: "filter (\<lambda>r. version r = version (release_1 ''go1.12'' 12)) ?sorted7
      = [release_1 ''go1.12'' 12, release_1 ''go1.12.bak'' 12]"
    by (simp only: e7 seven_kept seven_ties)
  have k: "sort_Slice_contract thirteen_stable"
    by (rule contract_stable_sort) (simp add: thirteen_stable_def)
  note T = gosdklist_sorted [OF thirteen_gosdklist, where a = "release_1 ''go1.9'' 9"
      and b = "release_1 ''go1.12'' 12" and c = "release_1 ''go1.13'' 13"]
  have h: "by_version (release_1 ''go1.9'' 9) (release_1 ''go1.12'' 12)"
    "by_version (release_1 ''go1.12'' 12) (release_1 ''go1.13'' 13)"
    "\<not> by_version (release_1 ''go1.12'' 12) (release_1 ''go1.9'' 9)"
    "\<not> by_version (release_1 ''go1.13'' 13) (release_1 ''go1.12'' 12)"
    by code_simp+
  from T h have t: "by_version (release_1 ''go1.9'' 9) (release_1 ''go1.13'' 13)"
    and n: "\<not> by_version (release_1 ''go1.13'' 13) (release_1 ''go1.9'' 9)"
    by blast+
  from T
  obtain files cs where f: "ReadDir thirteen_stable (gosdk thirteen_stable) = Inr files"
    and c: "candidates thirteen_stable files = Inr cs"
    and s: "sort_Slice_contract thirteen_stable \<longrightarrow>
      sorted_wrt (\<lambda>a b. \<not> Less (version b) (version a)) ?sorted
      \<and> mset ?sorted = mset (filter (\<lambda>r. \<not> Less (version r) zero_Version) cs)"
    by blast
  from f c have e: "cs = ?listing"
    unfolding thirteen_ReadDir using thirteen_candidates by simp
  from s k have o: "sorted_wrt (\<lambda>a b. \<not> Less (version b) (version a)) ?sorted"
    and m: "mset ?sorted = mset (filter (\<lambda>r. \<not> Less (version r) zero_Version) cs)"
    by blast+
  from m have m': "mset ?sorted = mset ?listing"
    by (simp only: e thirteen_kept)
  show ?thesis
    using l7 seven_candidates seven_gosdklist o7 q7 k thirteen_candidates thirteen_gosdklist o m'
      h(1,2) t h(3,4) n
    by (intro conjI)
qed

text \<open>
  C3 as the specification words it fails with the \<open>sort.Slice\<close> of the library: the
  directory listing has go1.12 before go1.12.bak, both report go1.12, and the result has
  go1.12.bak before go1.12. The slice has more than 12 elements, so it is partitioned:
  the pivot go1.17 changes places with the first element, go1.12, which then stands
  behind go1.12.bak, and the insertion sort of that part keeps the two in this order.
\<close>

theorem gosdklist_ties_counterexample:
  "ReadDir thirteen_world (gosdk thirteen_world)
     = Inr (map (\<lambda>name. \<lparr>Name = name, IsDir = True\<rparr>)
         [''go1.12'', ''go1.12.bak'', ''go1.13'', ''go1.14'', ''go1.15'', ''go1.16'', ''go1.17'',
          ''go1.18'', ''go1.19'', ''go1.20'', ''go1.21'', ''go1.22'', ''go1.9''])
   \<and> candidates thirteen_world
       (map (\<lambda>name. \<lparr>Name = name, IsDir = True\<rparr>)
         [''go1.12'', ''go1.12.bak'', ''go1.13'', ''go1.14'', ''go1.15'', ''go1.16'', ''go1.17'',
          ''go1.18'', ''go1.19'', ''go1.20'', ''go1.21'', ''go1.22'', ''go1.9''])
     = Inr [release_1 ''go1.12'' 12, release_1 ''go1.12.bak'' 12, release_1 ''go1.13'' 13,
            release_1 ''go1.14'' 14, release_1 ''go1.15'' 15, release_1 ''go1.16'' 16,
            release_1 ''go1.17'' 17, release_1 ''go1.18'' 18, release_1 ''go1.19'' 19,
            release_1 ''go1.20'' 20, release_1 ''go1.21'' 21, release_1 ''go1.22'' 22,
            release_1 ''go1.9'' 9]
   \<and> version (release_1 ''go1.12'' 12) = version (release_1 ''go1.12.bak'' 12)
   \<and> gosdklist thirteen_world zero_Version
     = Inr [release_1 ''go1.9'' 9, release_1 ''go1.12.bak'' 12, release_1 ''go1.12'' 12,
            release_1 ''go1.13'' 13, release_1 ''go1.14'' 14, release_1 ''go1.15'' 15,
            release_1 ''go1.16'' 16, release_1 ''go1.17'' 17, release_1 ''go1.18'' 18,
            release_1 ''go1.19'' 19, release_1 ''go1.20'' 20, release_1 ''go1.21'' 21,
            release_1 ''go1.22'' 22]"
proof -
  have "ReadDir thirteen_world (gosdk thirteen_world)
      = Inr (map (\<lambda>name. \<lparr>Name = name, IsDir = True\<rparr>)
          [''go1.12'', ''go1.12.bak'', ''go1.13'', ''go1.14'', ''go1.15'', ''go1.16'', ''go1.17'',
           ''go1.18'', ''go1.19'', ''go1.20'', ''go1.21'', ''go1.22'', ''go1.9''])"
    by (simp add: thirteen_world_def)
  moreover have "candidates thirteen_world
        (map (\<lambda>name. \<lparr>Name = name, IsDir = True\<rparr>)
          [''go1.12'', ''go1.12.bak'', ''go1.13'', ''go1.14'', ''go1.15'', ''go1.16'', ''go1.17'',
           ''go1.18'', ''go1.19'', ''go1.20'', ''go1.21'', ''go1.22'', ''go1.9''])
      = Inr [release_1 ''go1.12'' 12, release_1 ''go1.12.bak'' 12, release_1 ''go1.13'' 13,
             release_1 ''go1.14'' 14, release_1 ''go1.15'' 15, release_1 ''go1.16'' 16,
             release_1 ''go1.17'' 17, release_1 ''go1.18'' 18, release_1 ''go1.19'' 19,
             release_1 ''go1.20'' 20, release_1 ''go1.21'' 21, release_1 ''go1.22'' 22,
             release_1 ''go1.9'' 9]"
    by code_simp
  moreover have "version (release_1 ''go1.12'' 12) = version (release_1 ''go1.12.bak'' 12)"
    by (simp add: release_1_def)
  moreover have "gosdklist thirteen_world zero_Version
      = Inr [release_1 ''go1.9'' 9, release_1 ''go1.12.bak'' 12, release_1 ''go1.12'' 12,
             release_1 ''go1.13'' 13, release_1 ''go1.14'' 14, release_1 ''go1.15'' 15,
             release_1 ''go1.16'' 16, release_1 ''go1.17'' 17, release_1 ''go1.18'' 18,
             release_1 ''go1.19'' 19, release_1 ''go1.20'' 20, release_1 ''go1.21'' 21,
             release_1 ''go1.22'' 22]"
    by code_simp
  ultimately show ?thesis
    by (intro conjI)
qed

lemma mset_map_filter:
  "mset (map f (filter (\<lambda>r. P (f r)) xs)) = filter_mset P (mset (map f xs))"
  by (induction xs) auto

text \<open>
  C4, as amended. When the directory can be listed and every candidate reports a version
  that parses, a successful \<open>gosdklist\<close> returns exactly the candidates whose version
  is not less than \<open>since\<close>. With the zero version for \<open>since\<close> every candidate is
  kept but those of version 0.0.0 with a pre-release suffix, which compare less than the
  zero version. For candidates of the versions 1.14, 1.15 and 1.16 and \<open>since\<close> = 1.15,
  \<open>gosdklist\<close> succeeds with the versions 1.15, 1.16 in this order.
\<close>

theorem gosdklist_since:
  assumes "sort_Slice_contract w" "ReadDir w (gosdk w) = Inr files" "candidates w files = Inr cs"
  shows "(gosdklist w since = Inr rs \<longrightarrow>
            set rs = {r \<in> set cs. \<not> Less (version r) since}
            \<and> mset rs = mset (filter (\<lambda>r. \<not> Less (version r) since) cs))
    \<and> (gosdklist w zero_Version = Inr rs \<longrightarrow>
          mset rs = mset (filter (\<lambda>r. \<not> (Major (version r) = 0 \<and> Minor (version r) = 0 \<and>
                                          Patch (version r) = 0 \<and> PreRelease (version r) \<noteq> [])) cs))
    \<and> (mset (map version cs) = {#v1_14, v1_15, v1_16#} \<longrightarrow>
          (\<exists>rs'. gosdklist w v1_15 = Inr rs' \<and> map version rs' = [v1_15, v1_16]))"
proof (intro conjI impI)
  assume ok: "gosdklist w since = Inr rs"
  with assms have "rs = sort_Slice w by_version (filter (\<lambda>r. \<not> Less (version r) since) cs)"
    by (auto simp: gosdklist_eq split: if_splits)
  then show m: "mset rs = mset (filter (\<lambda>r. \<not> Less (version r) since) cs)"
    using contract_mset [OF assms(1)] by simp
  show "set rs = {r \<in> set cs. \<not> Less (version r) since}"
    using mset_eq_setD [OF m] by simp
next
  assume ok: "gosdklist w zero_Version = Inr rs"
  with assms have "rs = sort_Slice w by_version (filter (\<lambda>r. \<not> Less (version r) zero_Version) cs)"
    by (auto simp: gosdklist_eq split: if_splits)
  then have "mset rs = mset (filter (\<lambda>r. \<not> Less (version r) zero_Version) cs)"
    using contract_mset [OF assms(1)] by simp
  moreover have "filter (\<lambda>r. \<not> Less (version r) zero_Version) cs
      = filter (\<lambda>r. \<not> (Major (version r) = 0 \<and> Minor (version r) = 0 \<and>
                        Patch (version r) = 0 \<and> PreRelease (version r) \<noteq> [])) cs"
    using candidates_nonneg [OF assms(3)] by (intro filter_cong) (auto simp: Less_zero_iff)
  ultimately show "mset rs = mset (filter (\<lambda>r. \<not> (Major (version r) = 0 \<and> Minor (version r) = 0 \<and>
      Patch (version r) = 0 \<and> PreRelease (version r) \<noteq> [])) cs)"
    by simp
next
  assume vs: "mset (map version cs) = {#v1_14, v1_15, v1_16#}"
  define kept where "kept = filter (\<lambda>r. \<not> Less (version r) v1_15) cs"
  have "mset (map version kept) = filter_mset (\<lambda>v. \<not> Less v v1_15) (mset (map version cs))"
    unfolding kept_def by (rule mset_map_filter)
  also have "\<dots> = {#v1_15, v1_16#}"
    by (subst vs) (simp add: Less_iff v1_14_def v1_15_def v1_16_def)
  finally have k: "mset (map version kept) = {#v1_15, v1_16#}" .
  then have "kept \<noteq> []"
    by auto
  then have g: "gosdklist w v1_15 = Inr (sort_Slice w by_version kept)"
    using assms by (simp add: gosdklist_eq kept_def)
  have "mset (map version (sort_Slice w by_version kept)) = {#v1_15, v1_16#}"
    using contract_mset [OF assms(1), of kept] k by (metis mset_map)
  moreover have "sorted_wrt (\<lambda>x y. \<not> Less y x) (map version (sort_Slice w by_version kept))"
    using contract_sorted [OF assms(1), of kept] by (simp add: sorted_wrt_map)
  moreover have "\<not> \<not> Less v1_15 v1_16"
    by (simp add: Less_iff v1_15_def v1_16_def)
  ultimately have "map version (sort_Slice w by_version kept) = [v1_15, v1_16]"
    by (rule sorted_pair)
  with g have "gosdklist w v1_15 = Inr (sort_Slice w by_version kept) \<and>
      map version (sort_Slice w by_version kept) = [v1_15, v1_16]"
    by simp
  then show "\<exists>rs'. gosdklist w v1_15 = Inr rs' \<and> map version rs' = [v1_15, v1_16]"
    by (rule exI)
qed

lemma three_ReadDir:
  "ReadDir three_world (gosdk three_world)
     = Inr [\<lparr>Name = ''README'', IsDir = False\<rparr>, \<lparr>Name = ''go1.14'', IsDir = True\<rparr>,
            \<lparr>Name = ''go1.15'', IsDir = True\<rparr>, \<lparr>Name = ''go1.16'', IsDir = True\<rparr>,
            \<lparr>Name = ''tmp'', IsDir = True\<rparr>]"
  by (simp add: three_world_def)

lemma three_candidates:
  "candidates three_world
     [\<lparr>Name = ''README'', IsDir = False\<rparr>, \<lparr>Name = ''go1.14'', IsDir = True\<rparr>,
      \<lparr>Name = ''go1.15'', IsDir = True\<rparr>, \<lparr>Name = ''go1.16'', IsDir = True\<rparr>,
      \<lparr>Name = ''tmp'', IsDir = True\<rparr>]
     = Inr [\<lparr>goroot = ''sdk/go1.14'', version = v1_14\<rparr>, \<lparr>goroot = ''sdk/go1.15'', version = v1_15\<rparr>,
            \<lparr>goroot = ''sdk/go1.16'', version = v1_16\<rparr>]"
  by code_simp

theorem gosdklist_since_witness:
  "gosdklist three_world v1_15
     = Inr [\<lparr>goroot = ''sdk/go1.15'', version = v1_15\<rparr>, \<lparr>goroot = ''sdk/go1.16'', version = v1_16\<rparr>]
   \<and> mset [\<lparr>goroot = ''sdk/go1.15'', version = v1_15\<rparr>, \<lparr>goroot = ''sdk/go1.16'', version = v1_16\<rparr>]
       = mset (filter (\<lambda>r. \<not> Less (version r) v1_15)
           [\<lparr>goroot = ''sdk/go1.14'', version = v1_14\<rparr>, \<lparr>goroot = ''sdk/go1.15'', version = v1_15\<rparr>,
            \<lparr>goroot = ''sdk/go1.16'', version = v1_16\<rparr>])
   \<and> gosdklist three_world zero_Version
       = Inr [\<lparr>goroot = ''sdk/go1.14'', version = v1_14\<rparr>, \<lparr>goroot = ''sdk/go1.15'', version = v1_15\<rparr>,
              \<lparr>goroot = ''sdk/go1.16'', version = v1_16\<rparr>]
   \<and> mset [\<lparr>goroot = ''sdk/go1.14'', version = v1_14\<rparr>, \<lparr>goroot = ''sdk/go1.15'', version = v1_15\<rparr>,
            \<lparr>goroot = ''sdk/go1.16'', version = v1_16\<rparr>]
       = mset (filter (\<lambda>r. \<not> (Major (version r) = 0 \<and> Minor (version r) = 0 \<and>
                                   Patch (version r) = 0 \<and> PreRelease (version r) \<noteq> []))
           [\<lparr>goroot = ''sdk/go1.14'', version = v1_14\<rparr>, \<lparr>goroot = ''sdk/go1.15'', version = v1_15\<rparr>,
            \<lparr>goroot = ''sdk/go1.16'', version = v1_16\<rparr>])
   \<and> mset (map version
         [\<lparr>goroot = ''sdk/go1.14'', version = v1_14\<rparr>, \<lparr>goroot = ''sdk/go1.15'', version = v1_15\<rparr>,
          \<lparr>goroot = ''sdk/go1.16'', version = v1_16\<rparr>]) = {#v1_14, v1_15, v1_16#}
   \<and> (\<exists>rs'. gosdklist three_world v1_15 = Inr rs' \<and> map version rs' = [v1_15, v1_16])"
proof -
  let ?all = "[\<lparr>goroot = ''sdk/go1.14'', version = v1_14\<rparr>, \<lparr>goroot = ''sdk/go1.15'', version = v1_15\<rparr>,
      \<lparr>goroot = ''sdk/go1.16'', version = v1_16\<rparr>]"
  let ?kept = "[\<lparr>goroot = ''sdk/go1.15'', version = v1_15\<rparr>, \<lparr>goroot = ''sdk/go1.16'', version = v1_16\<rparr>]"
  note T = gosdklist_since [OF three_contract three_ReadDir three_candidates]
  have z: "gosdklist three_world zero_Version = Inr ?all"
    by code_simp
  have m: "mset (map version ?all) = {#v1_14, v1_15, v1_16#}"
    by simp
  from T [of v1_15 ?kept] three_gosdklist
  have 1: "mset ?kept = mset (filter (\<lambda>r. \<not> Less (version r) v1_15) ?all)"
    by blast
  from T [of v1_15 ?all] z
  have 2: "mset ?all = mset (filter (\<lambda>r. \<not> (Major (version r) = 0 \<and> Minor (version r) = 0 \<and>
      Patch (version r) = 0 \<and> PreRelease (version r) \<noteq> [])) ?all)"
    by blast
  from T [of v1_15 ?kept] m
  have 3: "\<exists>rs'. gosdklist three_world v1_15 = Inr rs' \<and> map version rs' = [v1_15, v1_16]"
    by blast
  show ?thesis
    using three_gosdklist 1 z 2 m 3 by (intro conjI)
qed

text \<open>
  C4 as the specification words it fails for the zero version: a candidate that reports
  go0.0beta1 is less than the zero version and is filtered out.
\<close>

theorem gosdklist_zero_since_counterexample:
  "ReadDir zero_world (gosdk zero_world)
     = Inr [\<lparr>Name = ''go0.0beta1'', IsDir = True\<rparr>, \<lparr>Name = ''go1.16'', IsDir = True\<rparr>]
   \<and> candidates zero_world [\<lparr>Name = ''go0.0beta1'', IsDir = True\<rparr>, \<lparr>Name = ''go1.16'', IsDir = True\<rparr>]
       = Inr [\<lparr>goroot = ''sdk/go0.0beta1'',
               version = \<lparr>Major = 0, Minor = 0, Patch = 0, PreRelease = ''beta1''\<rparr>\<rparr>,
              \<lparr>goroot = ''sdk/go1.16'', version = v1_16\<rparr>]
   \<and> gosdklist zero_world zero_Version = Inr [\<lparr>goroot = ''sdk/go1.16'', version = v1_16\<rparr>]"
proof -
  have "ReadDir zero_world (gosdk zero_world)
      = Inr [\<lparr>Name = ''go0.0beta1'', IsDir = True\<rparr>, \<lparr>Name = ''go1.16'', IsDir = True\<rparr>]"
    by (simp add: zero_world_def)
  moreover have "candidates zero_world
      [\<lparr>Name = ''go0.0beta1'', IsDir = True\<rparr>, \<lparr>Name = ''go1.16'', IsDir = True\<rparr>]
      = Inr [\<lparr>goroot = ''sdk/go0.0beta1'',
              version = \<lparr>Major = 0, Minor = 0, Patch = 0, PreRelease = ''beta1''\<rparr>\<rparr>,
             \<lparr>goroot = ''sdk/go1.16'', version = v1_16\<rparr>]"
    by code_simp
  moreover have "gosdklist zero_world zero_Version
      = Inr [\<lparr>goroot = ''sdk/go1.16'', version = v1_16\<rparr>]"
    by code_simp
  ultimately show ?thesis
    by (intro conjI)
qed

text \<open>
  C5. When \<open>sort.Slice\<close> keeps its contract, \<open>gosdklist\<close> never succeeds with an empty
  list; when no candidate is left after the filter, it fails with the error
  \<open>no go releases found in <gosdk>\<close>.
\<close>

theorem gosdklist_never_empty:
  assumes "sort_Slice_contract w"
  shows "gosdklist w since \<noteq> Inr []
    \<and> (ReadDir w (gosdk w) = Inr files \<and> candidates w files = Inr cs \<and>
         filter (\<lambda>r. \<not> Less (version r) since) cs = [] \<longrightarrow>
         gosdklist w since = Inl (Errorf (''no go releases found in '' @ gosdk w)))"
proof (intro conjI impI)
  show "gosdklist w since \<noteq> Inr []"
  proof
    assume "gosdklist w since = Inr []"
    then obtain cs where "filter (\<lambda>r. \<not> Less (version r) since) cs \<noteq> []"
      "[] = sort_Slice w by_version (filter (\<lambda>r. \<not> Less (version r) since) cs)"
      by (rule gosdklist_Inr)
    then show False
      using contract_mset [OF assms, of "filter (\<lambda>r. \<not> Less (version r) since) cs"] by simp
  qed
next
  assume "ReadDir w (gosdk w) = Inr files \<and> candidates w files = Inr cs \<and>
    filter (\<lambda>r. \<not> Less (version r) since) cs = []"
  then show "gosdklist w since = Inl (Errorf (''no go releases found in '' @ gosdk w))"
    by (simp add: gosdklist_eq)
qed

theorem gosdklist_never_empty_witness:
  "sort_Slice_contract three_world
   \<and> filter (\<lambda>r. \<not> Less (version r) \<lparr>Major = 1, Minor = 17, Patch = 0, PreRelease = []\<rparr>)
       [\<lparr>goroot = ''sdk/go1.14'', version = v1_14\<rparr>, \<lparr>goroot = ''sdk/go1.15'', version = v1_15\<rparr>,
        \<lparr>goroot = ''sdk/go1.16'', version = v1_16\<rparr>] = []
   \<and> gosdklist three_world \<lparr>Major = 1, Minor = 17, Patch = 0, PreRelease = []\<rparr>
       = Inl (Errorf ''no go releases found in sdk'')
   \<and> gosdklist three_world \<lparr>Major = 1, Minor = 17, Patch = 0, PreRelease = []\<rparr> \<noteq> Inr []"
proof -
  have f: "filter (\<lambda>r. \<not> Less (version r) \<lparr>Major = 1, Minor = 17, Patch = 0, PreRelease = []\<rparr>)
      [\<lparr>goroot = ''sdk/go1.14'', version = v1_14\<rparr>, \<lparr>goroot = ''sdk/go1.15'', version = v1_15\<rparr>,
       \<lparr>goroot = ''sdk/go1.16'', version = v1_16\<rparr>] = []"
    by (simp add: Less_iff v1_14_def v1_15_def v1_16_def)
  have g: "gosdk three_world = ''sdk''"
    by (simp add: three_world_def)
  note T = gosdklist_never_empty [OF three_contract,
      of "\<lparr>Major = 1, Minor = 17, Patch = 0, PreRelease = []\<rparr>"
        "[\<lparr>Name = ''README'', IsDir = False\<rparr>, \<lparr>Name = ''go1.14'', IsDir = True\<rparr>,
          \<lparr>Name = ''go1.15'', IsDir = True\<rparr>, \<lparr>Name = ''go1.16'', IsDir = True\<rparr>,
          \<lparr>Name = ''tmp'', IsDir = True\<rparr>]"
        "[\<lparr>goroot = ''sdk/go1.14'', version = v1_14\<rparr>, \<lparr>goroot = ''sdk/go1.15'', version = v1_15\<rparr>,
          \<lparr>goroot = ''sdk/go1.16'', version = v1_16\<rparr>]"]
  from T three_ReadDir three_candidates f
  have "gosdklist three_world \<lparr>Major = 1, Minor = 17, Patch = 0, PreRelease = []\<rparr>
      = Inl (Errorf (''no go releases found in '' @ gosdk three_world))"
    by blast
  then have e: "gosdklist three_world \<lparr>Major = 1, Minor = 17, Patch = 0, PreRelease = []\<rparr>
      = Inl (Errorf ''no go releases found in sdk'')"
    by (simp add: g)
  from T have n: "gosdklist three_world \<lparr>Major = 1, Minor = 17, Patch = 0, PreRelease = []\<rparr> \<noteq> Inr []"
    by blast
  show ?thesis
    using three_contract f e n by (intro conjI)
qed

section \<open>The run\<close>

lemma run_loop_clean:
  "tool rel patterns = (None, None) \<Longrightarrow>
     run_loop tool patterns (rel # rels) index out = run_loop tool patterns rels index out"
  by simp

lemma run_loop_fatal:
  "tool rel patterns = (msg, Some err) \<Longrightarrow>
     run_loop tool patterns (rel # rels) index out = (out, Some err)"
  by (cases msg) simp_all

lemma run_loop_diagnostic:
  "tool rel patterns = (Some msg, None) \<Longrightarrow>
     run_loop tool patterns (rel # rels) index out
       = run_loop tool patterns rels (index + 1) (out @ (if index > 0 then [CHR 0x0A] else []) @ block rel msg)"
  by (simp add: block_def nl_def Let_def)

lemma Run_eq:
  "Run w (tool_cmd w sub rel patterns) =
     (case run_result (cmd_Run w (tool_cmd w sub rel patterns)) of
        None \<Rightarrow> None
      | Some err \<Rightarrow>
          Some (InvokeError
            \<lparr>Cmd = Join w [goroot rel, ''bin'', ''go''], Argv = sub # patterns,
             Stderr = normalize (stderr_written (cmd_Run w (tool_cmd w sub rel patterns))),
             Err = err\<rparr>))"
  by (simp add: Run_def tool_cmd_def exec_Command_def Let_def split: option.splits)

lemma tool_eq:
  "(if test then gotest w else govet w) rel patterns =
     (case Run w (tool_cmd w (if test then ''test'' else ''vet'') rel patterns) of
        Some (InvokeError cmderr) \<Rightarrow>
          (case Err cmderr of
             exec_Error \<Rightarrow> (None, Some (InvokeError cmderr))
           | exec_ExitError \<Rightarrow> (Stderr cmderr, None)
           | other_error \<Rightarrow> (None, Some (InvokeError cmderr)))
      | Some (Panic m) \<Rightarrow> (None, Some (Panic m))
      | Some _ \<Rightarrow> (None, Some (Panic ''interface conversion: error is not *invoke.Error''))
      | None \<Rightarrow> (None, None))"
  by (simp add: gotest_def govet_def tool_cmd_def Let_def split: option.splits error.splits)

lemma tool_outcome:
  assumes "p = cmd_Run w (tool_cmd w (if test then ''test'' else ''vet'') rel patterns)"
  shows "(if test then gotest w else govet w) rel patterns =
     (case run_result p of
        None \<Rightarrow> (None, None)
      | Some exec_Error \<Rightarrow>
          (None, Some (InvokeError
             \<lparr>Cmd = Join w [goroot rel, ''bin'', ''go''],
              Argv = (if test then ''test'' else ''vet'') # patterns,
              Stderr = normalize (stderr_written p), Err = exec_Error\<rparr>))
      | Some exec_ExitError \<Rightarrow> (normalize (stderr_written p), None)
      | Some other_error \<Rightarrow>
          (None, Some (InvokeError
             \<lparr>Cmd = Join w [goroot rel, ''bin'', ''go''],
              Argv = (if test then ''test'' else ''vet'') # patterns,
              Stderr = normalize (stderr_written p), Err = other_error\<rparr>)))"
  unfolding tool_eq Run_eq assms
  by (simp split: option.splits exec_error.splits)

text \<open>
  The step of the loop of \<open>run\<close> for one release, by the outcome of its command.
\<close>

lemma run_loop_step:
  assumes "p = cmd_Run w (tool_cmd w (if test then ''test'' else ''vet'') rel patterns)"
    and "T = (if test then gotest w else govet w)"
  shows "run_loop T patterns (rel # rels) index out =
     (case run_result p of
        None \<Rightarrow> run_loop T patterns rels index out
      | Some exec_Error \<Rightarrow>
          (out, Some (InvokeError
             \<lparr>Cmd = Join w [goroot rel, ''bin'', ''go''],
              Argv = (if test then ''test'' else ''vet'') # patterns,
              Stderr = normalize (stderr_written p), Err = exec_Error\<rparr>))
      | Some exec_ExitError \<Rightarrow>
          (case normalize (stderr_written p) of
             None \<Rightarrow> run_loop T patterns rels index out
           | Some msg \<Rightarrow>
               run_loop T patterns rels (index + 1)
                 (out @ (if index > 0 then [CHR 0x0A] else []) @ block rel msg))
      | Some other_error \<Rightarrow>
          (out, Some (InvokeError
             \<lparr>Cmd = Join w [goroot rel, ''bin'', ''go''],
              Argv = (if test then ''test'' else ''vet'') # patterns,
              Stderr = normalize (stderr_written p), Err = other_error\<rparr>)))"
proof -
  note t = tool_outcome [OF assms(1), folded assms(2)]
  show ?thesis
  proof (cases "run_result p")
    case None
    with t show ?thesis by (simp add: run_loop_clean del: run_loop.simps)
  next
    case (Some err)
    show ?thesis
    proof (cases err)
      case exec_Error
      with Some t show ?thesis by (simp add: run_loop_fatal del: run_loop.simps)
    next
      case exec_ExitError
      with Some t show ?thesis
        by (cases "normalize (stderr_written p)")
          (simp_all add: run_loop_clean run_loop_diagnostic del: run_loop.simps)
    next
      case other_error
      with Some t show ?thesis by (simp add: run_loop_fatal del: run_loop.simps)
    qed
  qed
qed

text \<open>
  C1 at a command that exits with a non-zero status and writes nothing to its standard
  error. \<open>invoke.Run\<close> trims the empty captured text to the nil slice, the tool returns
  \<open>nil, nil\<close>, and \<open>run\<close> takes that for a clean release: nothing is written for
  the release and no error is returned, where the claim has the release reported as a
  diagnostic. The other cases of the claim are the cases of \<open>run_loop_step\<close>.
\<close>

theorem run_silent_failure:
  "run_result (cmd_Run silent_world
       (tool_cmd silent_world ''test''
          \<lparr>goroot = ''sdk/go1.16'', version = v1_16\<rparr> [''./...'']))
     = Some exec_ExitError
   \<and> run silent_world [\<lparr>goroot = ''sdk/go1.16'', version = v1_16\<rparr>] [''./...''] True = ([], None)"
  by code_simp

lemma diagnostics_fatal:
  "tool rel patterns = (msg, Some err) \<Longrightarrow> diagnostics tool patterns (rel # rels) = []"
  by (cases msg) simp_all

lemma diagnostics_clean:
  "tool rel patterns = (None, None) \<Longrightarrow>
     diagnostics tool patterns (rel # rels) = diagnostics tool patterns rels"
  by simp

lemma diagnostics_diagnostic:
  "tool rel patterns = (Some msg, None) \<Longrightarrow>
     diagnostics tool patterns (rel # rels) = (rel, msg) # diagnostics tool patterns rels"
  by simp

lemma run_loop_later:
  "0 < index \<Longrightarrow>
     fst (run_loop tool patterns rels index out)
       = out @ concat (map (\<lambda>(rel, msg). [CHR 0x0A] @ block rel msg) (diagnostics tool patterns rels))"
proof (induction rels arbitrary: index out)
  case Nil
  show ?case by simp
next
  case (Cons rel rels)
  obtain msg err where t: "tool rel patterns = (msg, err)"
    by (cases "tool rel patterns") auto
  show ?case
  proof (cases err)
    case (Some e)
    with t show ?thesis
      by (simp add: run_loop_fatal diagnostics_fatal del: run_loop.simps diagnostics.simps)
  next
    case None
    show ?thesis
    proof (cases msg)
      case None
      with t \<open>err = None\<close> Cons show ?thesis
        by (simp add: run_loop_clean diagnostics_clean del: run_loop.simps diagnostics.simps)
    next
      case (Some m)
      with t \<open>err = None\<close> Cons.prems Cons.IH [of "index + 1"] show ?thesis
        by (simp add: run_loop_diagnostic diagnostics_diagnostic del: run_loop.simps diagnostics.simps)
    qed
  qed
qed

lemma run_loop_first:
  "fst (run_loop tool patterns rels 0 out)
     = out @ (case diagnostics tool patterns rels of
                [] \<Rightarrow> []
              | (rel, msg) # ds \<Rightarrow>
                  block rel msg @ concat (map (\<lambda>(rel', msg'). [CHR 0x0A] @ block rel' msg') ds))"
proof (induction rels arbitrary: out)
  case Nil
  show ?case by simp
next
  case (Cons rel rels)
  obtain msg err where t: "tool rel patterns = (msg, err)"
    by (cases "tool rel patterns") auto
  show ?case
  proof (cases err)
    case (Some e)
    with t show ?thesis
      by (simp add: run_loop_fatal diagnostics_fatal del: run_loop.simps diagnostics.simps)
  next
    case None
    show ?thesis
    proof (cases msg)
      case None
      with t \<open>err = None\<close> Cons show ?thesis
        by (simp add: run_loop_clean diagnostics_clean del: run_loop.simps diagnostics.simps)
    next
      case (Some m)
      with t \<open>err = None\<close> run_loop_later [of 1 tool patterns rels] show ?thesis
        by (simp add: run_loop_diagnostic diagnostics_diagnostic del: run_loop.simps diagnostics.simps)
    qed
  qed
qed

text \<open>
  C8. What \<open>run\<close> writes to the error stream is the blocks of its diagnostics, in
  order, with one line feed (the byte 0x0A) before every block but the first and nothing
  after the last: for N\<ge>2 diagnostics there are N-1 separators, each between two
  blocks. A block is the header \<open>using go<version>\<close>, a line feed, the message and
  a line feed, so that each separator stands after a line feed and is a blank line.
\<close>

theorem run_separators:
  "fst (run w releases patterns test) =
     (case diagnostics (if test then gotest w else govet w) patterns releases of
        [] \<Rightarrow> []
      | (rel, msg) # ds \<Rightarrow>
          block rel msg @ concat (map (\<lambda>(rel', msg'). [CHR 0x0A] @ block rel' msg') ds))
   \<and> (length (diagnostics (if test then gotest w else govet w) patterns releases) = N \<and> 2 \<le> N
        \<longrightarrow> (\<exists>rel msg ds.
              diagnostics (if test then gotest w else govet w) patterns releases = (rel, msg) # ds
              \<and> length (map (\<lambda>(rel', msg'). [CHR 0x0A] @ block rel' msg') ds) = N - 1
              \<and> fst (run w releases patterns test)
                  = block rel msg @ concat (map (\<lambda>(rel', msg'). [CHR 0x0A] @ block rel' msg') ds)))
   \<and> block rel0 msg0 = ''using go'' @ String (version rel0) @ [CHR 0x0A] @ msg0 @ [CHR 0x0A]"
proof (intro conjI impI)
  let ?T = "if test then gotest w else govet w"
  show 1: "fst (run w releases patterns test) =
     (case diagnostics ?T patterns releases of
        [] \<Rightarrow> []
      | (rel, msg) # ds \<Rightarrow>
          block rel msg @ concat (map (\<lambda>(rel', msg'). [CHR 0x0A] @ block rel' msg') ds))"
    using run_loop_first [of ?T patterns releases "[]"] by (simp add: run_def Let_def)
  show "block rel0 msg0 = ''using go'' @ String (version rel0) @ [CHR 0x0A] @ msg0 @ [CHR 0x0A]"
    by (simp add: block_def)
  assume "length (diagnostics ?T patterns releases) = N \<and> 2 \<le> N"
  then obtain d ds where d: "diagnostics ?T patterns releases = d # ds" and n: "length ds = N - 1"
    by (cases "diagnostics ?T patterns releases") auto
  obtain rel msg where "d = (rel, msg)"
    by (cases d) auto
  with d n 1 have "diagnostics ?T patterns releases = (rel, msg) # ds
      \<and> length (map (\<lambda>(rel', msg'). [CHR 0x0A] @ block rel' msg') ds) = N - 1
      \<and> fst (run w releases patterns test)
          = block rel msg @ concat (map (\<lambda>(rel', msg'). [CHR 0x0A] @ block rel' msg') ds)"
    by simp
  then show "\<exists>rel msg ds.
      diagnostics ?T patterns releases = (rel, msg) # ds
      \<and> length (map (\<lambda>(rel', msg'). [CHR 0x0A] @ block rel' msg') ds) = N - 1
      \<and> fst (run w releases patterns test)
          = block rel msg @ concat (map (\<lambda>(rel', msg'). [CHR 0x0A] @ block rel' msg') ds)"
    by blast
qed

lemma three_diagnostics:
  "diagnostics (govet three_world) [''./...'']
     [\<lparr>goroot = ''sdk/go1.14'', version = v1_14\<rparr>, \<lparr>goroot = ''sdk/go1.15'', version = v1_15\<rparr>,
      \<lparr>goroot = ''sdk/go1.16'', version = v1_16\<rparr>]
   = [(\<lparr>goroot = ''sdk/go1.14'', version = v1_14\<rparr>,
       ''# m'' @ [CHR 0x0A] @ ''./m.go:7:9: undefined: os.ReadFile''),
      (\<lparr>goroot = ''sdk/go1.15'', version = v1_15\<rparr>,
       ''# m'' @ [CHR 0x0A] @ ''./m.go:7:9: undefined: os.ReadFile'')]"
  by code_simp

lemma three_run:
  "run three_world
       [\<lparr>goroot = ''sdk/go1.14'', version = v1_14\<rparr>, \<lparr>goroot = ''sdk/go1.15'', version = v1_15\<rparr>,
        \<lparr>goroot = ''sdk/go1.16'', version = v1_16\<rparr>] [''./...''] False
     = (''using go1.14'' @ [CHR 0x0A]
          @ ''# m'' @ [CHR 0x0A]
          @ ''./m.go:7:9: undefined: os.ReadFile'' @ [CHR 0x0A]
          @ [CHR 0x0A]
          @ ''using go1.15'' @ [CHR 0x0A]
          @ ''# m'' @ [CHR 0x0A]
          @ ''./m.go:7:9: undefined: os.ReadFile'' @ [CHR 0x0A], None)"
  by code_simp

theorem run_separators_witness:
  "length (diagnostics (govet three_world) [''./...'']
     [\<lparr>goroot = ''sdk/go1.14'', version = v1_14\<rparr>, \<lparr>goroot = ''sdk/go1.15'', version = v1_15\<rparr>,
      \<lparr>goroot = ''sdk/go1.16'', version = v1_16\<rparr>]) = 2
   \<and> fst (run three_world
       [\<lparr>goroot = ''sdk/go1.14'', version = v1_14\<rparr>, \<lparr>goroot = ''sdk/go1.15'', version = v1_15\<rparr>,
        \<lparr>goroot = ''sdk/go1.16'', version = v1_16\<rparr>] [''./...''] False)
     = ''using go1.14'' @ [CHR 0x0A]
       @ ''# m'' @ [CHR 0x0A]
       @ ''./m.go:7:9: undefined: os.ReadFile'' @ [CHR 0x0A]
       @ [CHR 0x0A]
       @ ''using go1.15'' @ [CHR 0x0A]
       @ ''# m'' @ [CHR 0x0A]
       @ ''./m.go:7:9: undefined: os.ReadFile'' @ [CHR 0x0A]
   \<and> snd (run three_world
       [\<lparr>goroot = ''sdk/go1.14'', version = v1_14\<rparr>, \<lparr>goroot = ''sdk/go1.15'', version = v1_15\<rparr>,
        \<lparr>goroot = ''sdk/go1.16'', version = v1_16\<rparr>] [''./...''] False) = None"
proof -
  let ?rs = "[\<lparr>goroot = ''sdk/go1.14'', version = v1_14\<rparr>, \<lparr>goroot = ''sdk/go1.15'', version = v1_15\<rparr>,
      \<lparr>goroot = ''sdk/go1.16'', version = v1_16\<rparr>]"
  have s: "String v1_14 = ''1.14''" "String v1_15 = ''1.15''"
    by code_simp+
  have l: "length (diagnostics (govet three_world) [''./...''] ?rs) = 2"
    by (subst three_diagnostics) simp
  note T = run_separators [of three_world ?rs "[''./...'']" False 2, unfolded if_False]
  have "(2::nat) \<le> 2"
    by simp
  with T l have "\<exists>rel msg ds.
      diagnostics (govet three_world) [''./...''] ?rs = (rel, msg) # ds
      \<and> length (map (\<lambda>(rel', msg'). [CHR 0x0A] @ block rel' msg') ds) = 2 - 1
      \<and> fst (run three_world ?rs [''./...''] False)
          = block rel msg @ concat (map (\<lambda>(rel', msg'). [CHR 0x0A] @ block rel' msg') ds)"
    by blast
  then obtain rel msg ds
    where d: "diagnostics (govet three_world) [''./...''] ?rs = (rel, msg) # ds"
    and o: "fst (run three_world ?rs [''./...''] False)
      = block rel msg @ concat (map (\<lambda>(rel', msg'). [CHR 0x0A] @ block rel' msg') ds)"
    by blast
  from d have "rel = \<lparr>goroot = ''sdk/go1.14'', version = v1_14\<rparr>"
    "msg = ''# m'' @ [CHR 0x0A] @ ''./m.go:7:9: undefined: os.ReadFile''"
    "ds = [(\<lparr>goroot = ''sdk/go1.15'', version = v1_15\<rparr>,
            ''# m'' @ [CHR 0x0A] @ ''./m.go:7:9: undefined: os.ReadFile'')]"
    unfolding three_diagnostics by auto
  with o have "fst (run three_world ?rs [''./...''] False)
     = ''using go1.14'' @ [CHR 0x0A]
       @ ''# m'' @ [CHR 0x0A]
       @ ''./m.go:7:9: undefined: os.ReadFile'' @ [CHR 0x0A]
       @ [CHR 0x0A]
       @ ''using go1.15'' @ [CHR 0x0A]
       @ ''# m'' @ [CHR 0x0A]
       @ ''./m.go:7:9: undefined: os.ReadFile'' @ [CHR 0x0A]"
    by (simp add: block_def s)
  moreover have "snd (run three_world ?rs [''./...''] False) = None"
    by (subst three_run) simp
  ultimately show ?thesis
    using l by (intro conjI)
qed

lemma isFatal_nonempty: "Stderr e = Some s \<Longrightarrow> s \<noteq> [] \<Longrightarrow> isFatal e = Inr False"
  by (cases s) (simp_all add: isFatal_def string_of_def)

lemma isFatal_empty_panics:
  "Stderr e = None \<Longrightarrow> isFatal e = Inl (Panic ''index out of range [0] with length 0'')"
  by (simp add: isFatal_def string_of_def bytes_HasPrefix_def HasPrefix_def)

lemma TrimSpace_nonempty: "TrimSpace b = Some s \<Longrightarrow> s \<noteq> []"
  by (auto simp: TrimSpace_def Let_def split: if_splits)

text \<open>
  In the variant with \<open>isFatal\<close>, \<open>isFatal\<close> returns false for every error whose
  \<open>Stderr\<close> is not empty, and it returns true for no error at all. A command that ran
  and exited with a non-zero status and a non-empty \<open>Stderr\<close> is returned by \<open>govet\<close>
  as a diagnostic, and the loop of \<open>run\<close> writes its block and goes on.
\<close>

lemma isFatal_nonempty_reported:
  assumes "Stderr e = Some s" "s \<noteq> []"
  shows "isFatal e = Inr False
    \<and> isFatal e' \<noteq> Inr True
    \<and> (Run w (tool_cmd w ''vet'' rel patterns) = Some (InvokeError e) \<and> Err e = exec_ExitError
         \<longrightarrow> alt_govet w rel patterns = (Some s, None)
           \<and> run_loop (alt_govet w) patterns (rel # rels) index out
               = run_loop (alt_govet w) patterns rels (index + 1)
                   (out @ (if index > 0 then [CHR 0x0A] else []) @ block rel s))"
proof (intro conjI impI)
  show f: "isFatal e = Inr False"
    using assms by (rule isFatal_nonempty)
  show "isFatal e' \<noteq> Inr True"
    by (simp add: isFatal_def split: list.splits)
  assume "Run w (tool_cmd w ''vet'' rel patterns) = Some (InvokeError e) \<and> Err e = exec_ExitError"
  with f assms(1) show g: "alt_govet w rel patterns = (Some s, None)"
    by (simp add: alt_govet_def tool_cmd_def Let_def)
  then show "run_loop (alt_govet w) patterns (rel # rels) index out
      = run_loop (alt_govet w) patterns rels (index + 1)
          (out @ (if index > 0 then [CHR 0x0A] else []) @ block rel s)"
    by (rule run_loop_diagnostic)
qed

lemma isFatal_nonempty_example:
  "alt_run three_world [\<lparr>goroot = ''sdk/go1.14'', version = v1_14\<rparr>] [''./...'']
     = (''using go1.14'' @ [CHR 0x0A] @ ''# m'' @ [CHR 0x0A]
          @ ''./m.go:7:9: undefined: os.ReadFile'' @ [CHR 0x0A], None)"
  by code_simp

text \<open>
  C10 at a \<open>go vet\<close> that exits with a non-zero status and leaves its standard error
  empty. \<open>invoke.Run\<close> trims the empty captured text to the nil slice, \<open>govet\<close> asks
  \<open>isFatal\<close>, and \<open>isFatal\<close> indexes \<open>err.Stderr[0]\<close> of a slice of length 0: a
  run-time panic. The command ran and exited non-zero, and the run ends in the panic
  with nothing reported for the release, where the claim has every such command
  reported as a diagnostic.
\<close>

theorem isFatal_empty_stderr_panics:
  "cmd_Run mute_world
       (tool_cmd mute_world ''vet'' \<lparr>goroot = ''sdk/go1.16'', version = v1_16\<rparr> [''./...''])
     = \<lparr>stdout_written = [], stderr_written = [], run_result = Some exec_ExitError\<rparr>
   \<and> Run mute_world
       (tool_cmd mute_world ''vet'' \<lparr>goroot = ''sdk/go1.16'', version = v1_16\<rparr> [''./...''])
     = Some (InvokeError \<lparr>Cmd = ''sdk/go1.16/bin/go'', Argv = [''vet'', ''./...''],
                          Stderr = None, Err = exec_ExitError\<rparr>)
   \<and> isFatal \<lparr>Cmd = ''sdk/go1.16/bin/go'', Argv = [''vet'', ''./...''],
              Stderr = None, Err = exec_ExitError\<rparr>
     = Inl (Panic ''index out of range [0] with length 0'')
   \<and> alt_govet mute_world \<lparr>goroot = ''sdk/go1.16'', version = v1_16\<rparr> [''./...'']
     = (None, Some (Panic ''index out of range [0] with length 0''))
   \<and> alt_run mute_world [\<lparr>goroot = ''sdk/go1.16'', version = v1_16\<rparr>] [''./...'']
     = ([], Some (Panic ''index out of range [0] with length 0''))"
  by code_simp

text \<open>
  C9 at lines with fewer than three fields, or with \<open>devel\<close> as the third and last
  field: \<open>ParseLine\<close> does not return a \<open>Version\<close> or an error, it panics with an
  index out of range. \<open>gosdklist\<close> reaches it when a directory's \<open>go version\<close>
  succeeds and prints nothing.
\<close>

theorem ParseLine_short_line_panics:
  "ParseLine [] = Inl (Panic ''index out of range [2]'')
   \<and> ParseLine ''go version'' = Inl (Panic ''index out of range [2]'')
   \<and> ParseLine ''go version devel'' = Inl (Panic ''index out of range [3]'')
   \<and> goversion blank_world ''sdk/gotip'' = Inr []
   \<and> gosdklist blank_world zero_Version = Inl (Panic ''index out of range [2]'')"
  by code_simp

lemma ParseLine_stable:
  assumes "Fields line = f0 # f1 # v # rest" "v \<noteq> ''devel''"
  shows "ParseLine line = Parse v"
  using assms by (simp add: ParseLine_def)

lemma ParseLine_devel:
  assumes "Fields line = f0 # f1 # ''devel'' # v # rest"
  shows "ParseLine line = Parse v"
  using assms by (simp add: ParseLine_def)

lemma ParseLine_examples:
  "ParseLine ''go version go1.16.3 linux/amd64''
     = Inr \<lparr>Major = 1, Minor = 16, Patch = 3, PreRelease = []\<rparr>"
  "ParseLine ''go version devel go1.17-3f4977bd58 Tue Mar 2 06:00:00 2021 +0000 linux/amd64''
     = Inr \<lparr>Major = 1, Minor = 17, Patch = 0, PreRelease = ''-3f4977bd58''\<rparr>"
  by code_simp+

section \<open>The model on the package tests, and further facts\<close>

text \<open>The tests \<open>TestRun\<close> and \<open>TestOutput\<close> of package invoke, on the model.\<close>

lemma invoke_tests:
  "Run script_world (exec_Command ''/tmp/test.sh'' [''-a'', ''b''])
     = Some (InvokeError \<lparr>Cmd = ''/tmp/test.sh'', Argv = [''-a'', ''b''],
                          Stderr = Some ''hello stderr'', Err = exec_ExitError\<rparr>)"
  "Output script_world (exec_Command ''/tmp/test.sh'' [''-a'', ''b''])
     = (Some ''hello stdout'',
        Some (InvokeError \<lparr>Cmd = ''/tmp/test.sh'', Argv = [''-a'', ''b''],
                            Stderr = Some ''hello stderr'', Err = exec_ExitError\<rparr>))"
  by code_simp+

text \<open>
  A diagnostic of a run is a release whose command exited with a non-zero status and
  left a standard error that is not blank.
\<close>

lemma diagnostics_outcome:
  assumes "T = (if test then gotest w else govet w)"
    and "p = cmd_Run w (tool_cmd w (if test then ''test'' else ''vet'') rel patterns)"
  shows "diagnostics T patterns (rel # rels) =
     (case run_result p of
        None \<Rightarrow> diagnostics T patterns rels
      | Some exec_ExitError \<Rightarrow>
          (case normalize (stderr_written p) of
             None \<Rightarrow> diagnostics T patterns rels
           | Some msg \<Rightarrow> (rel, msg) # diagnostics T patterns rels)
      | Some _ \<Rightarrow> [])"
  using tool_outcome [OF assms(2), folded assms(1)]
  by (simp split: option.splits exec_error.splits)

lemma Fields_unicode:
  "Fields ([CHR 0x61, CHR 0xC2, CHR 0xA0, CHR 0x62, CHR 0xE2, CHR 0x80, CHR 0x83, CHR 0x20, CHR 0x63])
     = [''a'', ''b'', ''c'']"
  by code_simp

end
